theory Spec2Isabelle
  imports Complex_Main "HOL-Library.Word" "HOL-Library.Monad_Syntax"
begin

section \<open>The waitlist signup API: a shallow embedding of the request handler\<close>

text \<open>
  The worker answers \<^verbatim>\<open>POST /api/waitlist\<close>: it parses the body, normalizes the field
  names, validates the result against \<^verbatim>\<open>waitlistPayloadSchema\<close>, filters bots by a honeypot
  field, limits submissions per connecting IP and UTC day, and upserts one row per email.
  Every function below is translated from the worker's source and keeps its name.

  Conventions of the embedding.
  \<^item> A JavaScript string is a \<^typ>\<open>string\<close>; one \<^typ>\<open>char\<close> stands for one UTF-16 code unit,
    so the model covers the strings whose code units are below 256 and \<open>length\<close> is
    JavaScript's \<^verbatim>\<open>.length\<close>.
  \<^item> A JavaScript number is a value of a type parameter \<open>'n\<close>; what the language and the
    libraries compute on numbers and on text (Number, Math.trunc, String, JSON.parse, the zod
    format checks, the SHA-256 digest) is taken from a record of runtime functions.
  \<^item> An instant is an \<^typ>\<open>int\<close>, the milliseconds since the epoch that \<^verbatim>\<open>Date.getTime\<close>
    returns; the Date arithmetic is ECMAScript's, written out.
  \<^item> An exception is a value: a function that can throw returns \<open>thrown + 'a\<close>.
\<close>

subsection \<open>Strings\<close>

definition isWhiteSpace :: "char \<Rightarrow> bool" where
  \<comment> \<open>the white space and line terminators that \<^verbatim>\<open>String.prototype.trim\<close> removes\<close>
  "isWhiteSpace c =
     (c \<in> set [CHR 0x09, CHR 0x0A, CHR 0x0B, CHR 0x0C, CHR 0x0D, CHR 0x20, CHR 0xA0])"

definition trim :: "string \<Rightarrow> string" where
  "trim s = rev (dropWhile isWhiteSpace (rev (dropWhile isWhiteSpace s)))"

definition lowerChar :: "char \<Rightarrow> char" where
  "lowerChar c =
     (case map_of (zip
         (''ABCDEFGHIJKLMNOPQRSTUVWXYZ'' @
          [CHR 0xC0, CHR 0xC1, CHR 0xC2, CHR 0xC3, CHR 0xC4, CHR 0xC5, CHR 0xC6, CHR 0xC7,
           CHR 0xC8, CHR 0xC9, CHR 0xCA, CHR 0xCB, CHR 0xCC, CHR 0xCD, CHR 0xCE, CHR 0xCF,
           CHR 0xD0, CHR 0xD1, CHR 0xD2, CHR 0xD3, CHR 0xD4, CHR 0xD5, CHR 0xD6,
           CHR 0xD8, CHR 0xD9, CHR 0xDA, CHR 0xDB, CHR 0xDC, CHR 0xDD, CHR 0xDE])
         (''abcdefghijklmnopqrstuvwxyz'' @
          [CHR 0xE0, CHR 0xE1, CHR 0xE2, CHR 0xE3, CHR 0xE4, CHR 0xE5, CHR 0xE6, CHR 0xE7,
           CHR 0xE8, CHR 0xE9, CHR 0xEA, CHR 0xEB, CHR 0xEC, CHR 0xED, CHR 0xEE, CHR 0xEF,
           CHR 0xF0, CHR 0xF1, CHR 0xF2, CHR 0xF3, CHR 0xF4, CHR 0xF5, CHR 0xF6,
           CHR 0xF8, CHR 0xF9, CHR 0xFA, CHR 0xFB, CHR 0xFC, CHR 0xFD, CHR 0xFE])) c of
        Some l \<Rightarrow> l
      | None \<Rightarrow> c)"

definition toLowerCase :: "string \<Rightarrow> string" where
  "toLowerCase s = map lowerChar s"

definition startsWith :: "string \<Rightarrow> string \<Rightarrow> bool" where
  "startsWith s pat = (take (length pat) s = pat)"

fun includes_str :: "string \<Rightarrow> string \<Rightarrow> bool" where
  "includes_str [] pat = (pat = [])"
| "includes_str (c # cs) pat = (startsWith (c # cs) pat \<or> includes_str cs pat)"

definition digitChar :: "nat \<Rightarrow> char" where
  "digitChar d = ''0123456789abcdef'' ! d"

fun digits10 :: "nat \<Rightarrow> string" where
  "digits10 n =
     (if n < 10 then [digitChar n] else digits10 (n div 10) @ [digitChar (n mod 10)])"

declare digits10.simps [simp del]

subsection \<open>JavaScript values\<close>

datatype 'n jsval =
    JUndefined
  | JNull
  | JBool bool
  | JNum 'n
  | JStr string
  | JArr "'n jsval list"
  | JObj "(string \<times> 'n jsval) list"

text \<open>
  \<open>JObj kvs\<close> is an object whose own properties are \<open>kvs\<close>, in the order of
  \<^verbatim>\<open>Object.entries\<close>. The handler reads properties by fixed names, none of them an array
  index or a member of a prototype, so reading one from a value that is not a plain object
  gives \<^verbatim>\<open>undefined\<close>.
\<close>

fun getProp :: "'n jsval \<Rightarrow> string \<Rightarrow> 'n jsval" where
  "getProp (JObj kvs) k = (case map_of kvs k of None \<Rightarrow> JUndefined | Some v \<Rightarrow> v)"
| "getProp _ k = JUndefined"

fun orElse :: "'n jsval \<Rightarrow> 'n jsval \<Rightarrow> 'n jsval" where
  \<comment> \<open>\<^verbatim>\<open>a ?? b\<close>\<close>
  "orElse JUndefined b = b"
| "orElse JNull b = b"
| "orElse a b = a"

fun isRecord :: "'n jsval \<Rightarrow> bool" where
  \<comment> \<open>\<^verbatim>\<open>typeof value === 'object' && value !== null\<close>: arrays are objects\<close>
  "isRecord (JObj kvs) = True"
| "isRecord (JArr vs) = True"
| "isRecord _ = False"

fun setProp :: "(string \<times> 'v) list \<Rightarrow> string \<Rightarrow> 'v \<Rightarrow> (string \<times> 'v) list" where
  "setProp [] k v = [(k, v)]"
| "setProp ((k', v') # kvs) k v =
     (if k' = k then (k, v) # kvs else (k', v') # setProp kvs k v)"

definition assignProp :: "(string \<times> 'v) list \<Rightarrow> string \<Rightarrow> 'v \<Rightarrow> (string \<times> 'v) list" where
  \<comment> \<open>\<^verbatim>\<open>output[key] = value\<close> on an object literal, \<^verbatim>\<open>value\<close> a string: the key
     \<^verbatim>\<open>__proto__\<close> reaches the prototype setter, which ignores a string\<close>
  "assignProp obj k v = (if k = ''__proto__'' then obj else setProp obj k v)"

definition deleteProp :: "(string \<times> 'v) list \<Rightarrow> string \<Rightarrow> (string \<times> 'v) list" where
  "deleteProp obj k = filter (\<lambda>kv. fst kv \<noteq> k) obj"

definition optStr :: "string option \<Rightarrow> 'n jsval" where
  \<comment> \<open>\<^verbatim>\<open>value ?? null\<close> for a string, and what \<^verbatim>\<open>Headers.get\<close> returns\<close>
  "optStr v = (case v of None \<Rightarrow> JNull | Some s \<Rightarrow> JStr s)"

definition optNum :: "'n option \<Rightarrow> 'n jsval" where
  "optNum v = (case v of None \<Rightarrow> JNull | Some n \<Rightarrow> JNum n)"

definition optBool :: "bool option \<Rightarrow> 'n jsval" where
  "optBool v = (case v of None \<Rightarrow> JNull | Some b \<Rightarrow> JBool b)"

subsection \<open>The runtime: the language's and the libraries' functions\<close>

record 'n runtime =
  zodEmail :: "string \<Rightarrow> bool"
  zodUrl :: "string \<Rightarrow> string option"
  JSON_parse :: "string \<Rightarrow> 'n jsval option"
  Number_ofString :: "string \<Rightarrow> 'n"
  Number_ofInt :: "int \<Rightarrow> 'n"
  Number_isFinite :: "'n \<Rightarrow> bool"
  Number_isSafeInteger :: "'n \<Rightarrow> bool"
  Number_le :: "'n \<Rightarrow> 'n \<Rightarrow> bool"
  Math_trunc :: "'n \<Rightarrow> 'n"
  String_ofNumber :: "'n \<Rightarrow> string"
  SHA256 :: "string \<Rightarrow> 8 word list"

text \<open>
  \<open>zodEmail\<close> is the address test of \<^verbatim>\<open>z.email()\<close>; \<open>zodUrl\<close> is \<^verbatim>\<open>z.url()\<close>, \<open>None\<close>
  for a string that is no URL and otherwise the string the schema outputs; \<open>JSON_parse\<close> is
  \<open>None\<close> where \<^verbatim>\<open>JSON.parse\<close> throws; \<open>Number_ofString\<close> is \<^verbatim>\<open>Number(s)\<close>;
  \<open>Number_ofInt\<close> is an integer literal; \<open>SHA256\<close> is the digest of the UTF-8 encoding of
  its argument.
\<close>

datatype thrown = JsError string string | ThrownValue

text \<open>
  \<open>JsError name message\<close> is an instance of \<^verbatim>\<open>Error\<close>; \<open>ThrownValue\<close> is anything thrown
  that is no such instance.
\<close>

subsection \<open>Coercions of the field normalizer\<close>

fun toOptionalString :: "'n jsval \<Rightarrow> string option" where
  "toOptionalString (JStr s) = (let trimmed = trim s in if length trimmed > 0 then Some trimmed else None)"
| "toOptionalString _ = None"

fun toOptionalNumber :: "'n runtime \<Rightarrow> 'n jsval \<Rightarrow> 'n option" where
  "toOptionalNumber R (JNum n) = (if Number_isFinite R n then Some n else None)"
| "toOptionalNumber R (JStr s) =
     (if length (trim s) = 0 then None
      else let parsed = Number_ofString R s in
        if Number_isFinite R parsed then Some parsed else None)"
| "toOptionalNumber R _ = None"

definition toOptionalInteger :: "'n runtime \<Rightarrow> 'n jsval \<Rightarrow> 'n option" where
  "toOptionalInteger R v =
     (case toOptionalNumber R v of None \<Rightarrow> None | Some parsed \<Rightarrow> Some (Math_trunc R parsed))"

fun toOptionalBoolean :: "'n jsval \<Rightarrow> bool option" where
  "toOptionalBoolean (JBool b) = Some b"
| "toOptionalBoolean (JStr s) =
     (let normalized = toLowerCase (trim s) in
      if normalized = ''true'' \<or> normalized = ''1'' \<or> normalized = ''yes'' then Some True
      else if normalized = ''false'' \<or> normalized = ''0'' \<or> normalized = ''no'' then Some False
      else None)"
| "toOptionalBoolean _ = None"

fun parseMetadata :: "'n runtime \<Rightarrow> 'n jsval \<Rightarrow> 'n jsval" where
  \<comment> \<open>the result is a record or \<open>JUndefined\<close>\<close>
  "parseMetadata R (JObj kvs) = JObj kvs"
| "parseMetadata R (JArr vs) = JArr vs"
| "parseMetadata R (JStr s) =
     (if length (trim s) = 0 then JUndefined
      else case JSON_parse R s of
          None \<Rightarrow> JUndefined
        | Some parsedValue \<Rightarrow> if isRecord parsedValue then parsedValue else JUndefined)"
| "parseMetadata R _ = JUndefined"

definition optNumber :: "'n option \<Rightarrow> 'n jsval" where
  \<comment> \<open>a \<^verbatim>\<open>number | undefined\<close> as a value\<close>
  "optNumber v = (case v of None \<Rightarrow> JUndefined | Some n \<Rightarrow> JNum n)"

definition optString :: "string option \<Rightarrow> 'n jsval" where
  \<comment> \<open>a \<^verbatim>\<open>string | undefined\<close> as a value\<close>
  "optString v = (case v of None \<Rightarrow> JUndefined | Some s \<Rightarrow> JStr s)"

definition optBoolean :: "bool option \<Rightarrow> 'n jsval" where
  "optBoolean v = (case v of None \<Rightarrow> JUndefined | Some b \<Rightarrow> JBool b)"

definition normalizePayload :: "'n runtime \<Rightarrow> 'n jsval \<Rightarrow> 'n jsval" where
  "normalizePayload R raw =
     (let metadata = parseMetadata R (getProp raw ''metadata'') in
      JObj [
        (''email'', optString (toOptionalString (getProp raw ''email''))),
        (''qualifier'', optString (toOptionalString
            (orElse (orElse (getProp raw ''qualifier'') (getProp raw ''segment'')) (getProp raw ''role'')))),
        (''useCase'', optString (toOptionalString
            (orElse (orElse (orElse (getProp raw ''useCase'') (getProp raw ''use_case''))
               (getProp raw ''intent'')) (getProp raw ''description'')))),
        (''website'', optString (toOptionalString (orElse (getProp raw ''website'') (getProp raw ''company'')))),
        (''source'', optString (toOptionalString (orElse (getProp raw ''source'') (getProp raw ''source_url'')))),
        (''landingPath'', optString (toOptionalString
            (orElse (getProp raw ''landingPath'') (getProp raw ''landing_path'')))),
        (''utmSource'', optString (toOptionalString (orElse (getProp raw ''utmSource'') (getProp raw ''utm_source'')))),
        (''utmMedium'', optString (toOptionalString (orElse (getProp raw ''utmMedium'') (getProp raw ''utm_medium'')))),
        (''utmCampaign'', optString (toOptionalString
            (orElse (getProp raw ''utmCampaign'') (getProp raw ''utm_campaign'')))),
        (''utmTerm'', optString (toOptionalString (orElse (getProp raw ''utmTerm'') (getProp raw ''utm_term'')))),
        (''utmContent'', optString (toOptionalString
            (orElse (getProp raw ''utmContent'') (getProp raw ''utm_content'')))),
        (''locale'', optString (toOptionalString (getProp raw ''locale''))),
        (''timezone'', optString (toOptionalString (getProp raw ''timezone''))),
        (''timezoneOffsetMinutes'', optNumber (toOptionalInteger R
            (orElse (getProp raw ''timezoneOffsetMinutes'') (getProp raw ''timezone_offset_minutes'')))),
        (''screen'', optString (toOptionalString (getProp raw ''screen''))),
        (''viewport'', optString (toOptionalString (getProp raw ''viewport''))),
        (''platform'', optString (toOptionalString (getProp raw ''platform''))),
        (''colorScheme'', optString (toOptionalString
            (orElse (getProp raw ''colorScheme'') (getProp raw ''color_scheme'')))),
        (''reducedMotion'', optString (toOptionalString
            (orElse (getProp raw ''reducedMotion'') (getProp raw ''reduced_motion'')))),
        (''cookieEnabled'', optBoolean (toOptionalBoolean
            (orElse (getProp raw ''cookieEnabled'') (getProp raw ''cookie_enabled'')))),
        (''doNotTrack'', optString (toOptionalString
            (orElse (getProp raw ''doNotTrack'') (getProp raw ''do_not_track'')))),
        (''deviceMemory'', optNumber (toOptionalNumber R
            (orElse (getProp raw ''deviceMemory'') (getProp raw ''device_memory'')))),
        (''hardwareConcurrency'', optNumber (toOptionalInteger R
            (orElse (getProp raw ''hardwareConcurrency'') (getProp raw ''hardware_concurrency'')))),
        (''maxTouchPoints'', optNumber (toOptionalInteger R
            (orElse (getProp raw ''maxTouchPoints'') (getProp raw ''max_touch_points'')))),
        (''additionalFields'', parseMetadata R
            (orElse (orElse (getProp raw ''additionalFields'') (getProp raw ''additional_fields''))
               (getProp raw ''fields''))),
        (''metadata'', metadata)])"

subsection \<open>The schema \<^verbatim>\<open>waitlistPayloadSchema\<close>\<close>

text \<open>
  A schema maps a value to \<open>None\<close> when it has an issue and to its output otherwise; the
  output of an optional field is itself an option. \<^verbatim>\<open>safeParse\<close> succeeds when no field
  has an issue.
\<close>

definition zEmailMax :: "'n runtime \<Rightarrow> 'n jsval \<Rightarrow> string option" where
  \<comment> \<open>\<^verbatim>\<open>z.preprocess(trim, z.email().max(320))\<close>\<close>
  "zEmailMax R v =
     (case v of
        JStr s \<Rightarrow> (let t = trim s in if zodEmail R t \<and> length t \<le> 320 then Some t else None)
      | _ \<Rightarrow> None)"

definition zStringMax :: "nat \<Rightarrow> 'n jsval \<Rightarrow> string option option" where
  \<comment> \<open>\<^verbatim>\<open>z.string().trim().max(n).optional()\<close>\<close>
  "zStringMax n v =
     (case v of
        JUndefined \<Rightarrow> Some None
      | JStr s \<Rightarrow> (let t = trim s in if length t \<le> n then Some (Some t) else None)
      | _ \<Rightarrow> None)"

definition zUrlMax :: "'n runtime \<Rightarrow> 'n jsval \<Rightarrow> string option option" where
  \<comment> \<open>\<^verbatim>\<open>z.preprocess(trim, z.url().max(2048)).optional()\<close>\<close>
  "zUrlMax R v =
     (case v of
        JUndefined \<Rightarrow> Some None
      | JStr s \<Rightarrow>
          (case zodUrl R (trim s) of
             None \<Rightarrow> None
           | Some out \<Rightarrow> if length out \<le> 2048 then Some (Some out) else None)
      | _ \<Rightarrow> None)"

definition zEnum :: "string list \<Rightarrow> 'n jsval \<Rightarrow> string option option" where
  \<comment> \<open>\<^verbatim>\<open>z.enum([...]).optional()\<close>\<close>
  "zEnum lits v =
     (case v of
        JUndefined \<Rightarrow> Some None
      | JStr s \<Rightarrow> if s \<in> set lits then Some (Some s) else None
      | _ \<Rightarrow> None)"

definition zBoolean :: "'n jsval \<Rightarrow> bool option option" where
  "zBoolean v =
     (case v of JUndefined \<Rightarrow> Some None | JBool b \<Rightarrow> Some (Some b) | _ \<Rightarrow> None)"

definition zNumberRange :: "'n runtime \<Rightarrow> bool \<Rightarrow> int \<Rightarrow> int \<Rightarrow> 'n jsval \<Rightarrow> 'n option option" where
  \<comment> \<open>\<^verbatim>\<open>z.number().min(lo).max(hi).optional()\<close>, with \<^verbatim>\<open>.int()\<close> when the flag is set\<close>
  "zNumberRange R isInt lo hi v =
     (case v of
        JUndefined \<Rightarrow> Some None
      | JNum n \<Rightarrow>
          if Number_isFinite R n \<and> (if isInt then Number_isSafeInteger R n else True)
             \<and> Number_le R (Number_ofInt R lo) n \<and> Number_le R n (Number_ofInt R hi)
          then Some (Some n) else None
      | _ \<Rightarrow> None)"

definition zRecord :: "'n jsval \<Rightarrow> (string \<times> 'n jsval) list option option" where
  \<comment> \<open>\<^verbatim>\<open>z.record(z.string(), z.unknown()).optional()\<close>: a plain object with any values; the
     output is a copy that leaves out a key \<^verbatim>\<open>__proto__\<close>\<close>
  "zRecord v =
     (case v of
        JUndefined \<Rightarrow> Some None
      | JObj kvs \<Rightarrow> Some (Some (filter (\<lambda>kv. fst kv \<noteq> ''__proto__'') kvs))
      | _ \<Rightarrow> None)"

record 'n payload =
  email :: string
  qualifier :: "string option"
  useCase :: "string option"
  website :: "string option"
  source :: "string option"
  landingPath :: "string option"
  utmSource :: "string option"
  utmMedium :: "string option"
  utmCampaign :: "string option"
  utmTerm :: "string option"
  utmContent :: "string option"
  locale' :: "string option"
  timezone :: "string option"
  timezoneOffsetMinutes :: "'n option"
  screen :: "string option"
  viewport :: "string option"
  platform :: "string option"
  colorScheme :: "string option"
  reducedMotion :: "string option"
  cookieEnabled :: "bool option"
  doNotTrack :: "string option"
  deviceMemory :: "'n option"
  hardwareConcurrency :: "'n option"
  maxTouchPoints :: "'n option"
  additionalFields :: "(string \<times> 'n jsval) list option"
  metadata :: "(string \<times> 'n jsval) list option"

definition safeParse :: "'n runtime \<Rightarrow> 'n jsval \<Rightarrow> 'n payload option" where
  \<comment> \<open>\<^verbatim>\<open>waitlistPayloadSchema.safeParse\<close>; \<open>None\<close> is \<^verbatim>\<open>success: false\<close>\<close>
  "safeParse R v = do {
     f1 \<leftarrow> zEmailMax R (getProp v ''email'');
     f2 \<leftarrow> zStringMax 80 (getProp v ''qualifier'');
     f3 \<leftarrow> zStringMax 1200 (getProp v ''useCase'');
     f4 \<leftarrow> zStringMax 200 (getProp v ''website'');
     f5 \<leftarrow> zUrlMax R (getProp v ''source'');
     f6 \<leftarrow> zStringMax 512 (getProp v ''landingPath'');
     f7 \<leftarrow> zStringMax 120 (getProp v ''utmSource'');
     f8 \<leftarrow> zStringMax 120 (getProp v ''utmMedium'');
     f9 \<leftarrow> zStringMax 120 (getProp v ''utmCampaign'');
     f10 \<leftarrow> zStringMax 120 (getProp v ''utmTerm'');
     f11 \<leftarrow> zStringMax 120 (getProp v ''utmContent'');
     f12 \<leftarrow> zStringMax 32 (getProp v ''locale'');
     f13 \<leftarrow> zStringMax 64 (getProp v ''timezone'');
     f14 \<leftarrow> zNumberRange R True (- 840) 840 (getProp v ''timezoneOffsetMinutes'');
     f15 \<leftarrow> zStringMax 32 (getProp v ''screen'');
     f16 \<leftarrow> zStringMax 32 (getProp v ''viewport'');
     f17 \<leftarrow> zStringMax 120 (getProp v ''platform'');
     f18 \<leftarrow> zEnum [''light'', ''dark'', ''no-preference''] (getProp v ''colorScheme'');
     f19 \<leftarrow> zEnum [''reduce'', ''no-preference''] (getProp v ''reducedMotion'');
     f20 \<leftarrow> zBoolean (getProp v ''cookieEnabled'');
     f21 \<leftarrow> zStringMax 24 (getProp v ''doNotTrack'');
     f22 \<leftarrow> zNumberRange R False 0 128 (getProp v ''deviceMemory'');
     f23 \<leftarrow> zNumberRange R True 1 256 (getProp v ''hardwareConcurrency'');
     f24 \<leftarrow> zNumberRange R True 0 64 (getProp v ''maxTouchPoints'');
     f25 \<leftarrow> zRecord (getProp v ''additionalFields'');
     f26 \<leftarrow> zRecord (getProp v ''metadata'');
     Some \<lparr> email = f1, qualifier = f2, useCase = f3, website = f4, source = f5,
       landingPath = f6, utmSource = f7, utmMedium = f8, utmCampaign = f9, utmTerm = f10,
       utmContent = f11, locale' = f12, timezone = f13, timezoneOffsetMinutes = f14,
       screen = f15, viewport = f16, platform = f17, colorScheme = f18, reducedMotion = f19,
       cookieEnabled = f20, doNotTrack = f21, deviceMemory = f22, hardwareConcurrency = f23,
       maxTouchPoints = f24, additionalFields = f25, metadata = f26 \<rparr>
   }"

subsection \<open>Dates: the time values of ECMAScript\<close>

definition msPerDay :: int where
  "msPerDay = 86400000"

definition Day :: "int \<Rightarrow> int" where
  "Day t = t div msPerDay"

definition DaysInYear :: "int \<Rightarrow> int" where
  "DaysInYear y =
     (if y mod 4 \<noteq> 0 then 365 else if y mod 100 \<noteq> 0 then 366
      else if y mod 400 \<noteq> 0 then 365 else 366)"

definition DayFromYear :: "int \<Rightarrow> int" where
  "DayFromYear y =
     365 * (y - 1970) + (y - 1969) div 4 - (y - 1901) div 100 + (y - 1601) div 400"

definition YearFromTime :: "int \<Rightarrow> int" where
  \<comment> \<open>the largest year whose first day is not after the day of \<open>t\<close>: an estimate from the
     mean length of a year, corrected by one year either way\<close>
  "YearFromTime t =
     (let d = Day t; y = 1970 + (400 * d) div 146097 in
      if DayFromYear (y + 1) \<le> d then y + 1
      else if DayFromYear y \<le> d then y
      else y - 1)"

definition InLeapYear :: "int \<Rightarrow> int" where
  "InLeapYear t = (if DaysInYear (YearFromTime t) = 366 then 1 else 0)"

definition DayWithinYear :: "int \<Rightarrow> int" where
  "DayWithinYear t = Day t - DayFromYear (YearFromTime t)"

definition monthStart :: "int \<Rightarrow> int \<Rightarrow> int" where
  \<comment> \<open>the day within the year on which month \<open>m\<close> begins; \<open>leap\<close> is 1 in a leap year\<close>
  "monthStart m leap =
     (if m = 0 then 0 else if m = 1 then 31 else if m = 2 then 59 + leap
      else if m = 3 then 90 + leap else if m = 4 then 120 + leap else if m = 5 then 151 + leap
      else if m = 6 then 181 + leap else if m = 7 then 212 + leap else if m = 8 then 243 + leap
      else if m = 9 then 273 + leap else if m = 10 then 304 + leap else 334 + leap)"

definition MonthFromTime :: "int \<Rightarrow> int" where
  "MonthFromTime t =
     (let d = DayWithinYear t; leap = InLeapYear t in
      if d < 31 then 0 else if d < 59 + leap then 1 else if d < 90 + leap then 2
      else if d < 120 + leap then 3 else if d < 151 + leap then 4 else if d < 181 + leap then 5
      else if d < 212 + leap then 6 else if d < 243 + leap then 7 else if d < 273 + leap then 8
      else if d < 304 + leap then 9 else if d < 334 + leap then 10 else 11)"

definition DateFromTime :: "int \<Rightarrow> int" where
  "DateFromTime t = DayWithinYear t - monthStart (MonthFromTime t) (InLeapYear t) + 1"

definition MakeTime :: "int \<Rightarrow> int \<Rightarrow> int \<Rightarrow> int \<Rightarrow> int" where
  "MakeTime h m s milli = h * 3600000 + m * 60000 + s * 1000 + milli"

definition MakeDay :: "int \<Rightarrow> int \<Rightarrow> int \<Rightarrow> int" where
  "MakeDay year month date =
     (let ym = year + month div 12; mn = month mod 12 in
      DayFromYear ym + monthStart mn (if DaysInYear ym = 366 then 1 else 0) + date - 1)"

definition MakeDate :: "int \<Rightarrow> int \<Rightarrow> int" where
  "MakeDate day time = day * msPerDay + time"

definition TimeClip :: "int \<Rightarrow> int option" where
  \<comment> \<open>\<open>None\<close> is NaN, the time value of an invalid Date\<close>
  "TimeClip t = (if \<bar>t\<bar> > 8640000000000000 then None else Some t)"

definition Date_UTC :: "int \<Rightarrow> int \<Rightarrow> int \<Rightarrow> int \<Rightarrow> int \<Rightarrow> int \<Rightarrow> int \<Rightarrow> int option" where
  \<comment> \<open>\<^verbatim>\<open>Date.UTC\<close>: a year from 0 to 99 means 1900 + year\<close>
  "Date_UTC year month date h m s milli =
     (let yr = (if 0 \<le> year \<and> year \<le> 99 then 1900 + year else year) in
      TimeClip (MakeDate (MakeDay yr month date) (MakeTime h m s milli)))"

definition toISOString :: "int option \<Rightarrow> thrown + int" where
  \<comment> \<open>the text of an instant is kept as the instant; an invalid Date throws\<close>
  "toISOString tv =
     (case tv of None \<Rightarrow> Inl (JsError ''RangeError'' ''Invalid time value'') | Some t \<Rightarrow> Inr t)"

definition startOfUtcDayIso :: "int \<Rightarrow> thrown + int" where
  "startOfUtcDayIso date =
     toISOString (Date_UTC (YearFromTime date) (MonthFromTime date) (DateFromTime date) 0 0 0 0)"

definition endOfUtcDayIso :: "int \<Rightarrow> thrown + int" where
  "endOfUtcDayIso date =
     toISOString (Date_UTC (YearFromTime date) (MonthFromTime date) (DateFromTime date) 23 59 59 999)"

definition ceilDiv1000 :: "int \<Rightarrow> int" where
  \<comment> \<open>\<^verbatim>\<open>Math.ceil(x / 1000)\<close> for an integer \<open>x\<close>\<close>
  "ceilDiv1000 x = - ((- x) div 1000)"

definition secondsUntilNextUtcDay :: "int \<Rightarrow> int option" where
  \<comment> \<open>\<open>None\<close> is NaN: \<^verbatim>\<open>Math.max\<close> and \<^verbatim>\<open>Math.ceil\<close> pass it on\<close>
  "secondsUntilNextUtcDay now =
     (case Date_UTC (YearFromTime now) (MonthFromTime now) (DateFromTime now + 1) 0 0 0 0 of
        None \<Rightarrow> None
      | Some nextDay \<Rightarrow> Some (max 1 (ceilDiv1000 (nextDay - now))))"

definition String_ofSeconds :: "int option \<Rightarrow> string" where
  \<comment> \<open>\<^verbatim>\<open>String(retryAfterSeconds)\<close>\<close>
  "String_ofSeconds v =
     (case v of
        None \<Rightarrow> ''NaN''
      | Some n \<Rightarrow> if n < 0 then CHR ''-'' # digits10 (nat (- n)) else digits10 (nat n))"

subsection \<open>Requests and the helpers that read them\<close>

datatype formValue = FormString string | FormFile string

text \<open>
  A request carries its method, its URL as \<^verbatim>\<open>new URL\<close> parses it (the whole text, the
  path and the query pairs), its headers by lower-case name, the edge network's \<^verbatim>\<open>cf\<close>
  object when there is one, and what its body decodes to: \<open>req_json\<close> is the value
  \<^verbatim>\<open>request.json()\<close> resolves to and \<open>req_formData\<close> the entries \<^verbatim>\<open>request.formData()\<close>
  resolves to, each \<open>None\<close> when the promise rejects because the body is not of that form.
\<close>

record 'n request =
  req_method :: string
  req_href :: string
  req_pathname :: string
  req_searchParams :: "(string \<times> string) list"
  req_headers :: "string \<rightharpoonup> string"
  req_cf :: "'n jsval option"
  req_json :: "'n jsval option"
  req_formData :: "(string \<times> formValue) list option"

record env =
  WAITLIST_RATE_LIMIT_PER_DAY :: "string option"

definition formEntries :: "(string \<times> formValue) list \<Rightarrow> (string \<times> 'n jsval) list" where
  \<comment> \<open>the loop \<^verbatim>\<open>output[key] = typeof value === 'string' ? value : value.name\<close>\<close>
  "formEntries entries =
     foldl (\<lambda>output (key, value).
        assignProp output key (JStr (case value of FormString v \<Rightarrow> v | FormFile name \<Rightarrow> name)))
       [] entries"

definition parseRequestBody :: "'n request \<Rightarrow> thrown + 'n jsval" where
  "parseRequestBody request =
     (let contentType = (case req_headers request ''content-type'' of None \<Rightarrow> [] | Some v \<Rightarrow> v) in
      if includes_str contentType ''application/json'' then
        (let jsonBody = (case req_json request of None \<Rightarrow> JNull | Some v \<Rightarrow> v) in
         Inr (if isRecord jsonBody then jsonBody else JObj []))
      else if includes_str contentType ''application/x-www-form-urlencoded''
              \<or> includes_str contentType ''multipart/form-data'' then
        (case req_formData request of
           None \<Rightarrow> Inl (JsError ''TypeError'' ''Failed to parse body as FormData.'')
         | Some formData \<Rightarrow> Inr (JObj (formEntries formData)))
      else Inr (JObj []))"

fun sanitizeLoop ::
  "'n runtime \<Rightarrow> (string \<times> 'n jsval) list \<Rightarrow> (string \<times> string) list \<Rightarrow> nat \<Rightarrow> (string \<times> string) list"
where
  "sanitizeLoop R [] output count = output"
| "sanitizeLoop R ((rawKey, rawValue) # rest) output count =
     (if count \<ge> 24 then output
      else let key = take 64 (trim rawKey) in
        if key = [] then sanitizeLoop R rest output count
        else case toOptionalString
                    (case rawValue of
                       JStr v \<Rightarrow> (JStr v :: 'n jsval)
                     | JNum n \<Rightarrow> JStr (String_ofNumber R n)
                     | _ \<Rightarrow> JUndefined) of
            None \<Rightarrow> sanitizeLoop R rest output count
          | Some valueString \<Rightarrow>
              sanitizeLoop R rest (assignProp output key (take 1200 valueString)) (count + 1))"

definition sanitizeLooseRecord ::
  "'n runtime \<Rightarrow> (string \<times> 'n jsval) list option \<Rightarrow> (string \<times> string) list" where
  "sanitizeLooseRecord R v = (case v of None \<Rightarrow> [] | Some entries \<Rightarrow> sanitizeLoop R entries [] 0)"

definition digitValue :: "char \<Rightarrow> int option" where
  "digitValue c = map_of (zip ''0123456789'' [0, 1, 2, 3, 4, 5, 6, 7, 8, 9]) c"

definition parseInt10 :: "string \<Rightarrow> int option" where
  \<comment> \<open>the integer that \<^verbatim>\<open>Number.parseInt(value, 10)\<close> reads: leading white space, a sign,
     then the longest run of decimal digits; \<open>None\<close> when there is no digit, which gives NaN\<close>
  "parseInt10 v =
     (let s = dropWhile isWhiteSpace v;
          negative = (s \<noteq> [] \<and> hd s = CHR ''-'');
          s' = (if s \<noteq> [] \<and> (hd s = CHR ''-'' \<or> hd s = CHR ''+'') then tl s else s);
          z = takeWhile (\<lambda>c. digitValue c \<noteq> None) s' in
      if z = [] then None
      else let mathInt = foldl (\<lambda>a c. 10 * a + (case digitValue c of None \<Rightarrow> 0 | Some d \<Rightarrow> d)) 0 z in
        Some (if negative then - mathInt else mathInt))"

text \<open>
  The ceiling of the rate limiter is the one number the handler reads from a text itself. It
  is an integer, kept as an \<^typ>\<open>int\<close>, and the rounding of \<^verbatim>\<open>Number.parseInt\<close> to a number of
  53 binary digits is written out.
\<close>

fun bitLength :: "int \<Rightarrow> nat" where
  \<comment> \<open>the number of binary digits of a positive integer\<close>
  "bitLength n = (if n \<le> 0 then 0 else Suc (bitLength (n div 2)))"

declare bitLength.simps [simp del]

definition roundTiesToEven :: "int \<Rightarrow> int option" where
  \<comment> \<open>the Number value of an integer \<open>k\<close> that is not negative: \<open>k\<close> itself below \<open>2 ^ 53\<close>, and from
     there on the nearest multiple of the spacing \<open>2 ^ s\<close> of the numbers around \<open>k\<close>, which have
     53 binary digits; of two nearest ones the even multiple; \<open>None\<close> when that is \<open>2 ^ 1024\<close>,
     which is no finite number\<close>
  "roundTiesToEven k =
     (if k < 2 ^ 53 then Some k
      else let s = bitLength k - 53;
               q = k div 2 ^ s;
               r = k mod 2 ^ s;
               m = (if 2 ^ s < 2 * r \<or> (2 * r = 2 ^ s \<and> odd q) then q + 1 else q) in
        if 2 ^ 1024 \<le> m * 2 ^ s then None else Some (m * 2 ^ s))"

definition numberValue :: "int \<Rightarrow> int option" where
  \<comment> \<open>the Number value of an integer; \<open>None\<close> is an infinity\<close>
  "numberValue k =
     (if k < 0 then map_option uminus (roundTiesToEven (- k)) else roundTiesToEven k)"

definition parsePositiveInt :: "string option \<Rightarrow> int \<Rightarrow> int" where
  \<comment> \<open>\<^verbatim>\<open>Number.parseInt(value, 10)\<close> is the Number value of the integer that \<open>parseInt10\<close> reads,
     every digit of it counted; neither NaN nor an infinity is finite\<close>
  "parsePositiveInt v fallbackValue =
     (case v of
        None \<Rightarrow> fallbackValue
      | Some value \<Rightarrow>
          if value = [] then fallbackValue
          else case parseInt10 value of
              None \<Rightarrow> fallbackValue
            | Some mathInt \<Rightarrow>
                (case numberValue mathInt of
                   None \<Rightarrow> fallbackValue
                 | Some parsedValue \<Rightarrow>
                     if parsedValue < 1 then fallbackValue else parsedValue))"

definition getConnectingIp :: "(string \<rightharpoonup> string) \<Rightarrow> string" where
  "getConnectingIp headers =
     (case headers ''cf-connecting-ip'' of
        Some connectingIp \<Rightarrow>
          if length connectingIp > 0 then connectingIp
          else (case headers ''x-forwarded-for'' of
                  Some forwardedFor \<Rightarrow>
                    if length forwardedFor > 0 then trim (takeWhile (\<lambda>c. c \<noteq> CHR '','') forwardedFor)
                    else ''unknown''
                | None \<Rightarrow> ''unknown'')
      | None \<Rightarrow>
          (case headers ''x-forwarded-for'' of
             Some forwardedFor \<Rightarrow>
               if length forwardedFor > 0 then trim (takeWhile (\<lambda>c. c \<noteq> CHR '','') forwardedFor)
               else ''unknown''
           | None \<Rightarrow> ''unknown''))"

fun isIpHashConstraintError :: "thrown \<Rightarrow> bool" where
  "isIpHashConstraintError (JsError name message) =
     includes_str message ''NOT NULL constraint failed: waitlist_entries.ip_hash''"
| "isIpHashConstraintError ThrownValue = False"

definition hexByte :: "8 word \<Rightarrow> string" where
  \<comment> \<open>\<^verbatim>\<open>byte.toString(16).padStart(2, '0')\<close>\<close>
  "hexByte b = [digitChar (unat b div 16), digitChar (unat b mod 16)]"

definition sha256Hex :: "'n runtime \<Rightarrow> string \<Rightarrow> string" where
  "sha256Hex R input = concat (map hexByte (SHA256 R input))"

definition pickHeaders :: "(string \<rightharpoonup> string) \<Rightarrow> string list \<Rightarrow> (string \<times> 'n jsval) list" where
  "pickHeaders headers allowed =
     foldl (\<lambda>output key.
        case headers key of
          None \<Rightarrow> output
        | Some v \<Rightarrow> if v = [] then output else assignProp output key (JStr v))
       [] allowed"

definition readCfString :: "'n jsval option \<Rightarrow> string \<Rightarrow> string option" where
  "readCfString input key =
     (case input of
        None \<Rightarrow> None
      | Some obj \<Rightarrow>
          (case getProp obj key of
             JStr v \<Rightarrow> if length v > 0 then Some v else None
           | _ \<Rightarrow> None))"

definition readCfFloat :: "'n runtime \<Rightarrow> 'n jsval option \<Rightarrow> string \<Rightarrow> 'n option" where
  "readCfFloat R input key =
     (case input of
        None \<Rightarrow> None
      | Some obj \<Rightarrow>
          (case getProp obj key of
             JNum n \<Rightarrow> if Number_isFinite R n then Some n else None
           | JStr v \<Rightarrow>
               if length (trim v) > 0 \<and> Number_isFinite R (Number_ofString R v)
               then Some (Number_ofString R v) else None
           | _ \<Rightarrow> None))"

definition readCfInteger :: "'n runtime \<Rightarrow> 'n jsval option \<Rightarrow> string \<Rightarrow> 'n option" where
  "readCfInteger R input key =
     (case readCfFloat R input key of None \<Rightarrow> None | Some v \<Rightarrow> Some (Math_trunc R v))"

record 'n cfSnapshot =
  country :: "string option"
  region :: "string option"
  regionCode :: "string option"
  city :: "string option"
  postalCode :: "string option"
  continent :: "string option"
  cfTimezone :: "string option"
  colo :: "string option"
  asn :: "'n option"
  asOrganization :: "string option"
  latitude :: "'n option"
  longitude :: "'n option"
  metroCode :: "string option"
  botScore :: "'n option"
  tlsVersion :: "string option"
  httpProtocol :: "string option"

definition getCfSnapshot :: "'n runtime \<Rightarrow> 'n request \<Rightarrow> 'n cfSnapshot" where
  \<comment> \<open>the field \<open>cfTimezone\<close> is the snapshot's \<^verbatim>\<open>timezone\<close>\<close>
  "getCfSnapshot R request =
     (let cf = req_cf request;
          botManagement =
            (case cf of
               None \<Rightarrow> None
             | Some obj \<Rightarrow>
                 if isRecord (getProp obj ''botManagement'') then Some (getProp obj ''botManagement'')
                 else None) in
      \<lparr> country = readCfString cf ''country'',
        region = readCfString cf ''region'',
        regionCode = readCfString cf ''regionCode'',
        city = readCfString cf ''city'',
        postalCode = readCfString cf ''postalCode'',
        continent = readCfString cf ''continent'',
        cfTimezone = readCfString cf ''timezone'',
        colo = readCfString cf ''colo'',
        asn = readCfInteger R cf ''asn'',
        asOrganization = readCfString cf ''asOrganization'',
        latitude = readCfFloat R cf ''latitude'',
        longitude = readCfFloat R cf ''longitude'',
        metroCode = readCfString cf ''metroCode'',
        botScore = readCfInteger R botManagement ''score'',
        tlsVersion = readCfString cf ''tlsVersion'',
        httpProtocol = readCfString cf ''httpProtocol'' \<rparr>)"

subsection \<open>The store: the table \<^verbatim>\<open>waitlist_entries\<close>\<close>

text \<open>
  A column holds NULL, a text, an integer, a number, the ISO-8601 text of an instant (kept as
  the instant: for the years 0000 to 9999 the texts are ordered as the instants are), or the
  JSON text of a value (kept as the value). A row gives every column its value.
\<close>

datatype 'n sqlval =
    SNull
  | SText string
  | SInt int
  | SNum 'n
  | SInstant int
  | SJson "'n jsval"

type_synonym 'n row = "string \<Rightarrow> 'n sqlval"

datatype 'n statement =
    CountByIp string int int
  | Upsert "string list" "'n sqlval list" "string list"

text \<open>
  \<open>CountByIp ip dayStart dayEnd\<close> is the rate limiter's \<^verbatim>\<open>SELECT COUNT(*)\<close> with its three
  bound values; \<open>Upsert columns values updated\<close> is
  \<^verbatim>\<open>INSERT INTO waitlist_entries (columns) VALUES (values) ON CONFLICT(email) DO UPDATE SET\<close>
  with \<^verbatim>\<open>c = excluded.c\<close> for each updated column.

  The store holds the rows, whether the table has the column \<^verbatim>\<open>ip_hash\<close> (declared
  \<^verbatim>\<open>NOT NULL\<close>) or, as the first migration creates it, not; the next row id; the faults
  the storage layer will answer the coming statements with (\<open>None\<close>: the statement runs); and
  a journal of the statements received, kept for the proofs only.
\<close>

record 'n store =
  rows :: "'n row list"
  ip_hash_required :: bool
  next_id :: int
  faults :: "thrown option list"
  journal :: "'n statement list"

definition insertColumns :: "string list" where
  "insertColumns =
     [''email'', ''qualifier'', ''use_case'', ''source_url'', ''landing_path'',
      ''ip_address'', ''user_agent'', ''referrer'', ''accept_language'', ''origin'',
      ''host'', ''screen_size'', ''viewport_size'', ''platform'', ''timezone'',
      ''timezone_offset_minutes'', ''color_scheme'', ''reduced_motion'', ''cookie_enabled'',
      ''do_not_track'', ''device_memory_gb'', ''hardware_concurrency'', ''max_touch_points'',
      ''cf_country'', ''cf_region'', ''cf_region_code'', ''cf_city'', ''cf_postal_code'',
      ''cf_continent'', ''cf_timezone'', ''cf_colo'', ''cf_asn'', ''cf_as_organization'',
      ''cf_latitude'', ''cf_longitude'', ''cf_metro_code'', ''cf_bot_score'',
      ''cf_tls_version'', ''cf_http_protocol'', ''utm_source'', ''utm_medium'',
      ''utm_campaign'', ''utm_term'', ''utm_content'', ''metadata_json'', ''created_at'',
      ''updated_at'']"

definition updateColumns :: "string list" where
  "updateColumns =
     [''qualifier'', ''use_case'', ''source_url'', ''landing_path'', ''ip_address'',
      ''user_agent'', ''referrer'', ''accept_language'', ''origin'', ''host'',
      ''screen_size'', ''viewport_size'', ''platform'', ''timezone'',
      ''timezone_offset_minutes'', ''color_scheme'', ''reduced_motion'', ''cookie_enabled'',
      ''do_not_track'', ''device_memory_gb'', ''hardware_concurrency'', ''max_touch_points'',
      ''cf_country'', ''cf_region'', ''cf_region_code'', ''cf_city'', ''cf_postal_code'',
      ''cf_continent'', ''cf_timezone'', ''cf_colo'', ''cf_asn'', ''cf_as_organization'',
      ''cf_latitude'', ''cf_longitude'', ''cf_metro_code'', ''cf_bot_score'',
      ''cf_tls_version'', ''cf_http_protocol'', ''utm_source'', ''utm_medium'',
      ''utm_campaign'', ''utm_term'', ''utm_content'', ''metadata_json'', ''updated_at'']"

definition insertColumnsWithIpHash :: "string list" where
  "insertColumnsWithIpHash =
     [''email'', ''qualifier'', ''use_case'', ''source_url'', ''landing_path'', ''ip_hash'',
      ''ip_address'', ''user_agent'', ''referrer'', ''accept_language'', ''origin'',
      ''host'', ''screen_size'', ''viewport_size'', ''platform'', ''timezone'',
      ''timezone_offset_minutes'', ''color_scheme'', ''reduced_motion'', ''cookie_enabled'',
      ''do_not_track'', ''device_memory_gb'', ''hardware_concurrency'', ''max_touch_points'',
      ''cf_country'', ''cf_region'', ''cf_region_code'', ''cf_city'', ''cf_postal_code'',
      ''cf_continent'', ''cf_timezone'', ''cf_colo'', ''cf_asn'', ''cf_as_organization'',
      ''cf_latitude'', ''cf_longitude'', ''cf_metro_code'', ''cf_bot_score'',
      ''cf_tls_version'', ''cf_http_protocol'', ''utm_source'', ''utm_medium'',
      ''utm_campaign'', ''utm_term'', ''utm_content'', ''metadata_json'', ''created_at'',
      ''updated_at'']"

definition updateColumnsWithIpHash :: "string list" where
  "updateColumnsWithIpHash =
     [''qualifier'', ''use_case'', ''source_url'', ''landing_path'', ''ip_hash'',
      ''ip_address'', ''user_agent'', ''referrer'', ''accept_language'', ''origin'',
      ''host'', ''screen_size'', ''viewport_size'', ''platform'', ''timezone'',
      ''timezone_offset_minutes'', ''color_scheme'', ''reduced_motion'', ''cookie_enabled'',
      ''do_not_track'', ''device_memory_gb'', ''hardware_concurrency'', ''max_touch_points'',
      ''cf_country'', ''cf_region'', ''cf_region_code'', ''cf_city'', ''cf_postal_code'',
      ''cf_continent'', ''cf_timezone'', ''cf_colo'', ''cf_asn'', ''cf_as_organization'',
      ''cf_latitude'', ''cf_longitude'', ''cf_metro_code'', ''cf_bot_score'',
      ''cf_tls_version'', ''cf_http_protocol'', ''utm_source'', ''utm_medium'',
      ''utm_campaign'', ''utm_term'', ''utm_content'', ''metadata_json'', ''updated_at'']"

definition tableColumns :: "'n store \<Rightarrow> string list" where
  "tableColumns db =
     ''id'' # insertColumns @ (if ip_hash_required db then [''ip_hash''] else [])"

definition received :: "'n store \<Rightarrow> 'n statement \<Rightarrow> 'n store" where
  \<comment> \<open>the statement is journalled and takes the next fault off the list\<close>
  "received db st = db\<lparr>faults := tl (faults db), journal := journal db @ [st]\<rparr>"

definition pendingFault :: "'n store \<Rightarrow> thrown option" where
  "pendingFault db = (case faults db of [] \<Rightarrow> None | f # fs \<Rightarrow> f)"

definition inWindow :: "'n sqlval \<Rightarrow> int \<Rightarrow> int \<Rightarrow> bool" where
  \<comment> \<open>\<^verbatim>\<open>created_at >= ?2 AND created_at <= ?3\<close>\<close>
  "inWindow v lo hi = (case v of SInstant t \<Rightarrow> lo \<le> t \<and> t \<le> hi | _ \<Rightarrow> False)"

definition countByIp :: "'n store \<Rightarrow> string \<Rightarrow> int \<Rightarrow> int \<Rightarrow> (thrown + nat) \<times> 'n store" where
  "countByIp db ip dayStart dayEnd =
     (let db' = received db (CountByIp ip dayStart dayEnd) in
      case pendingFault db of
        Some e \<Rightarrow> (Inl e, db')
      | None \<Rightarrow>
          (Inr (length (filter
                  (\<lambda>r. r ''ip_address'' = SText ip \<and> inWindow (r ''created_at'') dayStart dayEnd)
                  (rows db))),
           db'))"

definition excludedRow :: "string list \<Rightarrow> 'n sqlval list \<Rightarrow> 'n row" where
  \<comment> \<open>the row the INSERT proposes: a column it does not list is NULL\<close>
  "excludedRow columns vals =
     (\<lambda>c. case map_of (zip columns vals) c of None \<Rightarrow> SNull | Some v \<Rightarrow> v)"

definition sqliteError :: "string \<Rightarrow> thrown" where
  "sqliteError msg = JsError ''Error'' (''D1_ERROR: '' @ msg @ '': SQLITE_ERROR'')"

definition runUpsert ::
  "'n store \<Rightarrow> string list \<Rightarrow> 'n sqlval list \<Rightarrow> string list \<Rightarrow> (thrown + unit) \<times> 'n store" where
  "runUpsert db columns vals updated =
     (let db' = received db (Upsert columns vals updated);
          excluded = excludedRow columns vals in
      case pendingFault db of
        Some e \<Rightarrow> (Inl e, db')
      | None \<Rightarrow>
          if \<not> list_all (\<lambda>c. c \<in> set (tableColumns db)) (columns @ updated) then
            (Inl (sqliteError ''table waitlist_entries has no column named ip_hash''), db')
          else if length vals \<noteq> length columns then
            (Inl (JsError ''Error'' ''D1_TYPE_ERROR: Wrong number of parameter bindings for SQL query.''), db')
          else if excluded ''email'' = SNull then
            (Inl (sqliteError ''NOT NULL constraint failed: waitlist_entries.email''), db')
          else if ip_hash_required db \<and> excluded ''ip_hash'' = SNull then
            (Inl (sqliteError ''NOT NULL constraint failed: waitlist_entries.ip_hash''), db')
          else if excluded ''created_at'' = SNull then
            (Inl (sqliteError ''NOT NULL constraint failed: waitlist_entries.created_at''), db')
          else if excluded ''updated_at'' = SNull then
            (Inl (sqliteError ''NOT NULL constraint failed: waitlist_entries.updated_at''), db')
          else if list_ex (\<lambda>r. r ''email'' = excluded ''email'') (rows db) then
            (Inr (),
             db'\<lparr>rows := map (\<lambda>r. if r ''email'' = excluded ''email''
                                   then (\<lambda>c. if c \<in> set updated then excluded c else r c)
                                   else r) (rows db)\<rparr>)
          else
            (Inr (),
             db'\<lparr>rows := rows db @ [excluded(''id'' := SInt (next_id db))],
                 next_id := next_id db + 1\<rparr>))"

subsection \<open>The handler of \<^verbatim>\<open>POST /api/waitlist\<close>\<close>

record response =
  status :: nat
  ok :: bool
  error :: "string option"
  message :: string
  resp_headers :: "(string \<times> string) list"

text \<open>
  A response is the status, the JSON envelope \<^verbatim>\<open>{ok, error?, message}\<close> and the headers the
  handler sets itself.
\<close>

definition sqlStr :: "string option \<Rightarrow> 'n sqlval" where
  "sqlStr v = (case v of None \<Rightarrow> SNull | Some s \<Rightarrow> SText s)"

definition sqlNum :: "'n option \<Rightarrow> 'n sqlval" where
  "sqlNum v = (case v of None \<Rightarrow> SNull | Some n \<Rightarrow> SNum n)"

definition allowedHeaders :: "string list" where
  "allowedHeaders =
     [''accept'', ''accept-encoding'', ''accept-language'', ''origin'', ''host'', ''priority'',
      ''sec-ch-ua'', ''sec-ch-ua-mobile'', ''sec-ch-ua-platform'', ''sec-fetch-dest'',
      ''sec-fetch-mode'', ''sec-fetch-site'', ''user-agent'', ''x-forwarded-proto'']"

definition cfSnapshotJson :: "'n cfSnapshot \<Rightarrow> 'n jsval" where
  "cfSnapshotJson cf =
     JObj [
       (''country'', optStr (country cf)), (''region'', optStr (region cf)),
       (''regionCode'', optStr (regionCode cf)), (''city'', optStr (city cf)),
       (''postalCode'', optStr (postalCode cf)), (''continent'', optStr (continent cf)),
       (''timezone'', optStr (cfTimezone cf)), (''colo'', optStr (colo cf)),
       (''asn'', optNum (asn cf)), (''asOrganization'', optStr (asOrganization cf)),
       (''latitude'', optNum (latitude cf)), (''longitude'', optNum (longitude cf)),
       (''metroCode'', optStr (metroCode cf)), (''botScore'', optNum (botScore cf)),
       (''tlsVersion'', optStr (tlsVersion cf)), (''httpProtocol'', optStr (httpProtocol cf))]"

definition sanitizedAdditionalFields :: "'n runtime \<Rightarrow> 'n payload \<Rightarrow> (string \<times> string) list" where
  \<comment> \<open>\<^verbatim>\<open>additionalFields = sanitizeLooseRecord(...); delete additionalFields.useCase\<close>\<close>
  "sanitizedAdditionalFields R payload =
     deleteProp (sanitizeLooseRecord R (additionalFields payload)) ''useCase''"

definition requestMetadata :: "'n runtime \<Rightarrow> 'n request \<Rightarrow> 'n payload \<Rightarrow> 'n jsval" where
  \<comment> \<open>the object \<^verbatim>\<open>metadata\<close> of the handler\<close>
  "requestMetadata R request payload =
     JObj [
       (''provided'', JObj (case metadata payload of None \<Rightarrow> [] | Some m \<Rightarrow> m)),
       (''additionalFields'', JObj (map (\<lambda>(k, v). (k, JStr v)) (sanitizedAdditionalFields R payload))),
       (''request'', JObj [
          (''method'', JStr (req_method request)),
          (''path'', JStr (req_pathname request)),
          (''query'', JObj (foldl (\<lambda>output (k, v). setProp output k (JStr v)) [] (req_searchParams request))),
          (''source'', JStr (case source payload of None \<Rightarrow> req_href request | Some u \<Rightarrow> u)),
          (''cfRay'', optStr (req_headers request ''cf-ray''))]),
       (''client'', JObj [
          (''locale'', optStr (locale' payload)),
          (''timezone'', optStr (timezone payload)),
          (''timezoneOffsetMinutes'', optNum (timezoneOffsetMinutes payload)),
          (''screen'', optStr (screen payload)),
          (''viewport'', optStr (viewport payload)),
          (''platform'', optStr (platform payload)),
          (''colorScheme'', optStr (colorScheme payload)),
          (''reducedMotion'', optStr (reducedMotion payload)),
          (''cookieEnabled'', optBool (cookieEnabled payload)),
          (''doNotTrack'', optStr (doNotTrack payload)),
          (''deviceMemory'', optNum (deviceMemory payload)),
          (''hardwareConcurrency'', optNum (hardwareConcurrency payload)),
          (''maxTouchPoints'', optNum (maxTouchPoints payload)),
          (''referrer'', optStr (req_headers request ''referer''))]),
       (''headers'', JObj (pickHeaders (req_headers request) allowedHeaders)),
       (''cloudflare'', cfSnapshotJson (getCfSnapshot R request))]"

definition upsertValues ::
  "'n runtime \<Rightarrow> 'n request \<Rightarrow> 'n payload \<Rightarrow> string \<Rightarrow> int \<Rightarrow> 'n sqlval list" where
  "upsertValues R request payload ipAddress nowIso =
     (let cfSnapshot = getCfSnapshot R request in
      [SText (toLowerCase (email payload)),
       sqlStr (qualifier payload),
       sqlStr (useCase payload),
       SText (case source payload of None \<Rightarrow> req_href request | Some u \<Rightarrow> u),
       SText (case landingPath payload of None \<Rightarrow> req_pathname request | Some p \<Rightarrow> p),
       SText ipAddress,
       sqlStr (req_headers request ''user-agent''),
       sqlStr (req_headers request ''referer''),
       sqlStr (req_headers request ''accept-language''),
       sqlStr (req_headers request ''origin''),
       sqlStr (req_headers request ''host''),
       sqlStr (screen payload),
       sqlStr (viewport payload),
       sqlStr (platform payload),
       sqlStr (timezone payload),
       sqlNum (timezoneOffsetMinutes payload),
       sqlStr (colorScheme payload),
       sqlStr (reducedMotion payload),
       (case cookieEnabled payload of None \<Rightarrow> SNull | Some b \<Rightarrow> SInt (if b then 1 else 0)),
       sqlStr (doNotTrack payload),
       sqlNum (deviceMemory payload),
       sqlNum (hardwareConcurrency payload),
       sqlNum (maxTouchPoints payload),
       sqlStr (country cfSnapshot),
       sqlStr (region cfSnapshot),
       sqlStr (regionCode cfSnapshot),
       sqlStr (city cfSnapshot),
       sqlStr (postalCode cfSnapshot),
       sqlStr (continent cfSnapshot),
       sqlStr (cfTimezone cfSnapshot),
       sqlStr (colo cfSnapshot),
       sqlNum (asn cfSnapshot),
       sqlStr (asOrganization cfSnapshot),
       sqlNum (latitude cfSnapshot),
       sqlNum (longitude cfSnapshot),
       sqlStr (metroCode cfSnapshot),
       sqlNum (botScore cfSnapshot),
       sqlStr (tlsVersion cfSnapshot),
       sqlStr (httpProtocol cfSnapshot),
       sqlStr (utmSource payload),
       sqlStr (utmMedium payload),
       sqlStr (utmCampaign payload),
       sqlStr (utmTerm payload),
       sqlStr (utmContent payload),
       SJson (requestMetadata R request payload),
       SInstant nowIso,
       SInstant nowIso])"

definition upsertEntry ::
  "'n runtime \<Rightarrow> 'n store \<Rightarrow> 'n sqlval list \<Rightarrow> string \<Rightarrow> (thrown + unit) \<times> 'n store" where
  \<comment> \<open>the \<^verbatim>\<open>try\<close> block of the handler and its \<^verbatim>\<open>catch\<close>\<close>
  "upsertEntry R db vals ipAddress =
     (case runUpsert db insertColumns vals updateColumns of
        (Inr u, db1) \<Rightarrow> (Inr u, db1)
      | (Inl err, db1) \<Rightarrow>
          if \<not> isIpHashConstraintError err then (Inl err, db1)
          else
            (let upsertValuesWithIpHash =
                   take 5 vals @ [SText (sha256Hex R ipAddress)] @ drop 5 vals in
             runUpsert db1 insertColumnsWithIpHash upsertValuesWithIpHash updateColumnsWithIpHash))"

definition jsonResponse :: "bool \<Rightarrow> string option \<Rightarrow> string \<Rightarrow> nat \<Rightarrow> (string \<times> string) list \<Rightarrow> response" where
  "jsonResponse okv err msg st hs =
     \<lparr> status = st, ok = okv, error = err, message = msg, resp_headers = hs \<rparr>"

definition post_waitlist ::
  "'n runtime \<Rightarrow> env \<Rightarrow> 'n request \<Rightarrow> int \<Rightarrow> 'n store \<Rightarrow> (thrown + response) \<times> 'n store" where
  \<comment> \<open>\<open>now\<close> is the instant \<^verbatim>\<open>new Date()\<close> reads when the limiter starts\<close>
  "post_waitlist R env request now db =
     (case parseRequestBody request of
        Inl e \<Rightarrow> (Inl e, db)
      | Inr rawPayload \<Rightarrow>
          (case safeParse R (normalizePayload R rawPayload) of
             None \<Rightarrow>
               (Inr (jsonResponse False (Some ''invalid_payload'')
                       ''Please submit a valid email address.'' 400 []), db)
           | Some payload \<Rightarrow>
               if (case website payload of None \<Rightarrow> False | Some w \<Rightarrow> length w > 0) then
                 (Inr (jsonResponse True None ''Thanks for your interest.'' 200 []), db)
               else
                 (let rateLimitPerDay = parsePositiveInt (WAITLIST_RATE_LIMIT_PER_DAY env) 10 in
                  case startOfUtcDayIso now of
                    Inl e \<Rightarrow> (Inl e, db)
                  | Inr dayStart \<Rightarrow>
                      (case endOfUtcDayIso now of
                         Inl e \<Rightarrow> (Inl e, db)
                       | Inr dayEnd \<Rightarrow>
                           (let ipAddress = getConnectingIp (req_headers request) in
                            case countByIp db ipAddress dayStart dayEnd of
                              (Inl e, db1) \<Rightarrow> (Inl e, db1)
                            | (Inr submissionCount, db1) \<Rightarrow>
                                if int submissionCount \<ge> rateLimitPerDay then
                                  (Inr (jsonResponse False (Some ''rate_limited'')
                                          ''Rate limit reached. Please try again tomorrow.'' 429
                                          [(''Retry-After'', String_ofSeconds (secondsUntilNextUtcDay now))]),
                                   db1)
                                else
                                  (case upsertEntry R db1
                                          (upsertValues R request payload ipAddress now) ipAddress of
                                     (Inl e, db2) \<Rightarrow> (Inl e, db2)
                                   | (Inr u, db2) \<Rightarrow>
                                       (Inr (jsonResponse True None ''You are on the waitlist.'' 201 []),
                                        db2)))))))"

subsection \<open>Notions of the specification\<close>

definition optionalFieldsValid :: "'n runtime \<Rightarrow> 'n jsval \<Rightarrow> bool" where
  \<comment> \<open>every field of the schema but the email passes its check\<close>
  "optionalFieldsValid R v =
     (zStringMax 80 (getProp v ''qualifier'') \<noteq> None
      \<and> zStringMax 1200 (getProp v ''useCase'') \<noteq> None
      \<and> zStringMax 200 (getProp v ''website'') \<noteq> None
      \<and> zUrlMax R (getProp v ''source'') \<noteq> None
      \<and> zStringMax 512 (getProp v ''landingPath'') \<noteq> None
      \<and> zStringMax 120 (getProp v ''utmSource'') \<noteq> None
      \<and> zStringMax 120 (getProp v ''utmMedium'') \<noteq> None
      \<and> zStringMax 120 (getProp v ''utmCampaign'') \<noteq> None
      \<and> zStringMax 120 (getProp v ''utmTerm'') \<noteq> None
      \<and> zStringMax 120 (getProp v ''utmContent'') \<noteq> None
      \<and> zStringMax 32 (getProp v ''locale'') \<noteq> None
      \<and> zStringMax 64 (getProp v ''timezone'') \<noteq> None
      \<and> zNumberRange R True (- 840) 840 (getProp v ''timezoneOffsetMinutes'') \<noteq> None
      \<and> zStringMax 32 (getProp v ''screen'') \<noteq> None
      \<and> zStringMax 32 (getProp v ''viewport'') \<noteq> None
      \<and> zStringMax 120 (getProp v ''platform'') \<noteq> None
      \<and> zEnum [''light'', ''dark'', ''no-preference''] (getProp v ''colorScheme'') \<noteq> None
      \<and> zEnum [''reduce'', ''no-preference''] (getProp v ''reducedMotion'') \<noteq> None
      \<and> zBoolean (getProp v ''cookieEnabled'') \<noteq> None
      \<and> zStringMax 24 (getProp v ''doNotTrack'') \<noteq> None
      \<and> zNumberRange R False 0 128 (getProp v ''deviceMemory'') \<noteq> None
      \<and> zNumberRange R True 1 256 (getProp v ''hardwareConcurrency'') \<noteq> None
      \<and> zNumberRange R True 0 64 (getProp v ''maxTouchPoints'') \<noteq> None
      \<and> zRecord (getProp v ''additionalFields'') \<noteq> None
      \<and> zRecord (getProp v ''metadata'') \<noteq> None)"

definition isBot :: "'n payload \<Rightarrow> bool" where
  \<comment> \<open>the honeypot field of a validated payload is filled in\<close>
  "isBot payload = (case website payload of None \<Rightarrow> False | Some w \<Rightarrow> length w > 0)"

definition submissionsOfDay :: "'n store \<Rightarrow> string \<Rightarrow> int \<Rightarrow> nat" where
  \<comment> \<open>the rows whose \<^verbatim>\<open>ip_address\<close> is \<open>ip\<close> and whose \<^verbatim>\<open>created_at\<close> lies in the UTC day
     of the instant \<open>now\<close>\<close>
  "submissionsOfDay db ip now =
     length (filter
       (\<lambda>r. r ''ip_address'' = SText ip
            \<and> (case r ''created_at'' of SInstant t \<Rightarrow> Day t = Day now | _ \<Rightarrow> False))
       (rows db))"

definition nextUtcMidnight :: "int \<Rightarrow> int" where
  \<comment> \<open>the first instant after \<open>t\<close> at which a UTC day starts\<close>
  "nextUtcMidnight t = (t div msPerDay + 1) * msPerDay"

definition rowsOfEmail :: "'n store \<Rightarrow> string \<Rightarrow> 'n row list" where
  "rowsOfEmail db e = filter (\<lambda>r. r ''email'' = SText e) (rows db)"

definition upserted :: "'n row list \<Rightarrow> 'n row \<Rightarrow> string list \<Rightarrow> int \<Rightarrow> 'n row list" where
  \<comment> \<open>the rows after an upsert of the proposed row \<open>ex\<close> that updates the columns \<open>u\<close>: the rows
     of the same email are updated, and without one the proposed row is added with the id \<open>nid\<close>\<close>
  "upserted rs ex u nid =
     (if list_ex (\<lambda>r. r ''email'' = ex ''email'') rs
      then map (\<lambda>r. if r ''email'' = ex ''email''
                    then (\<lambda>col. if col \<in> set u then ex col else r col)
                    else r) rs
      else rs @ [ex(''id'' := SInt nid)])"

fun joinComma :: "string list \<Rightarrow> string" where
  "joinComma [] = []"
| "joinComma [s] = s"
| "joinComma (s # t # ss) = s @ '','' @ joinComma (t # ss)"

fun jsString :: "'n runtime \<Rightarrow> 'n jsval \<Rightarrow> string" where
  \<comment> \<open>a value stringified, as \<^verbatim>\<open>String(value)\<close> prints it: every value has a text\<close>
  "jsString R JUndefined = ''undefined''"
| "jsString R JNull = ''null''"
| "jsString R (JBool b) = (if b then ''true'' else ''false'')"
| "jsString R (JNum n) = String_ofNumber R n"
| "jsString R (JStr s) = s"
| "jsString R (JArr vs) =
     joinComma (map (\<lambda>v. if v = JUndefined \<or> v = JNull then [] else jsString R v) vs)"
| "jsString R (JObj kvs) = ''[object Object]''"

definition stringOfLoose :: "'n runtime \<Rightarrow> 'n jsval \<Rightarrow> string option" where
  \<comment> \<open>the values the amended claim keeps: a string gives itself, a number the text
     \<^verbatim>\<open>String\<close> prints, and no other value gives a text\<close>
  "stringOfLoose R v = (case v of JStr s \<Rightarrow> Some s | JNum n \<Rightarrow> Some (String_ofNumber R n) | _ \<Rightarrow> None)"

definition sanitizedFrom :: "'n runtime \<Rightarrow> (string \<times> 'n jsval) list \<Rightarrow> string \<times> string \<Rightarrow> bool" where
  \<comment> \<open>\<open>kv\<close> is the sanitized form of one of the entries: its key is the entry's key, trimmed and
     cut to 64 characters, and is not empty; its value is the text of the entry's value,
     trimmed, not empty, and cut to 1200 characters\<close>
  "sanitizedFrom R entries kv =
     list_ex (\<lambda>(rawKey, rawValue).
        fst kv = take 64 (trim rawKey) \<and> fst kv \<noteq> []
        \<and> (case stringOfLoose R rawValue of
              None \<Rightarrow> False
            | Some s \<Rightarrow> trim s \<noteq> [] \<and> snd kv = take 1200 (trim s))) entries"

definition looseEntry :: "'n runtime \<Rightarrow> string \<times> 'n jsval \<Rightarrow> (string \<times> string) option" where
  \<comment> \<open>the sanitized form of one entry, \<open>None\<close> for an entry that is dropped: the key is
     empty after trimming, the value is neither a string nor a number, or its text is empty
     after trimming\<close>
  "looseEntry R kv =
     (case stringOfLoose R (snd kv) of
        None \<Rightarrow> None
      | Some s \<Rightarrow>
          if trim (fst kv) = [] \<or> trim s = [] then None
          else Some (take 64 (trim (fst kv)), take 1200 (trim s)))"

definition sanitizedFields :: "'n runtime \<Rightarrow> (string \<times> 'n jsval) list \<Rightarrow> (string \<rightharpoonup> string)" where
  \<comment> \<open>the sanitized copy of a record, as a map: the first 24 entries that are not dropped, in
     their sanitized form, a later one overwriting an earlier one of the same key, without
     the key \<^verbatim>\<open>useCase\<close>. An entry with the key \<^verbatim>\<open>__proto__\<close> is no entry of the record, and
     one whose key is \<^verbatim>\<open>__proto__\<close> after trimming takes a place without being stored\<close>
  "sanitizedFields R entries =
     (map_of (rev (filter (\<lambda>kv. fst kv \<noteq> ''__proto__'')
        (take 24 (List.map_filter (looseEntry R)
           (filter (\<lambda>kv. fst kv \<noteq> ''__proto__'') entries))))))(''useCase'' := None)"



subsection \<open>Inputs of the examples\<close>

definition testRuntime :: "int runtime" where
  \<comment> \<open>a runtime for the examples: numbers are integers, an address is a text with an at
     sign, a URL a text that starts with http, no text is JSON, and the digest is the SHA-256
     digest of the text \<^verbatim>\<open>203.0.113.7\<close>, the address the examples connect from\<close>
  "testRuntime =
     \<lparr> zodEmail = (\<lambda>s. CHR ''@'' \<in> set s),
       zodUrl = (\<lambda>s. if startsWith s ''http'' then Some s else None),
       JSON_parse = (\<lambda>s. None),
       Number_ofString = (\<lambda>s. 0),
       Number_ofInt = (\<lambda>i. i),
       Number_isFinite = (\<lambda>n. True),
       Number_isSafeInteger = (\<lambda>n. True),
       Number_le = (\<lambda>a b. a \<le> b),
       Math_trunc = (\<lambda>n. n),
       String_ofNumber = (\<lambda>n. String_ofSeconds (Some n)),
       SHA256 = (\<lambda>s.
         [254, 197, 37, 101, 170, 12, 241, 143, 87, 215, 207, 91, 58, 199, 40, 80,
          59, 137, 146, 210, 214, 247, 212, 109, 161, 209, 32, 16, 144, 144, 43, 2]) \<rparr>"

definition emptyStore :: "int store" where
  "emptyStore = \<lparr> rows = [], ip_hash_required = False, next_id = 1, faults = [], journal = [] \<rparr>"

definition testEnv :: env where
  "testEnv = \<lparr> WAITLIST_RATE_LIMIT_PER_DAY = None \<rparr>"

definition jsonRequest :: "int jsval \<Rightarrow> int request" where
  \<comment> \<open>a JSON submission from the address 203.0.113.7\<close>
  "jsonRequest body =
     \<lparr> req_method = ''POST'',
       req_href = ''https://example.com/api/waitlist'',
       req_pathname = ''/api/waitlist'',
       req_searchParams = [],
       req_headers = [''content-type'' \<mapsto> ''application/json'', ''cf-connecting-ip'' \<mapsto> ''203.0.113.7''],
       req_cf = None,
       req_json = Some body,
       req_formData = None \<rparr>"

definition brokenMultipartRequest :: "int request" where
  \<comment> \<open>a multipart submission whose body is no form data\<close>
  "brokenMultipartRequest =
     \<lparr> req_method = ''POST'',
       req_href = ''https://example.com/api/waitlist'',
       req_pathname = ''/api/waitlist'',
       req_searchParams = [],
       req_headers = [''content-type'' \<mapsto> ''multipart/form-data''],
       req_cf = None,
       req_json = None,
       req_formData = None \<rparr>"

definition noon :: int where
  \<comment> \<open>2024-01-01T12:00:00.000Z\<close>
  "noon = 1704110400000"

definition emailBody :: "string \<Rightarrow> int jsval" where
  \<comment> \<open>a submission that carries an email and nothing else\<close>
  "emailBody e = JObj [(''email'', JStr e)]"

definition longHoneypotBody :: "int jsval" where
  "longHoneypotBody =
     JObj [(''email'', JStr ''ada@example.com''), (''website'', JStr (replicate 201 (CHR ''x'')))]"

definition honeypotOnlyBody :: "int jsval" where
  "honeypotOnlyBody = JObj [(''website'', JStr ''http://spam.example'')]"

definition botBody :: "int jsval" where
  "botBody = JObj [(''email'', JStr ''ada@example.com''), (''website'', JStr ''http://spam.example'')]"

definition longestEmail :: string where
  \<comment> \<open>an address of 320 characters\<close>
  "longestEmail = replicate 308 (CHR ''a'') @ ''@example.com''"

definition limitOneEnv :: env where
  \<comment> \<open>one submission per IP and day\<close>
  "limitOneEnv = \<lparr> WAITLIST_RATE_LIMIT_PER_DAY = Some ''1'' \<rparr>"

definition emailOnlyPayload :: "string \<Rightarrow> int payload" where
  \<comment> \<open>the payload of a submission that carries an email and nothing else\<close>
  "emailOnlyPayload e =
     \<lparr> email = e, qualifier = None, useCase = None, website = None,
       source = None, landingPath = None, utmSource = None, utmMedium = None,
       utmCampaign = None, utmTerm = None, utmContent = None, locale' = None,
       timezone = None, timezoneOffsetMinutes = None, screen = None, viewport = None,
       platform = None, colorScheme = None, reducedMotion = None,
       cookieEnabled = None, doNotTrack = None, deviceMemory = None,
       hardwareConcurrency = None, maxTouchPoints = None, additionalFields = None,
       metadata = None \<rparr>"

definition oneRowStore :: "int store" where
  \<comment> \<open>one row, written at noon from the address 203.0.113.7\<close>
  "oneRowStore =
     \<lparr> rows = [(excludedRow insertColumns
                  (upsertValues testRuntime (jsonRequest (emailBody ''bob@example.com''))
                     (emailOnlyPayload ''bob@example.com'') ''203.0.113.7'' noon))(''id'' := SInt 1)],
       ip_hash_required = False, next_id = 2, faults = [], journal = [] \<rparr>"

definition perDayEnv :: env where
  \<comment> \<open>a ceiling that is a number followed by other text\<close>
  "perDayEnv = \<lparr> WAITLIST_RATE_LIMIT_PER_DAY = Some ''1/day'' \<rparr>"

definition roundedEnv :: env where
  \<comment> \<open>a ceiling that no number is: it lies between two of them\<close>
  "roundedEnv = \<lparr> WAITLIST_RATE_LIMIT_PER_DAY = Some ''9007199254740993'' \<rparr>"




definition fieldsBody :: "(string \<times> int jsval) list \<Rightarrow> int jsval" where
  \<comment> \<open>a submission with an email and additional fields\<close>
  "fieldsBody fs = JObj [(''email'', JStr ''ada@example.com''), (''additionalFields'', JObj fs)]"

section \<open>Properties\<close>

subsection \<open>Strings\<close>

lemma dropWhile_id: "xs = [] \<or> \<not> P (hd xs) \<Longrightarrow> dropWhile P xs = xs"
  by (cases xs) auto

lemma trim_ends: "trim s = [] \<or> (\<not> isWhiteSpace (hd (trim s)) \<and> \<not> isWhiteSpace (last (trim s)))"
proof (cases "trim s = []")
  case True then show ?thesis by simp
next
  case False
  define a where "a = dropWhile isWhiteSpace s"
  define b where "b = dropWhile isWhiteSpace (rev a)"
  have t: "trim s = rev b" by (simp add: trim_def a_def b_def)
  from False t have bne: "b \<noteq> []" by simp
  then have hb: "\<not> isWhiteSpace (hd b)" unfolding b_def using hd_dropWhile by blast
  have lastt: "last (trim s) = hd b" using bne t by (simp add: last_rev)
  have ane: "a \<noteq> []" using bne unfolding b_def by (metis dropWhile.simps(1) rev.simps(1))
  then have ha: "\<not> isWhiteSpace (hd a)" unfolding a_def using hd_dropWhile by blast
  obtain ys where ys: "rev a = ys @ b" unfolding b_def
    by (metis takeWhile_dropWhile_id)
  then have "a = rev b @ rev ys" by (metis rev_append rev_rev_ident)
  moreover have "rev b \<noteq> []" using bne by simp
  ultimately have "hd a = hd (rev b)" by (metis hd_append2)
  then have "hd (trim s) = hd a" using t by simp
  with lastt ha hb show ?thesis by simp
qed

lemma trim_id: 
  assumes "s = [] \<or> (\<not> isWhiteSpace (hd s) \<and> \<not> isWhiteSpace (last s))"
  shows "trim s = s"
proof (cases "s = []")
  case True then show ?thesis by (simp add: trim_def)
next
  case False
  with assms have h: "\<not> isWhiteSpace (hd s)" and l: "\<not> isWhiteSpace (last s)" by auto
  have 1: "dropWhile isWhiteSpace s = s" using h by (simp add: dropWhile_id)
  have "hd (rev s) = last s" using False by (simp add: hd_rev)
  then have 2: "dropWhile isWhiteSpace (rev s) = rev s" using l by (simp add: dropWhile_id)
  show ?thesis unfolding trim_def 1 2 by simp
qed

lemma trim_idem: "trim (trim s) = trim s"
  using trim_ends [of s] by (rule trim_id)

lemma includes_str_Cons:
  "includes_str (c # cs) pat = (startsWith (c # cs) pat \<or> includes_str cs pat)"
  by simp

subsection \<open>The schema\<close>

lemma safeParse_iff:
  "safeParse R v \<noteq> None \<longleftrightarrow> zEmailMax R (getProp v ''email'') \<noteq> None \<and> optionalFieldsValid R v"
  by (auto simp: safeParse_def optionalFieldsValid_def bind_eq_None_conv)

lemma safeParse_email: "safeParse R v = Some p \<Longrightarrow> zEmailMax R (getProp v ''email'') = Some (email p)"
  by (auto simp: safeParse_def bind_eq_Some_conv)

lemma safeParse_website: "safeParse R v = Some p \<Longrightarrow> zStringMax 200 (getProp v ''website'') = Some (website p)"
  by (auto simp: safeParse_def bind_eq_Some_conv)

lemma safeParse_source: "safeParse R v = Some p \<Longrightarrow> zUrlMax R (getProp v ''source'') = Some (source p)"
  by (auto simp: safeParse_def bind_eq_Some_conv)

lemma safeParse_landingPath:
  "safeParse R v = Some p \<Longrightarrow> zStringMax 512 (getProp v ''landingPath'') = Some (landingPath p)"
  by (auto simp: safeParse_def bind_eq_Some_conv)

lemma safeParse_additionalFields:
  "safeParse R v = Some p \<Longrightarrow> zRecord (getProp v ''additionalFields'') = Some (additionalFields p)"
  by (auto simp: safeParse_def bind_eq_Some_conv)

lemma normalized_email:
  "getProp (normalizePayload R raw) ''email'' = optString (toOptionalString (getProp raw ''email''))"
  by (simp add: normalizePayload_def Let_def)

lemma normalized_website:
  "getProp (normalizePayload R raw) ''website'' =
     optString (toOptionalString (orElse (getProp raw ''website'') (getProp raw ''company'')))"
  by (simp add: normalizePayload_def Let_def)

lemma normalized_source:
  "getProp (normalizePayload R raw) ''source'' =
     optString (toOptionalString (orElse (getProp raw ''source'') (getProp raw ''source_url'')))"
  by (simp add: normalizePayload_def Let_def)

lemma normalized_landingPath:
  "getProp (normalizePayload R raw) ''landingPath'' =
     optString (toOptionalString (orElse (getProp raw ''landingPath'') (getProp raw ''landing_path'')))"
  by (simp add: normalizePayload_def Let_def)

subsection \<open>The outcomes of the handler\<close>

lemma invalid_is_400:
  "parseRequestBody request = Inr raw \<Longrightarrow> safeParse R (normalizePayload R raw) = None \<Longrightarrow>
   post_waitlist R env request now db =
     (Inr (jsonResponse False (Some ''invalid_payload'') ''Please submit a valid email address.'' 400 []), db)"
  by (simp add: post_waitlist_def)

lemma bot_is_200:
  "parseRequestBody request = Inr raw \<Longrightarrow> safeParse R (normalizePayload R raw) = Some payload \<Longrightarrow>
   isBot payload \<Longrightarrow>
   post_waitlist R env request now db =
     (Inr (jsonResponse True None ''Thanks for your interest.'' 200 []), db)"
  by (simp add: post_waitlist_def isBot_def)

lemma valid_not_400:
  assumes "parseRequestBody request = Inr raw" "safeParse R (normalizePayload R raw) = Some payload"
    and "post_waitlist R env request now db = (Inr resp, db')"
  shows "status resp = 200 \<and> isBot payload \<or> \<not> isBot payload \<and> (status resp = 429 \<or> status resp = 201)"
  using assms
  by (auto simp: post_waitlist_def isBot_def jsonResponse_def Let_def 
           split: sum.splits prod.splits if_splits option.splits)

lemma parse_jsonRequest: "isRecord body \<Longrightarrow> parseRequestBody (jsonRequest body) = Inr body"
  by (simp add: parseRequestBody_def jsonRequest_def startsWith_def)

subsection \<open>Dates\<close>

text \<open>
  \<open>YearFromTime\<close> is ECMAScript's: the year of \<open>t\<close> is the one whose first day is not after
  the day of \<open>t\<close> while the first day of the next year is; since \<open>DayFromYear\<close> is
  increasing, it is the largest such year.
\<close>

lemma div_bounds:
  fixes a :: int
  assumes "0 < k"
  shows "k * (a div k) \<le> a" and "a < k * (a div k) + k"
proof -
  have e: "k * (a div k) + a mod k = a" by simp
  have "0 \<le> a mod k" "a mod k < k" using assms by simp_all
  with e show "k * (a div k) \<le> a" and "a < k * (a div k) + k" by linarith+
qed

lemma DayFromYear_lower: "146097 * q - 607 \<le> 400 * DayFromYear (1970 + q)"
proof -
  have a: "q + 1 < 4 * ((q + 1) div 4) + 4" by (rule div_bounds(2)) simp
  have b: "100 * ((q + 69) div 100) \<le> q + 69" by (rule div_bounds(1)) simp
  have c: "q + 369 < 400 * ((q + 369) div 400) + 400" by (rule div_bounds(2)) simp
  have "DayFromYear (1970 + q) = 365 * q + (q + 1) div 4 - (q + 69) div 100 + (q + 369) div 400"
    by (simp add: DayFromYear_def add.commute)
  with a b c show ?thesis by linarith
qed

lemma DayFromYear_upper: "400 * DayFromYear (1970 + q) \<le> 146097 * q + 593"
proof -
  have a: "4 * ((q + 1) div 4) \<le> q + 1" by (rule div_bounds(1)) simp
  have b: "q + 69 < 100 * ((q + 69) div 100) + 100" by (rule div_bounds(2)) simp
  have c: "400 * ((q + 369) div 400) \<le> q + 369" by (rule div_bounds(1)) simp
  have "DayFromYear (1970 + q) = 365 * q + (q + 1) div 4 - (q + 69) div 100 + (q + 369) div 400"
    by (simp add: DayFromYear_def add.commute)
  with a b c show ?thesis by linarith
qed

lemma YearFromTime_correct:
  "DayFromYear (YearFromTime t) \<le> Day t \<and> Day t < DayFromYear (YearFromTime t + 1)"
proof -
  define d where "d = Day t"
  define q where "q = (400 * d) div 146097"
  have q1: "146097 * q \<le> 400 * d" unfolding q_def by (rule div_bounds(1)) simp
  have q2: "400 * d < 146097 * q + 146097" unfolding q_def by (rule div_bounds(2)) simp
  have y: "YearFromTime t =
      (if DayFromYear (1970 + (q + 1)) \<le> d then 1970 + (q + 1)
       else if DayFromYear (1970 + q) \<le> d then 1970 + q else 1970 + (q - 1))"
    by (simp add: YearFromTime_def Let_def d_def q_def add.assoc)
  have hi: "d < DayFromYear (1970 + (q + 2))"
  proof -
    have "146097 * q + 291587 \<le> 400 * DayFromYear (1970 + (q + 2))"
      using DayFromYear_lower [of "q + 2"] by simp
    with q2 show ?thesis by linarith
  qed
  have lo: "DayFromYear (1970 + (q - 1)) \<le> d"
  proof -
    have "400 * DayFromYear (1970 + (q - 1)) \<le> 146097 * q - 145504"
      using DayFromYear_upper [of "q - 1"] by simp
    with q1 show ?thesis by linarith
  qed
  have e: "1970 + (q + 1) + 1 = 1970 + (q + 2)" "1970 + (q - 1) + 1 = 1970 + q" "1970 + q + 1 = 1970 + (q + 1)"
    by simp_all
  consider (a) "DayFromYear (1970 + (q + 1)) \<le> d"
    | (b) "\<not> DayFromYear (1970 + (q + 1)) \<le> d" "DayFromYear (1970 + q) \<le> d"
    | (c) "\<not> DayFromYear (1970 + (q + 1)) \<le> d" "\<not> DayFromYear (1970 + q) \<le> d"
    by blast
  then show ?thesis
  proof cases
    case a
    then have "YearFromTime t = 1970 + (q + 1)" by (simp only: y if_True)
    then show ?thesis using a hi by (simp only: e d_def [symmetric])
  next
    case b
    then have "YearFromTime t = 1970 + q" by (simp only: y if_True if_False)
    then show ?thesis using b by (simp add: e d_def [symmetric])
  next
    case c
    then have "YearFromTime t = 1970 + (q - 1)" by (simp only: y if_False)
    then show ?thesis using c lo by (simp add: e d_def [symmetric])
  qed
qed

lemma year_length:
  fixes a :: int
  assumes "a \<le> a'" and "b' \<le> b + 1" and "c \<le> c'"
  shows "365 * (y - 1970) + a - b + c < 365 * (y + 1 - 1970) + a' - b' + c'"
proof -
  have "365 * (y + 1 - 1970) = 365 * (y - 1970) + 365" by simp
  with assms show ?thesis by linarith
qed

lemma DayFromYear_increasing: "DayFromYear y < DayFromYear (y + 1)"
proof -
  have "(y - 1969) div 4 \<le> (y + 1 - 1969) div 4" by (rule zdiv_mono1) simp_all
  moreover have "(y + 1 - 1901) div 100 \<le> (y - 1901) div 100 + 1"
  proof -
    have "(y + 1 - 1901) div 100 \<le> (y - 1901 + 100) div 100" by (rule zdiv_mono1) simp_all
    then show ?thesis by simp
  qed
  moreover have "(y - 1601) div 400 \<le> (y + 1 - 1601) div 400" by (rule zdiv_mono1) simp_all
  ultimately show ?thesis unfolding DayFromYear_def by (rule year_length)
qed

lemma MonthFromTime_range: "0 \<le> MonthFromTime t \<and> MonthFromTime t \<le> 11"
  by (simp add: MonthFromTime_def Let_def)

lemma MakeDay_roundtrip:
  "MakeDay (YearFromTime t) (MonthFromTime t) (DateFromTime t + k) = Day t + k"
proof -
  let ?m = "MonthFromTime t"
  from MonthFromTime_range [of t] have d: "?m div 12 = 0" and m: "?m mod 12 = ?m" by auto
  have l: "(if DaysInYear (YearFromTime t) = 366 then 1 else 0) = InLeapYear t"
    by (simp add: InLeapYear_def)
  show ?thesis
    unfolding MakeDay_def Let_def d m by (simp add: l DateFromTime_def DayWithinYear_def)
qed

lemma YearFromTime_epoch: "0 \<le> t \<Longrightarrow> 1969 \<le> YearFromTime t"
proof -
  assume "0 \<le> t"
  then have "0 \<le> Day t" by (simp add: Day_def msPerDay_def pos_imp_zdiv_nonneg_iff)
  then have "0 \<le> (400 * Day t) div 146097" by (simp add: pos_imp_zdiv_nonneg_iff)
  then show ?thesis by (simp add: YearFromTime_def Let_def)
qed

lemma Date_UTC_day:
  assumes "0 \<le> t"
  shows "Date_UTC (YearFromTime t) (MonthFromTime t) (DateFromTime t + k) h m s milli =
           TimeClip ((Day t + k) * msPerDay + MakeTime h m s milli)"
  using YearFromTime_epoch [OF assms]
  by (auto simp: Date_UTC_def Let_def MakeDay_roundtrip MakeDate_def)

lemma day_bounds: "Day t * msPerDay \<le> t \<and> t < (Day t + 1) * msPerDay"
proof -
  have "t = Day t * msPerDay + t mod msPerDay" by (simp add: Day_def)
  moreover have "0 \<le> t mod msPerDay \<and> t mod msPerDay < msPerDay" by (simp add: msPerDay_def)
  ultimately show ?thesis by (simp add: algebra_simps)
qed

lemma Day_nonneg: "0 \<le> t \<Longrightarrow> 0 \<le> Day t"
  by (simp add: Day_def msPerDay_def pos_imp_zdiv_nonneg_iff)

lemma Day_below_max: "t < 8640000000000000 \<Longrightarrow> Day t < 100000000"
  unfolding Day_def msPerDay_def by linarith

lemma startOfUtcDayIso_eq:
  assumes "0 \<le> t" "t < 8640000000000000"
  shows "startOfUtcDayIso t = Inr (Day t * msPerDay)"
proof -
  have "0 \<le> Day t * msPerDay" using Day_nonneg [OF assms(1)] by (simp add: msPerDay_def)
  moreover have "Day t * msPerDay \<le> t" using day_bounds by blast
  ultimately have "TimeClip (Day t * msPerDay) = Some (Day t * msPerDay)"
    using assms(2) by (simp add: TimeClip_def)
  then show ?thesis
    using Date_UTC_day [OF assms(1), of 0 0 0 0 0]
    by (simp add: startOfUtcDayIso_def toISOString_def MakeTime_def)
qed

lemma endOfUtcDayIso_eq:
  assumes "0 \<le> t" "t < 8640000000000000"
  shows "endOfUtcDayIso t = Inr ((Day t + 1) * msPerDay - 1)"
proof -
  have "0 \<le> Day t" by (rule Day_nonneg [OF assms(1)])
  moreover have "Day t < 100000000" by (rule Day_below_max [OF assms(2)])
  ultimately have "TimeClip ((Day t + 1) * msPerDay - 1) = Some ((Day t + 1) * msPerDay - 1)"
    by (simp add: TimeClip_def msPerDay_def)
  moreover have "Day t * msPerDay + MakeTime 23 59 59 999 = (Day t + 1) * msPerDay - 1"
    by (simp add: MakeTime_def msPerDay_def algebra_simps)
  ultimately show ?thesis
    using Date_UTC_day [OF assms(1), of 0 23 59 59 999]
    by (simp add: endOfUtcDayIso_def toISOString_def)
qed

lemma endOfUtcDayIso_valid:
  assumes "0 \<le> t" "endOfUtcDayIso t = Inr e"
  shows "Day t < 100000000"
proof (rule ccontr)
  assume "\<not> Day t < 100000000"
  then have "8640000000000000 < (Day t + 1) * msPerDay - 1" by (simp add: msPerDay_def)
  then have "TimeClip ((Day t + 1) * msPerDay - 1) = None" by (simp add: TimeClip_def)
  moreover have "Day t * msPerDay + MakeTime 23 59 59 999 = (Day t + 1) * msPerDay - 1"
    by (simp add: MakeTime_def msPerDay_def algebra_simps)
  ultimately have "endOfUtcDayIso t = Inl (JsError ''RangeError'' ''Invalid time value'')"
    using Date_UTC_day [OF assms(1), of 0 23 59 59 999]
    by (simp add: endOfUtcDayIso_def toISOString_def)
  with assms(2) show False by simp
qed

lemma secondsUntilNextUtcDay_eq:
  assumes "0 \<le> t" "Day t < 100000000"
  shows "secondsUntilNextUtcDay t = Some (ceilDiv1000 (nextUtcMidnight t - t))"
    and "1 \<le> ceilDiv1000 (nextUtcMidnight t - t)"
proof -
  have n: "nextUtcMidnight t = (Day t + 1) * msPerDay" by (simp add: nextUtcMidnight_def Day_def)
  have "0 \<le> Day t" by (rule Day_nonneg [OF assms(1)])
  with assms(2) have "TimeClip ((Day t + 1) * msPerDay) = Some ((Day t + 1) * msPerDay)"
    by (simp add: TimeClip_def msPerDay_def)
  then have d: "Date_UTC (YearFromTime t) (MonthFromTime t) (DateFromTime t + 1) 0 0 0 0
                = Some (nextUtcMidnight t)"
    using Date_UTC_day [OF assms(1), of 1 0 0 0 0] by (simp add: MakeTime_def n)
  have "0 < nextUtcMidnight t - t" using day_bounds [of t] n by simp
  then show "1 \<le> ceilDiv1000 (nextUtcMidnight t - t)"
    unfolding ceilDiv1000_def by linarith
  then show "secondsUntilNextUtcDay t = Some (ceilDiv1000 (nextUtcMidnight t - t))"
    by (simp add: secondsUntilNextUtcDay_def d)
qed

lemma ceilDiv1000_ceiling: "ceilDiv1000 x = \<lceil>real_of_int x / 1000\<rceil>"
proof -
  have "\<lceil>real_of_int x / real_of_int 1000\<rceil> = - (- x div 1000)"
    by (rule ceiling_divide_eq_div)
  then show ?thesis by (simp add: ceilDiv1000_def)
qed

lemma nextUtcMidnight_least:
  "nextUtcMidnight t mod msPerDay = 0 \<and> t < nextUtcMidnight t
   \<and> (\<forall>m. m mod msPerDay = 0 \<and> t < m \<longrightarrow> nextUtcMidnight t \<le> m)"
proof (intro conjI allI impI)
  show "nextUtcMidnight t mod msPerDay = 0" by (simp add: nextUtcMidnight_def)
  show "t < nextUtcMidnight t" using day_bounds [of t] by (simp add: nextUtcMidnight_def Day_def)
  fix m assume a: "m mod msPerDay = 0 \<and> t < m"
  define q where "q = m div msPerDay"
  have "m div msPerDay * msPerDay + m mod msPerDay = m" by (rule div_mult_mod_eq)
  with a have q: "m = q * msPerDay" unfolding q_def by linarith
  have "Day t * msPerDay \<le> t" using day_bounds by blast
  with a q have "Day t * msPerDay < q * msPerDay" by simp
  then have "Day t < q" by (simp add: msPerDay_def)
  then have "(Day t + 1) * msPerDay \<le> q * msPerDay" by (simp add: msPerDay_def)
  then show "nextUtcMidnight t \<le> m" by (simp add: nextUtcMidnight_def Day_def q)
qed

subsection \<open>What a response tells\<close>

lemma rate_limited_cases:
  assumes "post_waitlist R env request now db = (Inr resp, db')" and "status resp = 429"
  shows "\<exists>raw payload dayStart dayEnd submissionCount.
           parseRequestBody request = Inr raw
         \<and> safeParse R (normalizePayload R raw) = Some payload
         \<and> \<not> isBot payload
         \<and> startOfUtcDayIso now = Inr dayStart
         \<and> endOfUtcDayIso now = Inr dayEnd
         \<and> countByIp db (getConnectingIp (req_headers request)) dayStart dayEnd = (Inr submissionCount, db')
         \<and> parsePositiveInt (WAITLIST_RATE_LIMIT_PER_DAY env) 10 \<le> int submissionCount
         \<and> resp = jsonResponse False (Some ''rate_limited'')
                    ''Rate limit reached. Please try again tomorrow.'' 429
                    [(''Retry-After'', String_ofSeconds (secondsUntilNextUtcDay now))]"
  using assms
  by (auto simp: post_waitlist_def isBot_def jsonResponse_def Let_def
           split: sum.splits prod.splits if_splits option.splits)

lemma accepted_cases:
  assumes "post_waitlist R env request now db = (Inr resp, db')" and "status resp = 201"
  shows "\<exists>raw payload dayStart dayEnd submissionCount db1.
           parseRequestBody request = Inr raw
         \<and> safeParse R (normalizePayload R raw) = Some payload
         \<and> \<not> isBot payload
         \<and> startOfUtcDayIso now = Inr dayStart
         \<and> endOfUtcDayIso now = Inr dayEnd
         \<and> countByIp db (getConnectingIp (req_headers request)) dayStart dayEnd = (Inr submissionCount, db1)
         \<and> int submissionCount < parsePositiveInt (WAITLIST_RATE_LIMIT_PER_DAY env) 10
         \<and> upsertEntry R db1 (upsertValues R request payload (getConnectingIp (req_headers request)) now)
              (getConnectingIp (req_headers request)) = (Inr (), db')
         \<and> resp = jsonResponse True None ''You are on the waitlist.'' 201 []"
  using assms
  by (auto simp: post_waitlist_def isBot_def jsonResponse_def Let_def
           split: sum.splits prod.splits if_splits option.splits)

subsection \<open>The Number value of an integer\<close>

lemma bitLength_bounds: "0 < n \<Longrightarrow> 2 ^ (bitLength n - 1) \<le> n \<and> n < 2 ^ bitLength n"
proof (induction n rule: bitLength.induct)
  case (1 n)
  show ?case
  proof (cases "n = 1")
    case True
    then show ?thesis by (simp add: bitLength.simps [of 1] bitLength.simps [of 0])
  next
    case False
    with 1(2) have p: "0 < n div 2" by presburger
    from 1(2) have "\<not> n \<le> 0" by simp
    from 1(1) [OF this p] have ih: "2 ^ (bitLength (n div 2) - 1) \<le> n div 2" "n div 2 < 2 ^ bitLength (n div 2)"
      by simp_all
    from p have b: "0 < bitLength (n div 2)" by (simp add: bitLength.simps [of "n div 2"])
    have e: "bitLength n = Suc (bitLength (n div 2))" using 1(2) by (simp add: bitLength.simps [of n])
    have "2 * 2 ^ (bitLength (n div 2) - 1) \<le> 2 * (n div 2)" using ih(1) by simp
    also have "\<dots> \<le> n" by presburger
    finally have lo: "2 ^ bitLength (n div 2) \<le> n"
      using b by (cases "bitLength (n div 2)") simp_all
    have "n < 2 * (n div 2) + 2" by presburger
    also have "\<dots> \<le> 2 * 2 ^ bitLength (n div 2)" using ih(2) by simp
    finally have hi: "n < 2 ^ Suc (bitLength (n div 2))" by simp
    from lo hi show ?thesis by (simp add: e)
  qed
qed

lemma round_shape:
  assumes "2 ^ 53 \<le> k"
  defines "s \<equiv> bitLength k - 53"
  shows "54 \<le> bitLength k" and "2 ^ 52 * 2 ^ s \<le> k" and "k < 2 ^ 53 * 2 ^ s"
    and "2 ^ 52 \<le> k div 2 ^ s" and "k div 2 ^ s < 2 ^ 53"
proof -
  have "(0::int) < 2 ^ 53" by simp
  with assms(1) have pos: "0 < k" by linarith
  note b = bitLength_bounds [OF pos]
  have "(2::int) ^ 53 < 2 ^ bitLength k" using assms(1) b by linarith
  then have "53 < bitLength k" by (simp del: power_numeral)
  then show L: "54 \<le> bitLength k" by simp
  then have e1: "bitLength k - 1 = 52 + s" and e2: "bitLength k = 53 + s" by (simp_all add: s_def)
  from b e1 show lo: "2 ^ 52 * 2 ^ s \<le> k" by (simp add: power_add del: power_numeral)
  from b e2 show hi: "k < 2 ^ 53 * 2 ^ s" by (simp add: power_add del: power_numeral)
  have P: "(0::int) < 2 ^ s" by simp
  from lo have "2 ^ 52 * 2 ^ s div 2 ^ s \<le> k div 2 ^ s" by (rule zdiv_mono1) (rule P)
  then show "2 ^ 52 \<le> k div 2 ^ s" by (simp del: power_numeral)
  show "k div 2 ^ s < 2 ^ 53"
  proof (rule ccontr)
    assume "\<not> k div 2 ^ s < 2 ^ 53"
    then have "2 ^ 53 \<le> k div 2 ^ s" by simp
    then have "2 ^ 53 * 2 ^ s \<le> (k div 2 ^ s) * 2 ^ s" by (rule mult_right_mono) simp
    also have "\<dots> \<le> k" using div_bounds(1) [OF P, of k] by (simp add: mult.commute)
    finally show False using hi by simp
  qed
qed


lemma round_large:
  assumes "2 ^ 53 \<le> k"
  obtains s q r m where "1 \<le> s" and "k = q * 2 ^ s + r" and "0 \<le> r" and "r < 2 ^ s"
    and "2 ^ 52 \<le> q" and "q < 2 ^ 53"
    and "m = (if 2 ^ s < 2 * r \<or> (2 * r = 2 ^ s \<and> odd q) then q + 1 else q)"
    and "roundTiesToEven k = (if 2 ^ 1024 \<le> m * 2 ^ s then None else Some (m * 2 ^ s))"
    and "2 ^ 52 * 2 ^ s \<le> k" and "k < 2 ^ 53 * 2 ^ s"
proof -
  define s where "s = bitLength k - 53"
  define q where "q = k div 2 ^ s"
  define r where "r = k mod 2 ^ s"
  define m where "m = (if 2 ^ s < 2 * r \<or> (2 * r = 2 ^ s \<and> odd q) then q + 1 else q)"
  note sh = round_shape [OF assms, folded s_def]
  have 1: "1 \<le> s" using sh(1) by (simp add: s_def)
  have 2: "k = q * 2 ^ s + r" unfolding q_def r_def by (rule div_mult_mod_eq [symmetric])
  have 3: "0 \<le> r" "r < 2 ^ s" by (simp_all add: r_def)
  have 4: "2 ^ 52 \<le> q" "q < 2 ^ 53" using sh(4,5) by (simp_all add: q_def)
  have "\<not> k < 2 ^ 53" using assms by simp
  then have 5: "roundTiesToEven k = (if 2 ^ 1024 \<le> m * 2 ^ s then None else Some (m * 2 ^ s))"
    unfolding roundTiesToEven_def Let_def s_def [symmetric] q_def [symmetric] r_def [symmetric]
      m_def [symmetric]
    by (simp only: if_False)
  from 1 2 3 4 m_def 5 sh(2,3) show thesis by (rule that)
qed

lemma roundTiesToEven_small: "k < 2 ^ 53 \<Longrightarrow> roundTiesToEven k = Some k"
  by (simp add: roundTiesToEven_def del: power_numeral)

lemma round_distance:
  fixes P :: int
  assumes "m = (if P < 2 * r \<or> (2 * r = P \<and> odd q) then q + 1 else q)"
    and "k = q * P + r" and "0 \<le> r" and "r < P"
  shows "\<bar>m * P - k\<bar> \<le> r" and "\<bar>m * P - k\<bar> \<le> P - r"
proof -
  have e: "(q + 1) * P = q * P + P" by (simp add: algebra_simps)
  show "\<bar>m * P - k\<bar> \<le> r"
  proof (cases "P < 2 * r \<or> (2 * r = P \<and> odd q)")
    case True
    then have "m * P - k = P - r" "P \<le> 2 * r" using assms(1,2) e by auto
    then show ?thesis using assms(3,4) by linarith
  next
    case False
    then have "m * P - k = - r" using assms(1,2) by auto
    then show ?thesis using assms(3) by linarith
  qed
  show "\<bar>m * P - k\<bar> \<le> P - r"
  proof (cases "P < 2 * r \<or> (2 * r = P \<and> odd q)")
    case True
    then have "m * P - k = P - r" using assms(1,2) e by auto
    then show ?thesis using assms(3,4) by linarith
  next
    case False
    then have "m * P - k = - r" "2 * r \<le> P" using assms(1,2) by auto
    then show ?thesis using assms(3) by linarith
  qed
qed

lemma roundTiesToEven_nearest:
  assumes "roundTiesToEven k = Some d" and "\<bar>m0\<bar> < 2 ^ 53"
  shows "\<bar>d - k\<bar> \<le> \<bar>m0 * 2 ^ e - k\<bar>"
proof (cases "k < 2 ^ 53")
  case True
  with assms(1) show ?thesis by (simp add: roundTiesToEven_small del: power_numeral)
next
  case False
  then have "2 ^ 53 \<le> k" by simp
  then obtain s q r m where s: "1 \<le> s" and k: "k = q * 2 ^ s + r" and r: "0 \<le> r" "r < 2 ^ s"
    and q: "2 ^ 52 \<le> q" "q < 2 ^ 53"
    and m: "m = (if 2 ^ s < 2 * r \<or> (2 * r = 2 ^ s \<and> odd q) then q + 1 else q)"
    and rd: "roundTiesToEven k = (if 2 ^ 1024 \<le> m * 2 ^ s then None else Some (m * 2 ^ s))"
    and kb: "2 ^ 52 * 2 ^ s \<le> k" "k < 2 ^ 53 * 2 ^ s"
    by (rule round_large)
  define P :: int where "P = 2 ^ s"
  have P: "0 < P" by (simp add: P_def)
  from rd assms(1) have d: "d = m * P" by (simp add: P_def split: if_splits del: power_numeral)
  note kP = k [folded P_def]
  from round_distance [OF m [folded P_def] kP r [folded P_def]]
  have dist: "\<bar>d - k\<bar> \<le> r" "\<bar>d - k\<bar> \<le> P - r" by (simp_all only: d)
  define x where "x = m0 * 2 ^ e"
  have lo: "2 ^ 52 * P \<le> q * P" using q(1) P by (simp del: power_numeral)
  show ?thesis
  proof (cases "x < 2 ^ 52 * P")
    case True
    with lo kP have "r < k - x" by linarith
    with dist(1) x_def show ?thesis by linarith
  next
    case False
    then have xl: "2 ^ 52 * P \<le> x" by simp
    have m0: "0 < m0"
    proof (rule ccontr)
      assume "\<not> 0 < m0"
      then have "m0 * 2 ^ e \<le> 0" by (simp add: mult_le_0_iff)
      moreover have "(0::int) < 2 ^ 52 * P" using P by simp
      ultimately show False using xl by (simp add: x_def)
    qed
    have es: "s \<le> e"
    proof (rule ccontr)
      assume "\<not> s \<le> e"
      then have "Suc e \<le> s" by simp
      then have "(2::int) ^ Suc e \<le> 2 ^ s" by (rule power_increasing) simp
      then have le: "2 * 2 ^ e \<le> P" by (simp add: P_def)
      have "m0 * 2 ^ e < 2 ^ 53 * 2 ^ e" using assms(2) m0 by (simp del: power_numeral)
      also have "\<dots> = 2 ^ 52 * (2 * 2 ^ e)" by simp
      also have "\<dots> \<le> 2 ^ 52 * P" using le by (simp del: power_numeral)
      finally show False using xl by (simp add: x_def)
    qed
    define n where "n = m0 * 2 ^ (e - s)"
    have xn: "x = n * P"
    proof -
      have "(2::int) ^ e = 2 ^ (e - s) * 2 ^ s" using es by (simp add: power_add [symmetric])
      then show ?thesis by (simp add: x_def n_def P_def)
    qed
    show ?thesis
    proof (cases "n \<le> q")
      case True
      then have "n * P \<le> q * P" using P by (simp add: mult_right_mono)
      with kP xn have "x - k \<le> - r" by linarith
      with dist(1) r x_def show ?thesis by linarith
    next
      case False
      then have "q + 1 \<le> n" by simp
      then have "(q + 1) * P \<le> n * P" using P by (simp add: mult_right_mono del: distrib_right)
      then have "q * P + P \<le> n * P" by (simp add: algebra_simps)
      with kP xn have "P - r \<le> x - k" by linarith
      with dist(2) x_def show ?thesis by linarith
    qed
  qed
qed

lemma roundTiesToEven_is_double:
  assumes "roundTiesToEven k = Some d" and "0 \<le> k"
  shows "\<exists>m e. \<bar>m\<bar> < 2 ^ 53 \<and> d = m * 2 ^ e"
proof (cases "k < 2 ^ 53")
  case True
  with assms have "\<bar>k\<bar> < 2 ^ 53 \<and> d = k * 2 ^ 0" by (simp add: roundTiesToEven_small del: power_numeral)
  then show ?thesis by blast
next
  case False
  then have "2 ^ 53 \<le> k" by simp
  then obtain s q r m where s: "1 \<le> s" and k: "k = q * 2 ^ s + r" and r: "0 \<le> r" "r < 2 ^ s"
    and q: "2 ^ 52 \<le> q" "q < 2 ^ 53"
    and m: "m = (if 2 ^ s < 2 * r \<or> (2 * r = 2 ^ s \<and> odd q) then q + 1 else q)"
    and rd: "roundTiesToEven k = (if 2 ^ 1024 \<le> m * 2 ^ s then None else Some (m * 2 ^ s))"
    and kb: "2 ^ 52 * 2 ^ s \<le> k" "k < 2 ^ 53 * 2 ^ s"
    by (rule round_large)
  from rd assms(1) have d: "d = m * 2 ^ s" by (simp split: if_splits del: power_numeral)
  show ?thesis
  proof (cases "m < 2 ^ 53")
    case True
    moreover from m q have "0 \<le> m" by (auto split: if_splits)
    ultimately have "\<bar>m\<bar> < 2 ^ 53 \<and> d = m * 2 ^ s" using d by simp
    then show ?thesis by blast
  next
    case False
    with m q have "m = 2 ^ 53" by (auto split: if_splits)
    then have "d = 2 ^ 52 * 2 ^ Suc s" using d by simp
    moreover have "\<bar>2 ^ 52 :: int\<bar> < 2 ^ 53" by simp
    ultimately show ?thesis by blast
  qed
qed


lemma roundTiesToEven_exact:
  assumes "roundTiesToEven k = Some d" and "\<bar>m\<bar> < 2 ^ 53" and "k = m * 2 ^ e"
  shows "d = k"
  using roundTiesToEven_nearest [OF assms(1,2), of e] assms(3) by simp

lemma roundTiesToEven_overflow:
  assumes "0 \<le> k"
  shows "(roundTiesToEven k = None) = (2 ^ 1024 - 2 ^ 970 \<le> k)"
proof (cases "k < 2 ^ 53")
  case True
  moreover have "(2::int) ^ 53 \<le> 2 ^ 1024 - 2 ^ 970" by simp
  ultimately show ?thesis by (simp add: roundTiesToEven_small del: power_numeral)
next
  case False
  then have "2 ^ 53 \<le> k" by simp
  then obtain s q r m where s: "1 \<le> s" and k: "k = q * 2 ^ s + r" and r: "0 \<le> r" "r < 2 ^ s"
    and q: "2 ^ 52 \<le> q" "q < 2 ^ 53"
    and m: "m = (if 2 ^ s < 2 * r \<or> (2 * r = 2 ^ s \<and> odd q) then q + 1 else q)"
    and rd: "roundTiesToEven k = (if 2 ^ 1024 \<le> m * 2 ^ s then None else Some (m * 2 ^ s))"
    and kb: "2 ^ 52 * 2 ^ s \<le> k" "k < 2 ^ 53 * 2 ^ s"
    by (rule round_large)
  define P :: int where "P = 2 ^ s"
  have P: "0 < P" by (simp add: P_def)
  note kP = k [folded P_def] and rP = r [folded P_def] and mP = m [folded P_def]
    and rdP = rd [folded P_def] and kbP = kb [folded P_def]
  have mq: "q \<le> m" "m \<le> q + 1" using mP by (auto split: if_splits)
  have none: "(roundTiesToEven k = None) = (2 ^ 1024 \<le> m * P)" using rdP by simp
  consider (lt) "s \<le> 970" | (eq) "s = 971" | (gt) "972 \<le> s" by linarith
  then show ?thesis
  proof cases
    case lt
    then have "(2::int) ^ s \<le> 2 ^ 970" by (rule power_increasing) simp
    then have Pb: "P \<le> 2 ^ 970" by (simp add: P_def)
    have "m * P \<le> 2 ^ 53 * P" using mq(2) q(2) P by (simp del: power_numeral)
    also have "\<dots> \<le> 2 ^ 53 * 2 ^ 970" using Pb by (rule mult_left_mono) simp
    finally have a: "m * P \<le> 2 ^ 53 * 2 ^ 970" .
    have "2 ^ 53 * P \<le> 2 ^ 53 * 2 ^ 970" using Pb by (rule mult_left_mono) simp
    with kbP(2) have b: "k < 2 ^ 53 * 2 ^ 970" by linarith
    have c: "(2::int) ^ 53 * 2 ^ 970 < 2 ^ 1024 - 2 ^ 970" by simp
    have d: "(0::int) \<le> 2 ^ 970" by simp
    from a c d have n1: "\<not> 2 ^ 1024 \<le> m * P" by linarith
    from b c have n2: "\<not> 2 ^ 1024 - 2 ^ 970 \<le> k" by linarith
    from n1 n2 show ?thesis unfolding none by blast
  next
    case gt
    then have "(2::int) ^ 972 \<le> 2 ^ s" by (rule power_increasing) simp
    then have Pb: "2 ^ 972 \<le> P" by (simp add: P_def)
    have "2 ^ 52 * 2 ^ 972 \<le> 2 ^ 52 * P" using Pb by (rule mult_left_mono) simp
    also have "\<dots> \<le> q * P" using q(1) P by (simp del: power_numeral)
    also have "\<dots> \<le> m * P" using mq(1) P by (simp del: power_numeral)
    finally have a: "2 ^ 52 * 2 ^ 972 \<le> m * P" .
    have "2 ^ 52 * 2 ^ 972 \<le> 2 ^ 52 * P" using Pb by (rule mult_left_mono) simp
    with kbP(1) have b: "2 ^ 52 * 2 ^ 972 \<le> k" by linarith
    have c: "(2::int) ^ 52 * 2 ^ 972 = 2 ^ 1024" by simp
    have d: "(0::int) \<le> 2 ^ 970" by simp
    from a c have n1: "2 ^ 1024 \<le> m * P" by linarith
    from b c d have n2: "2 ^ 1024 - 2 ^ 970 \<le> k" by linarith
    from n1 n2 show ?thesis unfolding none by blast
  next
    case eq
    then have Pe: "P = 2 ^ 971" by (simp add: P_def)
    have c: "(2::int) ^ 1024 = 2 ^ 53 * 2 ^ 971" "(2::int) ^ 971 = 2 * 2 ^ 970" by simp_all
    have e1024: "2 ^ 1024 = 2 ^ 53 * P" unfolding Pe by simp
    have big: "(2 ^ 1024 \<le> m * P) = (2 ^ 53 \<le> m)"
    proof -
      have "(2 ^ 53 * P \<le> m * P) = (2 ^ 53 \<le> m)"
        using P by (simp add: mult_le_cancel_right del: power_numeral)
      then show ?thesis by (simp only: e1024)
    qed
    have thr: "(2::int) ^ 1024 - 2 ^ 970 = (2 ^ 53 - 1) * 2 ^ 971 + 2 ^ 970" by simp
    show ?thesis unfolding none big
    proof
      assume "2 ^ 53 \<le> m"
      with mq(2) q(2) have qe: "q = 2 ^ 53 - 1" and me: "m = q + 1" by linarith+
      from me mP have "P < 2 * r \<or> (2 * r = P \<and> odd q)" by (auto split: if_splits)
      then have "P \<le> 2 * r" by auto
      then have "2 ^ 970 \<le> r" unfolding Pe c(2) by linarith
      then show "2 ^ 1024 - 2 ^ 970 \<le> k" unfolding thr kP qe Pe by linarith
    next
      assume a: "2 ^ 1024 - 2 ^ 970 \<le> k"
      have qe: "q = 2 ^ 53 - 1"
      proof (rule ccontr)
        assume "q \<noteq> 2 ^ 53 - 1"
        with q(2) have "q \<le> 2 ^ 53 - 2" by linarith
        then have "q * 2 ^ 971 \<le> (2 ^ 53 - 2) * 2 ^ 971" by (rule mult_right_mono) simp
        with kP rP(2) have "k < (2 ^ 53 - 2) * 2 ^ 971 + 2 ^ 971" unfolding Pe by linarith
        also have "\<dots> \<le> (2 ^ 53 - 1) * 2 ^ 971 + 2 ^ 970" by simp
        finally show False using a unfolding thr by linarith
      qed
      from a have "2 ^ 970 \<le> r" unfolding thr kP qe Pe by linarith
      then have "P \<le> 2 * r" unfolding Pe c(2) by linarith
      moreover have "odd q" unfolding qe by simp
      ultimately have "P < 2 * r \<or> (2 * r = P \<and> odd q)" by linarith
      with mP have "m = q + 1" by simp
      with qe show "2 ^ 53 \<le> m" by simp
    qed
  qed
qed

lemma roundTiesToEven_ge:
  assumes "roundTiesToEven k = Some d" and "1 \<le> k"
  shows "1 \<le> d"
proof (cases "k < 2 ^ 53")
  case True
  with assms show ?thesis by (simp add: roundTiesToEven_small del: power_numeral)
next
  case False
  then have "2 ^ 53 \<le> k" by simp
  then obtain s q r m where s: "1 \<le> s" and k: "k = q * 2 ^ s + r" and r: "0 \<le> r" "r < 2 ^ s"
    and q: "2 ^ 52 \<le> q" "q < 2 ^ 53"
    and m: "m = (if 2 ^ s < 2 * r \<or> (2 * r = 2 ^ s \<and> odd q) then q + 1 else q)"
    and rd: "roundTiesToEven k = (if 2 ^ 1024 \<le> m * 2 ^ s then None else Some (m * 2 ^ s))"
    and kb: "2 ^ 52 * 2 ^ s \<le> k" "k < 2 ^ 53 * 2 ^ s"
    by (rule round_large)
  from rd assms(1) have d: "d = m * 2 ^ s" by (simp split: if_splits del: power_numeral)
  have "(1::int) \<le> 2 ^ 52" by simp
  with m q(1) have m1: "1 \<le> m" by (auto split: if_splits)
  have "m * 1 \<le> m * 2 ^ s" using m1 by (intro mult_left_mono) simp_all
  with m1 show ?thesis unfolding d by linarith
qed

lemma numberValue_nonpositive:
  assumes "numberValue k = Some d" and "k < 1"
  shows "d < 1"
proof (cases "k = 0")
  case True
  with assms(1) show ?thesis by (simp add: numberValue_def roundTiesToEven_small)
next
  case False
  with assms(2) have n: "k < 0" "1 \<le> - k" by simp_all
  with assms(1) obtain d' where d: "roundTiesToEven (- k) = Some d'" "d = - d'"
    by (auto simp: numberValue_def)
  from roundTiesToEven_ge [OF d(1) n(2)] d(2) show ?thesis by simp
qed

lemma numberValue_positive: "0 \<le> k \<Longrightarrow> numberValue k = roundTiesToEven k"
  by (simp add: numberValue_def)

lemma bitLength_example: "bitLength 9007199254740993 = 54"
  by (simp add: bitLength.simps)

lemma roundTiesToEven_example: "roundTiesToEven 9007199254740993 = Some 9007199254740992"
  by (simp add: roundTiesToEven_def bitLength_example Let_def)

subsection \<open>The hexadecimal text of a digest\<close>









subsection \<open>The store\<close>

lemma received_fields [simp]:
  "rows (received db st) = rows db"
  "ip_hash_required (received db st) = ip_hash_required db"
  "next_id (received db st) = next_id db"
  "faults (received db st) = tl (faults db)"
  "journal (received db st) = journal db @ [st]"
  by (simp_all add: received_def)

lemma pendingFault_Nil: "faults db = [] \<Longrightarrow> pendingFault db = None"
  by (simp add: pendingFault_def)

lemma countByIp_state: "snd (countByIp db ip lo hi) = received db (CountByIp ip lo hi)"
  by (simp add: countByIp_def Let_def split: option.splits)

lemma runUpsert_state:
  "journal (snd (runUpsert db c v u)) = journal db @ [Upsert c v u]
   \<and> faults (snd (runUpsert db c v u)) = tl (faults db)
   \<and> ip_hash_required (snd (runUpsert db c v u)) = ip_hash_required db"
  by (simp add: runUpsert_def Let_def split: option.splits)

lemma runUpsert_failed:
  "runUpsert db c v u = (Inl e, db') \<Longrightarrow> db' = received db (Upsert c v u)"
  by (auto simp: runUpsert_def Let_def split: option.splits if_splits)


lemma runUpsert_rows:
  assumes "runUpsert db c v u = (Inr x, db')"
  shows "excludedRow c v ''email'' \<noteq> SNull
       \<and> rows db' =
          (if list_ex (\<lambda>r. r ''email'' = excludedRow c v ''email'') (rows db)
           then map (\<lambda>r. if r ''email'' = excludedRow c v ''email''
                         then (\<lambda>col. if col \<in> set u then excludedRow c v col else r col)
                         else r) (rows db)
           else rows db @ [(excludedRow c v)(''id'' := SInt (next_id db))])"
  using assms
  by (auto simp: runUpsert_def Let_def split: option.splits if_splits)

lemma day_window:
  "(d * msPerDay \<le> t \<and> t \<le> (d + 1) * msPerDay - 1) = (Day t = d)"
proof
  assume a: "d * msPerDay \<le> t \<and> t \<le> (d + 1) * msPerDay - 1"
  from day_bounds [of t] a have "Day t * msPerDay < (d + 1) * msPerDay" "d * msPerDay < (Day t + 1) * msPerDay"
    by linarith+
  then have "Day t < d + 1" "d < Day t + 1" by (simp_all add: msPerDay_def)
  then show "Day t = d" by simp
next
  assume "Day t = d"
  with day_bounds [of t] show "d * msPerDay \<le> t \<and> t \<le> (d + 1) * msPerDay - 1" by auto
qed

lemma day_window_less:
  "(d * msPerDay \<le> t \<and> t < (d + 1) * msPerDay) = (Day t = d)"
  using day_window [of d t] by auto

lemma countByIp_day:
  assumes "pendingFault db = None"
  shows "countByIp db ip (Day now * msPerDay) ((Day now + 1) * msPerDay - 1) =
           (Inr (submissionsOfDay db ip now),
            received db (CountByIp ip (Day now * msPerDay) ((Day now + 1) * msPerDay - 1)))"
proof -
  have "inWindow v (Day now * msPerDay) ((Day now + 1) * msPerDay - 1)
          = (case v of SInstant t \<Rightarrow> Day t = Day now | _ \<Rightarrow> False)" for v :: "'a sqlval"
    by (cases v) (simp_all add: inWindow_def day_window_less)
  then show ?thesis using assms
    by (simp add: countByIp_def submissionsOfDay_def Let_def)
qed

subsection \<open>The two statements of the writer\<close>

lemma length_upsertValues: "length (upsertValues R request payload ip now) = 47"
  by (simp add: upsertValues_def Let_def)

lemma length_insertColumns: "length insertColumns = 47"
  by (simp add: insertColumns_def)

lemma insertColumns_in_table: "list_all (\<lambda>c. c \<in> set (tableColumns db)) (insertColumns @ updateColumns)"
  by (simp add: tableColumns_def insertColumns_def updateColumns_def)

lemma insertColumnsWithIpHash_in_table:
  "list_all (\<lambda>c. c \<in> set (tableColumns db)) (insertColumnsWithIpHash @ updateColumnsWithIpHash)
     = ip_hash_required db"
  by (simp add: tableColumns_def insertColumns_def insertColumnsWithIpHash_def updateColumnsWithIpHash_def)

lemma columns_with_ip_hash:
  "insertColumnsWithIpHash = take 5 insertColumns @ [''ip_hash''] @ drop 5 insertColumns"
  "updateColumnsWithIpHash = take 4 updateColumns @ [''ip_hash''] @ drop 4 updateColumns"
  "''ip_hash'' \<notin> set insertColumns" "''ip_hash'' \<notin> set updateColumns"
  "updateColumns = filter (\<lambda>c. c \<noteq> ''email'' \<and> c \<noteq> ''created_at'') insertColumns"
  "distinct insertColumns"
  by (simp_all add: insertColumns_def insertColumnsWithIpHash_def updateColumns_def updateColumnsWithIpHash_def)

lemma zip_insert_at:
  assumes "length cs = length vs"
  shows "map_of (zip (take n cs @ [x] @ drop n cs) (take n vs @ [h] @ drop n vs)) c =
           (if c = x \<and> x \<notin> set (take n cs) then Some h
            else map_of (zip cs vs) c)"
proof -
  have l: "length (take n cs) = length (take n vs)" using assms by simp
  have z: "zip (take n cs @ [x] @ drop n cs) (take n vs @ [h] @ drop n vs) =
        zip (take n cs) (take n vs) @ (x, h) # zip (drop n cs) (drop n vs)"
    using l by simp
  have s: "zip cs vs = zip (take n cs) (take n vs) @ zip (drop n cs) (drop n vs)"
    by (metis append_take_drop_id l zip_append)
  have d: "dom (map_of (zip (take n cs) (take n vs))) = set (take n cs)"
    using l by (simp add: dom_map_of_zip)
  show ?thesis
  proof (cases "map_of (zip (take n cs) (take n vs)) c")
    case None
    then show ?thesis unfolding z s
      using d by (auto simp: map_add_def split: option.splits)
  next
    case (Some v)
    then have "c \<in> set (take n cs)" using d by blast
    with Some show ?thesis unfolding z s
      by (auto simp: map_add_def split: option.splits)
  qed
qed

lemma excludedRow_with_ip_hash:
  assumes "length vals = 47"
  shows "excludedRow insertColumnsWithIpHash (take 5 vals @ [h] @ drop 5 vals) =
           (excludedRow insertColumns vals)(''ip_hash'' := h)"
proof
  fix c
  have "length insertColumns = length vals" using assms by (simp add: length_insertColumns)
  from zip_insert_at [OF this, of 5 "''ip_hash''" h c] columns_with_ip_hash(3)
  have "map_of (zip insertColumnsWithIpHash (take 5 vals @ [h] @ drop 5 vals)) c =
          (if c = ''ip_hash'' then Some h else map_of (zip insertColumns vals) c)"
    by (auto simp: columns_with_ip_hash(1) dest: in_set_takeD)
  then show "excludedRow insertColumnsWithIpHash (take 5 vals @ [h] @ drop 5 vals) c =
           ((excludedRow insertColumns vals)(''ip_hash'' := h)) c"
    by (simp add: excludedRow_def)
qed

lemma excludedRow_missing: "c \<notin> set cols \<Longrightarrow> excludedRow cols vals c = SNull"
  by (simp add: excludedRow_def map_of_zip_is_None split: option.splits)
     (metis in_set_zipE map_of_SomeD)

lemma excluded_upsertValues:
  "excludedRow insertColumns (upsertValues R request payload ip now) ''email'' = SText (toLowerCase (email payload))"
  "excludedRow insertColumns (upsertValues R request payload ip now) ''created_at'' = SInstant now"
  "excludedRow insertColumns (upsertValues R request payload ip now) ''updated_at'' = SInstant now"
  "excludedRow insertColumns (upsertValues R request payload ip now) ''ip_address'' = SText ip"
  "excludedRow insertColumns (upsertValues R request payload ip now) ''source_url'' =
     SText (case source payload of None \<Rightarrow> req_href request | Some u \<Rightarrow> u)"
  "excludedRow insertColumns (upsertValues R request payload ip now) ''landing_path'' =
     SText (case landingPath payload of None \<Rightarrow> req_pathname request | Some p \<Rightarrow> p)"
  "excludedRow insertColumns (upsertValues R request payload ip now) ''metadata_json'' =
     SJson (requestMetadata R request payload)"
  by (simp_all add: excludedRow_def insertColumns_def upsertValues_def Let_def)

lemma ip_hash_error_recognised:
  "isIpHashConstraintError (sqliteError ''NOT NULL constraint failed: waitlist_entries.ip_hash'')"
  by (simp add: sqliteError_def startsWith_def)

lemma first_attempt_hash_schema:
  assumes "ip_hash_required db" "pendingFault db = None"
  shows "runUpsert db insertColumns (upsertValues R request payload ip now) updateColumns =
           (Inl (sqliteError ''NOT NULL constraint failed: waitlist_entries.ip_hash''),
            received db (Upsert insertColumns (upsertValues R request payload ip now) updateColumns))"
  using assms insertColumns_in_table [of db]
  by (simp add: runUpsert_def Let_def length_upsertValues length_insertColumns excluded_upsertValues
        excludedRow_missing [OF columns_with_ip_hash(3)])

lemma first_attempt_plain_schema:
  assumes "\<not> ip_hash_required db" "pendingFault db = None"
  shows "fst (runUpsert db insertColumns (upsertValues R request payload ip now) updateColumns) = Inr ()"
  using assms insertColumns_in_table [of db]
  by (simp add: runUpsert_def Let_def length_upsertValues length_insertColumns excluded_upsertValues)

lemma second_attempt_hash_schema:
  assumes "ip_hash_required db" "pendingFault db = None"
  shows "fst (runUpsert db insertColumnsWithIpHash
            (take 5 (upsertValues R request payload ip now) @ [SText h] @ drop 5 (upsertValues R request payload ip now))
            updateColumnsWithIpHash) = Inr ()"
proof -
  have l: "length (take 5 (upsertValues R request payload ip now) @ [SText h] @ drop 5 (upsertValues R request payload ip now))
        = length insertColumnsWithIpHash"
    by (simp add: length_upsertValues columns_with_ip_hash(1) length_insertColumns)
  show ?thesis
    using assms insertColumnsWithIpHash_in_table [of db] l
    by (simp add: runUpsert_def Let_def excludedRow_with_ip_hash [OF length_upsertValues]
          excluded_upsertValues del: append.simps)
qed

lemma fst_Inr_pair: "fst p = Inr u \<Longrightarrow> \<exists>db'. p = (Inr u, db')"
  by (cases p) simp

lemma upsertEntry_healthy:
  assumes "faults db = []"
  shows "\<exists>db'. upsertEntry R db (upsertValues R request payload ip now) ip = (Inr (), db')"
proof (cases "ip_hash_required db")
  case False
  from fst_Inr_pair [OF first_attempt_plain_schema [OF False pendingFault_Nil [OF assms], of R request payload ip now]]
  show ?thesis by (auto simp: upsertEntry_def)
next
  case True
  let ?db1 = "received db (Upsert insertColumns (upsertValues R request payload ip now) updateColumns)"
  have f: "pendingFault ?db1 = None" using assms by (simp add: pendingFault_def)
  have h: "ip_hash_required ?db1" using True by simp
  from fst_Inr_pair [OF second_attempt_hash_schema [OF h f, of R request payload ip now "sha256Hex R ip"]]
  obtain db' where "runUpsert ?db1 insertColumnsWithIpHash
            (take 5 (upsertValues R request payload ip now) @ [SText (sha256Hex R ip)]
               @ drop 5 (upsertValues R request payload ip now))
            updateColumnsWithIpHash = (Inr (), db')" by blast
  then show ?thesis
    using first_attempt_hash_schema [OF True pendingFault_Nil [OF assms], of R request payload ip now]
      ip_hash_error_recognised
    by (simp add: upsertEntry_def Let_def del: append.simps)
qed

lemma parsePositiveInt_ge_1: "1 \<le> fallbackValue \<Longrightarrow> 1 \<le> parsePositiveInt v fallbackValue"
  by (simp add: parsePositiveInt_def split: option.splits)

lemma reaches_limiter:
  assumes "parseRequestBody request = Inr raw"
    and "safeParse R (normalizePayload R raw) = Some payload"
    and "\<not> isBot payload"
    and "startOfUtcDayIso now = Inr dayStart"
    and "endOfUtcDayIso now = Inr dayEnd"
    and "countByIp db (getConnectingIp (req_headers request)) dayStart dayEnd = (Inr n, db1)"
  shows "post_waitlist R env request now db =
     (if int n \<ge> parsePositiveInt (WAITLIST_RATE_LIMIT_PER_DAY env) 10 then
        (Inr (jsonResponse False (Some ''rate_limited'')
                ''Rate limit reached. Please try again tomorrow.'' 429
                [(''Retry-After'', String_ofSeconds (secondsUntilNextUtcDay now))]), db1)
      else
        (case upsertEntry R db1
                (upsertValues R request payload (getConnectingIp (req_headers request)) now)
                (getConnectingIp (req_headers request)) of
           (Inl e, db2) \<Rightarrow> (Inl e, db2)
         | (Inr u, db2) \<Rightarrow> (Inr (jsonResponse True None ''You are on the waitlist.'' 201 []), db2)))"
  using assms by (simp add: post_waitlist_def isBot_def Let_def)

lemma upsertEntry_outcome:
  assumes "runUpsert db insertColumns vals updateColumns = (r1, db1)"
  shows "upsertEntry R db vals ip =
     (case r1 of
        Inr u \<Rightarrow> (Inr u, db1)
      | Inl err \<Rightarrow>
          if isIpHashConstraintError err
          then runUpsert db1 insertColumnsWithIpHash
                 (take 5 vals @ [SText (sha256Hex R ip)] @ drop 5 vals) updateColumnsWithIpHash
          else (Inl err, db1))"
  using assms by (simp add: upsertEntry_def Let_def split: sum.splits)

subsection \<open>The rows an accepted submission writes\<close>

lemma runUpsert_upserted:
  assumes "runUpsert db c v u = (Inr x, db')"
  shows "rows db' = upserted (rows db) (excludedRow c v) u (next_id db)"
    and "ip_hash_required db \<longrightarrow> excludedRow c v ''ip_hash'' \<noteq> SNull"
    and "list_all (\<lambda>col. col \<in> set (tableColumns db)) (c @ u)"
  using assms
  by (auto simp: upserted_def runUpsert_def Let_def split: option.splits if_splits)



lemma upsertEntry_written:
  assumes "upsertEntry R db (upsertValues R request payload ip now) ip = (Inr x, db')"
  shows "\<exists>ex u. rows db' = upserted (rows db) ex u (next_id db)
           \<and> (\<forall>c \<in> set insertColumns. ex c = excludedRow insertColumns (upsertValues R request payload ip now) c)
           \<and> set updateColumns \<subseteq> set u \<and> set u \<subseteq> insert ''ip_hash'' (set updateColumns)
           \<and> (ip_hash_required db \<longrightarrow> ''ip_hash'' \<in> set u \<and> ex ''ip_hash'' = SText (sha256Hex R ip))
           \<and> (\<not> ip_hash_required db \<longrightarrow> ''ip_hash'' \<notin> set u)"
proof -
  let ?vals = "upsertValues R request payload ip now"
  obtain r1 db1 where r1: "runUpsert db insertColumns ?vals updateColumns = (r1, db1)"
    by (cases "runUpsert db insertColumns ?vals updateColumns") blast
  note u = upsertEntry_outcome [OF r1, of R ip]
  show ?thesis
  proof (cases r1)
    case (Inr y)
    with u assms have "db' = db1" by simp
    with r1 Inr runUpsert_upserted [of db insertColumns ?vals updateColumns y db1]
    have "rows db' = upserted (rows db) (excludedRow insertColumns ?vals) updateColumns (next_id db)"
      and "\<not> ip_hash_required db"
      by (auto simp: excludedRow_missing [OF columns_with_ip_hash(3)])
    then show ?thesis using columns_with_ip_hash(4) by blast
  next
    case (Inl err)
    let ?v2 = "take 5 ?vals @ [SText (sha256Hex R ip)] @ drop 5 ?vals"
    from Inl u assms have 2: "runUpsert db1 insertColumnsWithIpHash ?v2 updateColumnsWithIpHash = (Inr x, db')"
      by (simp split: if_splits)
    from r1 Inl have d: "db1 = received db (Upsert insertColumns ?vals updateColumns)"
      by (simp add: runUpsert_failed)
    have ex: "excludedRow insertColumnsWithIpHash ?v2
               = (excludedRow insertColumns ?vals)(''ip_hash'' := SText (sha256Hex R ip))"
      by (rule excludedRow_with_ip_hash [OF length_upsertValues])
    from runUpsert_upserted(1) [OF 2] d
    have "rows db' = upserted (rows db) ((excludedRow insertColumns ?vals)(''ip_hash'' := SText (sha256Hex R ip)))
             updateColumnsWithIpHash (next_id db)"
      by (simp add: ex [simplified])
    moreover have "\<forall>c \<in> set insertColumns.
        ((excludedRow insertColumns ?vals)(''ip_hash'' := SText (sha256Hex R ip))) c = excludedRow insertColumns ?vals c"
      using columns_with_ip_hash(3) by auto
    moreover have "set updateColumns \<subseteq> set updateColumnsWithIpHash"
      "set updateColumnsWithIpHash \<subseteq> insert ''ip_hash'' (set updateColumns)"
      "''ip_hash'' \<in> set updateColumnsWithIpHash"
      unfolding columns_with_ip_hash(2)
      by (auto dest: in_set_takeD in_set_dropD) (metis Un_iff append_take_drop_id set_append)
    moreover have "ip_hash_required db"
      using runUpsert_upserted(3) [OF 2] insertColumnsWithIpHash_in_table [of db1] d by simp
    ultimately show ?thesis by (intro exI [of _ "(excludedRow insertColumns ?vals)(''ip_hash'' := SText (sha256Hex R ip))"]
          exI [of _ updateColumnsWithIpHash]) simp
  qed
qed

lemma accepted_written:
  assumes "post_waitlist R env request now db = (Inr resp, db')" and "status resp = 201"
    and "parseRequestBody request = Inr raw" and "safeParse R (normalizePayload R raw) = Some payload"
    and "ip = getConnectingIp (req_headers request)"
  shows "\<exists>ex u. rows db' = upserted (rows db) ex u (next_id db)
           \<and> (\<forall>c \<in> set insertColumns. ex c = excludedRow insertColumns (upsertValues R request payload ip now) c)
           \<and> set updateColumns \<subseteq> set u \<and> set u \<subseteq> insert ''ip_hash'' (set updateColumns)
           \<and> (ip_hash_required db \<longrightarrow> ''ip_hash'' \<in> set u \<and> ex ''ip_hash'' = SText (sha256Hex R ip))
           \<and> (\<not> ip_hash_required db \<longrightarrow> ''ip_hash'' \<notin> set u)"
proof -
  from accepted_cases [OF assms(1,2)] assms(3,4,5) obtain dayStart dayEnd n db1 where
    c: "countByIp db ip dayStart dayEnd = (Inr n, db1)" and
    u: "upsertEntry R db1 (upsertValues R request payload ip now) ip = (Inr (), db')"
    by auto
  from c countByIp_state [of db ip dayStart dayEnd]
  have "db1 = received db (CountByIp ip dayStart dayEnd)" by simp
  with upsertEntry_written [OF u] show ?thesis by simp
qed

lemma updateColumns_members:
  "''email'' \<notin> set updateColumns" "''created_at'' \<notin> set updateColumns" "''id'' \<notin> set updateColumns"
  "''source_url'' \<in> set updateColumns" "''landing_path'' \<in> set updateColumns"
  "''metadata_json'' \<in> set updateColumns" "''updated_at'' \<in> set updateColumns"
  "set updateColumns \<subseteq> set insertColumns" "''email'' \<in> set insertColumns"
  by (simp_all add: updateColumns_def insertColumns_def)

lemma upserted_written:
  assumes "ex ''email'' = SText e" and "''email'' \<notin> set u" and "''id'' \<notin> set u"
  shows "filter (\<lambda>r. r ''email'' = SText e) (upserted rs ex u nid) \<noteq> []"
    and "\<forall>r \<in> set (filter (\<lambda>r. r ''email'' = SText e) (upserted rs ex u nid)). \<forall>c \<in> set u. r c = ex c"
proof -
  let ?f = "\<lambda>r. if r ''email'' = ex ''email''
                    then (\<lambda>col. if col \<in> set u then ex col else r col) else r"
  show "filter (\<lambda>r. r ''email'' = SText e) (upserted rs ex u nid) \<noteq> []"
  proof (cases "list_ex (\<lambda>r. r ''email'' = ex ''email'') rs")
    case True
    then obtain old where "old \<in> set rs" "old ''email'' = SText e"
      using assms(1) by (auto simp: list_ex_iff)
    then have "?f old \<in> set (map ?f rs)" "?f old ''email'' = SText e"
      using assms(1,2) by auto
    then have "?f old \<in> set (filter (\<lambda>r. r ''email'' = SText e) (map ?f rs))" by simp
    moreover from True have "upserted rs ex u nid = map ?f rs" by (simp add: upserted_def)
    ultimately show ?thesis by (metis empty_iff list.set(1))
  next
    case False
    then show ?thesis using assms(1) by (simp add: upserted_def)
  qed
  show "\<forall>r \<in> set (filter (\<lambda>r. r ''email'' = SText e) (upserted rs ex u nid)). \<forall>c \<in> set u. r c = ex c"
  proof (cases "list_ex (\<lambda>r. r ''email'' = ex ''email'') rs")
    case True
    then have "upserted rs ex u nid = map ?f rs" by (simp add: upserted_def)
    then show ?thesis using assms(1,2) by (auto split: if_splits)
  next
    case False
    then have "\<forall>r \<in> set rs. r ''email'' \<noteq> SText e" using assms(1) by (auto simp: list_ex_iff)
    with False show ?thesis using assms(3) by (auto simp: upserted_def)
  qed
qed

lemma metadata_source:
  "getProp (getProp (requestMetadata R request payload) ''request'') ''source'' =
     JStr (case source payload of None \<Rightarrow> req_href request | Some u \<Rightarrow> u)"
  by (simp add: requestMetadata_def)



lemma length_upserted_le: "length (upserted rs ex u nid) \<le> length rs + 1"
  by (simp add: upserted_def)

lemma accepts_below_ceiling:
  assumes "parseRequestBody request = Inr raw"
    and "safeParse R (normalizePayload R raw) = Some payload"
    and "\<not> isBot payload"
    and "0 \<le> now" and "now < 8640000000000000"
    and "faults db = []"
    and "int (submissionsOfDay db (getConnectingIp (req_headers request)) now)
           < parsePositiveInt (WAITLIST_RATE_LIMIT_PER_DAY env) 10"
  shows "\<exists>db'. post_waitlist R env request now db =
                 (Inr (jsonResponse True None ''You are on the waitlist.'' 201 []), db')
              \<and> faults db' = [] \<and> length (rows db') \<le> length (rows db) + 1"
proof -
  let ?ip = "getConnectingIp (req_headers request)"
  let ?db1 = "received db (CountByIp ?ip (Day now * msPerDay) ((Day now + 1) * msPerDay - 1))"
  have c: "countByIp db ?ip (Day now * msPerDay) ((Day now + 1) * msPerDay - 1)
            = (Inr (submissionsOfDay db ?ip now), ?db1)"
    by (rule countByIp_day [OF pendingFault_Nil [OF assms(6)]])
  note r = reaches_limiter [OF assms(1-3) startOfUtcDayIso_eq [OF assms(4,5)]
      endOfUtcDayIso_eq [OF assms(4,5)] c, of env]
  have f: "faults ?db1 = []" using assms(6) by simp
  from upsertEntry_healthy [OF f, of R request payload ?ip now]
  obtain db2 where u: "upsertEntry R ?db1 (upsertValues R request payload ?ip now) ?ip = (Inr (), db2)"
    by blast
  have "faults db2 = []"
  proof -
    obtain r1 d1 where r1: "runUpsert ?db1 insertColumns (upsertValues R request payload ?ip now) updateColumns = (r1, d1)"
      by (cases "runUpsert ?db1 insertColumns (upsertValues R request payload ?ip now) updateColumns") blast
    with runUpsert_state [of ?db1 insertColumns "upsertValues R request payload ?ip now" updateColumns] f
    have f1: "faults d1 = []" by simp
    show ?thesis
    proof (cases "db2 = d1")
      case True with f1 show ?thesis by simp
    next
      case False
      with u upsertEntry_outcome [OF r1, of R ?ip]
      have "runUpsert d1 insertColumnsWithIpHash
              (take 5 (upsertValues R request payload ?ip now) @ [SText (sha256Hex R ?ip)]
                 @ drop 5 (upsertValues R request payload ?ip now)) updateColumnsWithIpHash = (Inr (), db2)"
        by (auto split: sum.splits if_splits)
      with runUpsert_state [of d1 insertColumnsWithIpHash _ updateColumnsWithIpHash] f1
      show ?thesis by (metis list.sel(2) snd_conv)
    qed
  qed
  moreover have "length (rows db2) \<le> length (rows db) + 1"
  proof -
    from upsertEntry_written [OF u] obtain ex u' where
      "rows db2 = upserted (rows ?db1) ex u' (next_id ?db1)" by (elim exE conjE)
    then show ?thesis using length_upserted_le [of "rows db" ex u' "next_id db"] by simp
  qed
  ultimately show ?thesis using r u assms(7) by simp
qed


lemma accepted_metadata:
  assumes "post_waitlist R env request now db = (Inr resp, db')" and "status resp = 201"
    and "parseRequestBody request = Inr raw"
    and "safeParse R (normalizePayload R raw) = Some payload"
  shows "rowsOfEmail db' (toLowerCase (email payload)) \<noteq> []"
    and "\<forall>r \<in> set (rowsOfEmail db' (toLowerCase (email payload))).
           r ''metadata_json'' = SJson (requestMetadata R request payload)"
proof -
  let ?ip = "getConnectingIp (req_headers request)"
  let ?e = "toLowerCase (email payload)"
  let ?x = "excludedRow insertColumns (upsertValues R request payload ?ip now)"
  from accepted_written [OF assms refl] obtain ex u where
    rows: "rows db' = upserted (rows db) ex u (next_id db)" and
    ex: "\<forall>c \<in> set insertColumns. ex c = ?x c" and
    u: "set updateColumns \<subseteq> set u" "set u \<subseteq> insert ''ip_hash'' (set updateColumns)"
    by blast
  have e: "ex ''email'' = SText ?e"
    using ex updateColumns_members(9) by (simp add: excluded_upsertValues)
  have nu: "''email'' \<notin> set u" "''id'' \<notin> set u"
    using u(2) updateColumns_members(1,3) by auto
  note w = upserted_written [where ex = ex and e = ?e and u = u and rs = "rows db" and nid = "next_id db",
      OF e nu, folded rows]
  show "rowsOfEmail db' ?e \<noteq> []" using w(1) by (simp add: rowsOfEmail_def)
  show "\<forall>r \<in> set (rowsOfEmail db' ?e). r ''metadata_json'' = SJson (requestMetadata R request payload)"
  proof
    fix r assume r: "r \<in> set (rowsOfEmail db' ?e)"
    with w(2) have "\<forall>c \<in> set u. r c = ex c" by (simp add: rowsOfEmail_def)
    moreover from updateColumns_members(6) u(1) have "''metadata_json'' \<in> set u" by (rule subsetD [rotated])
    moreover from updateColumns_members(6) updateColumns_members(8) have "''metadata_json'' \<in> set insertColumns"
      by (rule subsetD [rotated])
    ultimately have "r ''metadata_json'' = ?x ''metadata_json''" using ex by simp
    then show "r ''metadata_json'' = SJson (requestMetadata R request payload)"
      by (simp add: excluded_upsertValues)
  qed
qed

subsection \<open>The examples, evaluated\<close>

lemma safeParse_emailBody:
  assumes "trim e = e" "e \<noteq> []" "CHR ''@'' \<in> set e" "length e \<le> 320"
  shows "safeParse testRuntime (normalizePayload testRuntime (emailBody e)) = Some (emailOnlyPayload e)"
  using assms
  by (simp add: safeParse_def normalizePayload_def emailBody_def optString_def optNumber_def
        optBoolean_def toOptionalInteger_def zStringMax_def zUrlMax_def zEnum_def zBoolean_def
        zNumberRange_def zRecord_def zEmailMax_def testRuntime_def emailOnlyPayload_def Let_def)

lemma digits10_small: "n < 10 \<Longrightarrow> digits10 n = [digitChar n]"
  by (simp add: digits10.simps)

lemma digits10_large: "10 \<le> n \<Longrightarrow> digits10 n = digits10 (n div 10) @ [digitChar (n mod 10)]"
  by (subst digits10.simps) simp

lemma ip_jsonRequest: "getConnectingIp (req_headers (jsonRequest body)) = ''203.0.113.7''"
  by (simp add: getConnectingIp_def jsonRequest_def)

lemma limit_one: "parsePositiveInt (WAITLIST_RATE_LIMIT_PER_DAY limitOneEnv) 10 = 1"
  by (simp add: parsePositiveInt_def limitOneEnv_def parseInt10_def digitValue_def isWhiteSpace_def
        numberValue_def roundTiesToEven_def Let_def)

lemma limit_default: "parsePositiveInt (WAITLIST_RATE_LIMIT_PER_DAY testEnv) 10 = 10"
  by (simp add: parsePositiveInt_def testEnv_def)

lemma trim_ada: "trim ''ada@example.com'' = ''ada@example.com''"
  by (rule trim_id) (simp add: isWhiteSpace_def)

lemma count_oneRowStore:
  "countByIp oneRowStore ''203.0.113.7'' (Day (noon + 1) * msPerDay) ((Day (noon + 1) + 1) * msPerDay - 1) =
     (Inr 1, received oneRowStore (CountByIp ''203.0.113.7'' (Day (noon + 1) * msPerDay) ((Day (noon + 1) + 1) * msPerDay - 1)))"
  by (simp add: countByIp_def oneRowStore_def pendingFault_def excludedRow_def insertColumns_def
       upsertValues_def emailOnlyPayload_def inWindow_def Day_def msPerDay_def noon_def Let_def)

lemma limited_example:
  "post_waitlist testRuntime limitOneEnv (jsonRequest (emailBody ''ada@example.com'')) (noon + 1) oneRowStore =
    (Inr (jsonResponse False (Some ''rate_limited'') ''Rate limit reached. Please try again tomorrow.'' 429
           [(''Retry-After'', String_ofSeconds (secondsUntilNextUtcDay (noon + 1)))]),
     received oneRowStore (CountByIp ''203.0.113.7'' (Day (noon + 1) * msPerDay) ((Day (noon + 1) + 1) * msPerDay - 1)))"
proof -
  have p: "parseRequestBody (jsonRequest (emailBody ''ada@example.com'')) = Inr (emailBody ''ada@example.com'')"
    by (rule parse_jsonRequest) (simp add: emailBody_def)
  have s: "safeParse testRuntime (normalizePayload testRuntime (emailBody ''ada@example.com''))
            = Some (emailOnlyPayload ''ada@example.com'')"
    by (rule safeParse_emailBody) (simp_all add: trim_ada)
  have n: "0 \<le> noon + 1" "noon + 1 < 8640000000000000" by (simp_all add: noon_def)
  show ?thesis
    by (simp add: post_waitlist_def p s startOfUtcDayIso_eq [OF n] endOfUtcDayIso_eq [OF n]
          ip_jsonRequest count_oneRowStore limit_one emailOnlyPayload_def)
qed

lemma submissions_oneRowStore: "submissionsOfDay oneRowStore ''203.0.113.7'' (noon + 1) = 1"
  by (simp add: submissionsOfDay_def oneRowStore_def excludedRow_def insertColumns_def
       upsertValues_def emailOnlyPayload_def Day_def msPerDay_def noon_def Let_def)

lemma limit_per_day: "parsePositiveInt (Some ''1/day'') 10 = 1"
  by (simp add: parsePositiveInt_def parseInt10_def digitValue_def isWhiteSpace_def
        numberValue_def roundTiesToEven_def Let_def)

lemma limit_rounded: "parsePositiveInt (Some ''9007199254740993'') 10 = 9007199254740992"
  by (simp add: parsePositiveInt_def parseInt10_def digitValue_def isWhiteSpace_def
        numberValue_def roundTiesToEven_example Let_def)

lemma parse_ada:
  "parseRequestBody (jsonRequest (emailBody ''ada@example.com'')) = Inr (emailBody ''ada@example.com'')"
  by (rule parse_jsonRequest) (simp add: emailBody_def)

lemma safeParse_ada:
  "safeParse testRuntime (normalizePayload testRuntime (emailBody ''ada@example.com''))
     = Some (emailOnlyPayload ''ada@example.com'')"
  by (rule safeParse_emailBody) (simp_all add: trim_ada)

lemma not_bot_emailOnly: "\<not> isBot (emailOnlyPayload e)"
  by (simp add: isBot_def emailOnlyPayload_def)

lemma seconds_noon: "String_ofSeconds (secondsUntilNextUtcDay (noon + 1)) = ''43200''"
proof -
  have n: "0 \<le> noon + 1" "Day (noon + 1) < 100000000" by (simp_all add: noon_def Day_def msPerDay_def)
  have "ceilDiv1000 (nextUtcMidnight (noon + 1) - (noon + 1)) = 43200"
    by (simp add: ceilDiv1000_def nextUtcMidnight_def noon_def msPerDay_def)
  moreover have "digits10 (nat 43200) = ''43200''"
    by (simp add: digits10_small digits10_large digitChar_def)
  ultimately show ?thesis
    using secondsUntilNextUtcDay_eq(1) [OF n] by (simp add: String_ofSeconds_def)
qed


lemma toLowerCase_ada: "toLowerCase ''ada@example.com'' = ''ada@example.com''"
  "toLowerCase ''Ada@Example.com'' = ''ada@example.com''"
  by (simp_all add: toLowerCase_def lowerChar_def)

lemma emptyStore_facts:
  "faults emptyStore = []" "rows emptyStore = []" "submissionsOfDay emptyStore ip t = 0"
  by (simp_all add: emptyStore_def submissionsOfDay_def)



subsection \<open>The sanitizer of the additional fields\<close>

lemma map_of_setProp: "map_of (setProp obj k v) k' = (if k' = k then Some v else map_of obj k')"
  by (induction obj) auto

lemma set_setProp: "set (setProp obj k v) \<subseteq> insert (k, v) (set obj)"
  by (induction obj) (auto split: if_splits)

lemma keys_setProp: "map fst (setProp obj k v) = (if k \<in> fst ` set obj then map fst obj else map fst obj @ [k])"
  by (induction obj) (auto split: if_splits simp: rev_image_eqI)

lemma length_setProp: "length (setProp obj k v) \<le> length obj + 1"
  by (induction obj) auto

lemma distinct_setProp: "distinct (map fst obj) \<Longrightarrow> distinct (map fst (setProp obj k v))"
  by (simp add: keys_setProp)

lemma map_of_assignProp:
  "map_of (assignProp obj k v) k' = (if k' = k \<and> k \<noteq> ''__proto__'' then Some v else map_of obj k')"
  by (simp add: assignProp_def map_of_setProp)

lemma set_assignProp: "set (assignProp obj k v) \<subseteq> insert (k, v) (set obj)"
  using set_setProp [of obj k v] by (auto simp: assignProp_def)

lemma length_assignProp: "length (assignProp obj k v) \<le> length obj + 1"
  using length_setProp [of obj k v] by (simp add: assignProp_def)

lemma distinct_assignProp: "distinct (map fst obj) \<Longrightarrow> distinct (map fst (assignProp obj k v))"
  by (simp add: assignProp_def distinct_setProp)

lemma sanitizedFrom_Cons: "sanitizedFrom R es kv \<Longrightarrow> sanitizedFrom R (e # es) kv"
  by (simp add: sanitizedFrom_def)

lemma sanitizeLoop_step:
  "sanitizeLoop R ((rawKey, rawValue) # rest) output count =
     (if count \<ge> 24 then output
      else if take 64 (trim rawKey) = [] then sanitizeLoop R rest output count
      else case stringOfLoose R rawValue of
          None \<Rightarrow> sanitizeLoop R rest output count
        | Some s \<Rightarrow>
            if trim s = [] then sanitizeLoop R rest output count
            else sanitizeLoop R rest (assignProp output (take 64 (trim rawKey)) (take 1200 (trim s))) (count + 1))"
  by (cases rawValue) (simp_all add: stringOfLoose_def Let_def)

declare sanitizeLoop.simps(2) [simp del]

lemma sanitizeLoop_length:
  "length acc \<le> count \<Longrightarrow> length (sanitizeLoop R entries acc count) \<le> max count 24"
proof (induction entries arbitrary: acc count)
  case Nil
  then show ?case by simp
next
  case (Cons e entries)
  obtain rawKey rawValue where e: "e = (rawKey, rawValue)" by (cases e)
  show ?case
  proof (cases "count \<ge> 24")
    case True
    with Cons.prems show ?thesis by (simp add: e sanitizeLoop_step)
  next
    case False
    have skip: "length (sanitizeLoop R entries acc count) \<le> max count 24"
      by (rule Cons.IH [OF Cons.prems])
    have put: "length (sanitizeLoop R entries (assignProp acc k v) (count + 1)) \<le> max count 24" for k v
    proof -
      have "length (assignProp acc k v) \<le> count + 1"
        using length_assignProp [of acc k v] Cons.prems by simp
      from Cons.IH [OF this] False show ?thesis by simp
    qed
    show ?thesis
      using False skip put by (simp add: e sanitizeLoop_step split: option.splits)
  qed
qed

lemma sanitizeLoop_distinct:
  "distinct (map fst acc) \<Longrightarrow> distinct (map fst (sanitizeLoop R entries acc count))"
proof (induction entries arbitrary: acc count)
  case Nil
  then show ?case by simp
next
  case (Cons e entries)
  obtain rawKey rawValue where e: "e = (rawKey, rawValue)" by (cases e)
  have "distinct (map fst (sanitizeLoop R entries (assignProp acc k v) c))" for k v c
    by (rule Cons.IH [OF distinct_assignProp [OF Cons.prems]])
  moreover have "distinct (map fst (sanitizeLoop R entries acc count))"
    by (rule Cons.IH [OF Cons.prems])
  ultimately show ?case
    using Cons.prems by (simp add: e sanitizeLoop_step split: option.splits)
qed

lemma sanitizeLoop_from:
  "kv \<in> set (sanitizeLoop R entries acc count) \<Longrightarrow> kv \<in> set acc \<or> sanitizedFrom R entries kv"
proof (induction entries arbitrary: acc count)
  case Nil
  then show ?case by simp
next
  case (Cons e entries)
  obtain rawKey rawValue where e: "e = (rawKey, rawValue)" by (cases e)
  show ?case
  proof (cases "count \<ge> 24")
    case True
    with Cons.prems show ?thesis by (simp add: e sanitizeLoop_step)
  next
    case False
    note n24 = this
    show ?thesis
    proof (cases "take 64 (trim rawKey) = []")
      case True
      with Cons.prems n24 have "kv \<in> set (sanitizeLoop R entries acc count)"
        by (simp add: e sanitizeLoop_step)
      from Cons.IH [OF this] show ?thesis by (auto intro: sanitizedFrom_Cons)
    next
      case False
      note key = this
      show ?thesis
      proof (cases "stringOfLoose R rawValue")
        case None
        with Cons.prems n24 key have "kv \<in> set (sanitizeLoop R entries acc count)"
          by (simp add: e sanitizeLoop_step)
        from Cons.IH [OF this] show ?thesis by (auto intro: sanitizedFrom_Cons)
      next
        case (Some s)
        show ?thesis
        proof (cases "trim s = []")
          case True
          with Cons.prems n24 key Some have "kv \<in> set (sanitizeLoop R entries acc count)"
            by (simp add: e sanitizeLoop_step)
          from Cons.IH [OF this] show ?thesis by (auto intro: sanitizedFrom_Cons)
        next
          case False
          with Cons.prems n24 key Some
          have "kv \<in> set (sanitizeLoop R entries
                  (assignProp acc (take 64 (trim rawKey)) (take 1200 (trim s))) (count + 1))"
            by (simp add: e sanitizeLoop_step)
          from Cons.IH [OF this]
          have "kv \<in> set (assignProp acc (take 64 (trim rawKey)) (take 1200 (trim s)))
                \<or> sanitizedFrom R entries kv" .
          then show ?thesis
          proof
            assume "kv \<in> set (assignProp acc (take 64 (trim rawKey)) (take 1200 (trim s)))"
            with set_assignProp have "kv = (take 64 (trim rawKey), take 1200 (trim s)) \<or> kv \<in> set acc"
              by fastforce
            then show ?thesis
              using key Some False by (auto simp: sanitizedFrom_def e)
          next
            assume "sanitizedFrom R entries kv"
            then show ?thesis by (auto intro: sanitizedFrom_Cons)
          qed
        qed
      qed
    qed
  qed
qed

lemma map_of_deleteProp: "map_of (deleteProp obj d) k = (if k = d then None else map_of obj k)"
  by (induction obj) (auto simp: deleteProp_def)

lemma sanitizedFrom_bounds:
  "sanitizedFrom R entries kv \<Longrightarrow> length (fst kv) \<le> 64 \<and> length (snd kv) \<le> 1200
     \<and> fst kv \<noteq> [] \<and> snd kv \<noteq> []"
  by (auto simp: sanitizedFrom_def list_ex_iff split: option.splits)

lemma sanitizedFrom_filter: "sanitizedFrom R (filter P entries) kv \<Longrightarrow> sanitizedFrom R entries kv"
  by (auto simp: sanitizedFrom_def list_ex_iff)

lemma sanitizeLoop_entry:
  "sanitizeLoop R (e # rest) acc count =
     (if count \<ge> 24 then acc
      else case looseEntry R e of
          None \<Rightarrow> sanitizeLoop R rest acc count
        | Some kv \<Rightarrow> sanitizeLoop R rest (assignProp acc (fst kv) (snd kv)) (count + 1))"
  by (cases e) (simp add: sanitizeLoop_step looseEntry_def split: option.splits)

lemma map_of_assignProp_upd:
  "map_of (assignProp obj k v) = (if k = ''__proto__'' then map_of obj else (map_of obj)(k \<mapsto> v))"
  by (rule ext) (simp add: map_of_assignProp)

lemma sanitizeLoop_map:
  "map_of (sanitizeLoop R entries acc count) =
     map_of acc ++ map_of (rev (filter (\<lambda>kv. fst kv \<noteq> ''__proto__'')
        (take (24 - count) (List.map_filter (looseEntry R) entries))))"
proof (induction entries arbitrary: acc count)
  case Nil
  then show ?case by (simp add: map_filter_simps)
next
  case (Cons e entries)
  show ?case
  proof (cases "count \<ge> 24")
    case True
    then show ?thesis by (simp add: sanitizeLoop_entry)
  next
    case False
    then have t: "24 - count = Suc (24 - (count + 1))" by simp
    show ?thesis
    proof (cases "looseEntry R e")
      case None
      with False show ?thesis by (simp add: sanitizeLoop_entry Cons.IH map_filter_simps)
    next
      case (Some kv)
      have "map_of (sanitizeLoop R (e # entries) acc count) =
          map_of (assignProp acc (fst kv) (snd kv)) ++ map_of (rev (filter (\<lambda>kv. fst kv \<noteq> ''__proto__'')
            (take (24 - (count + 1)) (List.map_filter (looseEntry R) entries))))"
        using False Some by (simp add: sanitizeLoop_entry Cons.IH)
      also have "\<dots> = map_of acc ++ map_of (rev (filter (\<lambda>kv. fst kv \<noteq> ''__proto__'')
            (take (24 - count) (List.map_filter (looseEntry R) (e # entries)))))"
        unfolding t by (cases kv) (simp add: Some map_filter_simps map_of_assignProp_upd)
      finally show ?thesis .
    qed
  qed
qed

lemma sanitizedAdditionalFields_map:
  assumes "additionalFields payload = Some (filter (\<lambda>kv. fst kv \<noteq> ''__proto__'') entries)"
  shows "map_of (sanitizedAdditionalFields R payload) = sanitizedFields R entries"
proof
  fix k
  show "map_of (sanitizedAdditionalFields R payload) k = sanitizedFields R entries k"
    using assms
    by (simp add: sanitizedAdditionalFields_def sanitizeLooseRecord_def map_of_deleteProp
          sanitizeLoop_map sanitizedFields_def)
qed

lemma normalized_additionalFields:
  "getProp (normalizePayload R raw) ''additionalFields'' =
     parseMetadata R (orElse (orElse (getProp raw ''additionalFields'') (getProp raw ''additional_fields''))
        (getProp raw ''fields''))"
  by (simp add: normalizePayload_def Let_def)

lemma additionalFields_of_record:
  assumes "safeParse R (normalizePayload R raw) = Some payload"
    and "getProp raw ''additionalFields'' = JObj entries"
  shows "additionalFields payload = Some (filter (\<lambda>kv. fst kv \<noteq> ''__proto__'') entries)"
  using safeParse_additionalFields [OF assms(1)] assms(2)
  by (simp add: normalized_additionalFields zRecord_def)

lemma map_of_JStr:
  "map_of (map (\<lambda>(k, v). (k, JStr v)) S) k = map_option JStr (map_of S k)"
  by (induction S) auto

lemma getProp_sanitized:
  "getProp (JObj (map (\<lambda>(k, v). (k, JStr v)) S)) k =
     (case map_of S k of None \<Rightarrow> JUndefined | Some v \<Rightarrow> JStr v)"
  by (simp add: map_of_JStr split: option.splits)

subsection \<open>Validation and the bot filter\<close>

text \<open>
  Claim C9. The schema is checked before the honeypot is looked at. A submission that fails
  validation is answered with 400 and the error \<^verbatim>\<open>invalid_payload\<close>, whatever its honeypot
  field holds: so it is when the honeypot is longer than 200 characters after trimming, when
  the email is missing (no text, or white space only) and when the email is no address. The
  fake success, status 200, is answered only to a submission that parsed, passed the whole
  schema and has the honeypot filled in.
\<close>

theorem validation_before_honeypot:
  "(\<forall>raw. parseRequestBody request = Inr raw \<and> safeParse R (normalizePayload R raw) = None
      \<longrightarrow> post_waitlist R env request now db =
           (Inr (jsonResponse False (Some ''invalid_payload'') ''Please submit a valid email address.'' 400 []), db))
   \<and> (\<forall>raw w. getProp raw ''website'' = JStr w \<and> 200 < length (trim w)
      \<longrightarrow> safeParse R (normalizePayload R raw) = None)
   \<and> (\<forall>raw. toOptionalString (getProp raw ''email'') = None
      \<longrightarrow> safeParse R (normalizePayload R raw) = None)
   \<and> (\<forall>raw e. getProp raw ''email'' = JStr e \<and> \<not> zodEmail R (trim e)
      \<longrightarrow> safeParse R (normalizePayload R raw) = None)
   \<and> (\<forall>resp db'. post_waitlist R env request now db = (Inr resp, db') \<and> status resp = 200
      \<longrightarrow> (\<exists>raw payload. parseRequestBody request = Inr raw
             \<and> safeParse R (normalizePayload R raw) = Some payload \<and> isBot payload))"
proof (intro conjI allI impI)
  fix raw
  assume "parseRequestBody request = Inr raw \<and> safeParse R (normalizePayload R raw) = None"
  then show "post_waitlist R env request now db =
     (Inr (jsonResponse False (Some ''invalid_payload'') ''Please submit a valid email address.'' 400 []), db)"
    by (simp add: invalid_is_400)
next
  fix raw :: "'a jsval" and w
  assume a: "getProp raw ''website'' = JStr w \<and> 200 < length (trim w)"
  then have "trim w \<noteq> []" by auto
  with a have "getProp (normalizePayload R raw) ''website'' = JStr (trim w)"
    by (simp add: normalized_website optString_def)
  with a have "zStringMax 200 (getProp (normalizePayload R raw) ''website'') = None"
    by (simp add: zStringMax_def trim_idem)
  then show "safeParse R (normalizePayload R raw) = None"
    using safeParse_iff [of R "normalizePayload R raw"] by (simp add: optionalFieldsValid_def)
next
  fix raw :: "'a jsval"
  assume "toOptionalString (getProp raw ''email'') = None"
  then have "zEmailMax R (getProp (normalizePayload R raw) ''email'') = None"
    by (simp add: normalized_email optString_def zEmailMax_def)
  then show "safeParse R (normalizePayload R raw) = None"
    using safeParse_iff [of R "normalizePayload R raw"] by simp
next
  fix raw :: "'a jsval" and e
  assume a: "getProp raw ''email'' = JStr e \<and> \<not> zodEmail R (trim e)"
  have "zEmailMax R (getProp (normalizePayload R raw) ''email'') = None"
    using a by (simp add: normalized_email optString_def zEmailMax_def trim_idem Let_def)
  then show "safeParse R (normalizePayload R raw) = None"
    using safeParse_iff [of R "normalizePayload R raw"] by simp
next
  fix resp db'
  assume a: "post_waitlist R env request now db = (Inr resp, db') \<and> status resp = 200"
  then obtain raw where raw: "parseRequestBody request = Inr raw"
    by (cases "parseRequestBody request") (auto simp: post_waitlist_def)
  from a raw obtain payload where p: "safeParse R (normalizePayload R raw) = Some payload"
    by (cases "safeParse R (normalizePayload R raw)") (auto simp: post_waitlist_def jsonResponse_def)
  from a have "post_waitlist R env request now db = (Inr resp, db')" and "status resp = 200" by auto
  with valid_not_400 [OF raw p, of env now db resp db'] have "isBot payload" by auto
  with raw p show "\<exists>raw payload. parseRequestBody request = Inr raw
             \<and> safeParse R (normalizePayload R raw) = Some payload \<and> isBot payload" by blast
qed

theorem validation_before_honeypot_witness:
  "getProp longHoneypotBody ''website'' = JStr (replicate 201 (CHR ''x''))
   \<and> post_waitlist testRuntime testEnv (jsonRequest longHoneypotBody) noon emptyStore =
       (Inr (jsonResponse False (Some ''invalid_payload'') ''Please submit a valid email address.'' 400 []),
        emptyStore)"
proof -
  have t: "trim (replicate 201 (CHR ''x'')) = replicate 201 (CHR ''x'')"
    by (rule trim_id) (simp add: isWhiteSpace_def)
  have w: "getProp longHoneypotBody ''website'' = JStr (replicate 201 (CHR ''x''))"
    by (simp add: longHoneypotBody_def)
  have p: "parseRequestBody (jsonRequest longHoneypotBody) = Inr longHoneypotBody"
    by (rule parse_jsonRequest) (simp add: longHoneypotBody_def)
  show ?thesis
    using validation_before_honeypot [of "jsonRequest longHoneypotBody" testRuntime testEnv noon emptyStore]
      w p t by auto
qed

text \<open>
  Claim C3, as the handler has it. A filled-in honeypot alone does not give the fake success:
  the submission below has one and no email, and is answered with 400.
\<close>

theorem honeypot_invalid_counterexample:
  "parseRequestBody (jsonRequest honeypotOnlyBody) = Inr honeypotOnlyBody
   \<and> toOptionalString (getProp honeypotOnlyBody ''website'') = Some ''http://spam.example''
   \<and> fst (post_waitlist testRuntime testEnv (jsonRequest honeypotOnlyBody) noon emptyStore) =
       Inr (jsonResponse False (Some ''invalid_payload'') ''Please submit a valid email address.'' 400 [])"
proof -
  have p: "parseRequestBody (jsonRequest honeypotOnlyBody) = Inr honeypotOnlyBody"
    by (rule parse_jsonRequest) (simp add: honeypotOnlyBody_def)
  have w: "toOptionalString (getProp honeypotOnlyBody ''website'') = Some ''http://spam.example''"
    by (simp add: honeypotOnlyBody_def trim_def isWhiteSpace_def)
  have "toOptionalString (getProp honeypotOnlyBody ''email'') = None"
    by (simp add: honeypotOnlyBody_def)
  then have "zEmailMax testRuntime (getProp (normalizePayload testRuntime honeypotOnlyBody) ''email'') = None"
    by (simp add: normalized_email optString_def zEmailMax_def)
  then have "safeParse testRuntime (normalizePayload testRuntime honeypotOnlyBody) = None"
    using safeParse_iff [of testRuntime "normalizePayload testRuntime honeypotOnlyBody"] by simp
  with p w show ?thesis by (simp add: invalid_is_400)
qed

text \<open>
  Claim C3, amended. For every submission that passes the schema and whose honeypot field
  \<^verbatim>\<open>website\<close> is a text that is not empty after trimming, the handler answers 200 with
  \<^verbatim>\<open>ok: true\<close> and the thanks message, and leaves the store as it was: no row is written,
  no statement reaches the store, and no IP's count of the day changes.
\<close>

theorem honeypot_fake_success:
  assumes "parseRequestBody request = Inr raw"
    and "safeParse R (normalizePayload R raw) = Some payload"
    and "getProp raw ''website'' = JStr w"
    and "trim w \<noteq> []"
  shows "post_waitlist R env request now db =
           (Inr (jsonResponse True None ''Thanks for your interest.'' 200 []), db)
         \<and> rows (snd (post_waitlist R env request now db)) = rows db
         \<and> journal (snd (post_waitlist R env request now db)) = journal db
         \<and> submissionsOfDay (snd (post_waitlist R env request now db)) ip t = submissionsOfDay db ip t"
proof -
  have "getProp (normalizePayload R raw) ''website'' = JStr (trim w)"
    using assms(3,4) by (simp add: normalized_website optString_def)
  with safeParse_website [OF assms(2)]
  have "zStringMax 200 (JStr (trim w) :: 'a jsval) = Some (website payload)" by simp
  then have "website payload = Some (trim w)"
    by (auto simp: zStringMax_def trim_idem Let_def split: if_splits)
  with assms(4) have "isBot payload" by (simp add: isBot_def)
  from bot_is_200 [OF assms(1,2) this] show ?thesis by simp
qed

theorem honeypot_fake_success_witness:
  "getProp botBody ''website'' = JStr ''http://spam.example''
   \<and> trim ''http://spam.example'' = ''http://spam.example''
   \<and> post_waitlist testRuntime testEnv (jsonRequest botBody) noon emptyStore =
       (Inr (jsonResponse True None ''Thanks for your interest.'' 200 []), emptyStore)"
proof -
  have p: "parseRequestBody (jsonRequest botBody) = Inr botBody"
    by (rule parse_jsonRequest) (simp add: botBody_def)
  have w: "getProp botBody ''website'' = JStr ''http://spam.example''"
    by (simp add: botBody_def)
  have t: "trim ''http://spam.example'' = ''http://spam.example''"
    by (rule trim_id) (simp add: isWhiteSpace_def)
  then have n: "trim ''http://spam.example'' \<noteq> []" by simp
  have "zEmailMax testRuntime (getProp (normalizePayload testRuntime botBody) ''email'') \<noteq> None"
    by (simp add: normalizePayload_def botBody_def optString_def zEmailMax_def trim_def isWhiteSpace_def
        testRuntime_def Let_def)
  moreover have "optionalFieldsValid testRuntime (normalizePayload testRuntime botBody)"
    by (simp add: optionalFieldsValid_def normalizePayload_def botBody_def optString_def optNumber_def
        optBoolean_def toOptionalInteger_def zStringMax_def zUrlMax_def zEnum_def zBoolean_def
        zNumberRange_def zRecord_def trim_def isWhiteSpace_def Let_def)
  ultimately obtain payload where
    "safeParse testRuntime (normalizePayload testRuntime botBody) = Some payload"
    using safeParse_iff [of testRuntime "normalizePayload testRuntime botBody"] by auto
  from honeypot_fake_success [OF p this w n] w t show ?thesis by simp
qed

subsection \<open>The body parser\<close>

lemma parseRequestBody_json_total:
  assumes "includes_str (case req_headers request ''content-type'' of None \<Rightarrow> [] | Some v \<Rightarrow> v) ''application/json''"
  shows "parseRequestBody request =
           Inr (case req_json request of
                  None \<Rightarrow> JObj []
                | Some v \<Rightarrow> if isRecord v then v else JObj [])"
  using assms by (simp add: parseRequestBody_def Let_def split: option.splits)

lemma parseRequestBody_other_empty:
  assumes "\<not> includes_str (case req_headers request ''content-type'' of None \<Rightarrow> [] | Some v \<Rightarrow> v) ''application/json''"
    and "\<not> includes_str (case req_headers request ''content-type'' of None \<Rightarrow> [] | Some v \<Rightarrow> v) ''application/x-www-form-urlencoded''"
    and "\<not> includes_str (case req_headers request ''content-type'' of None \<Rightarrow> [] | Some v \<Rightarrow> v) ''multipart/form-data''"
  shows "parseRequestBody request = Inr (JObj [])"
  using assms by (simp add: parseRequestBody_def Let_def)

lemma empty_body_invalid: "safeParse R (normalizePayload R (JObj [])) = None"
proof -
  have "zEmailMax R (getProp (normalizePayload R (JObj [])) ''email'') = None"
    by (simp add: normalized_email optString_def zEmailMax_def)
  then show ?thesis using safeParse_iff [of R "normalizePayload R (JObj [])"] by simp
qed

text \<open>
  Claim C5 says that the body parser returns a structure for every request and never throws.
  It does for a JSON body (a failed parse and a result that is no object give the empty
  structure, lemma \<open>parseRequestBody_json_total\<close>) and for a content type that is neither
  JSON nor a form (lemma \<open>parseRequestBody_other_empty\<close>; the empty structure then fails
  validation, lemma \<open>empty_body_invalid\<close>). For a form it awaits \<^verbatim>\<open>request.formData()\<close>
  with no handler for its rejection: a request that declares \<^verbatim>\<open>multipart/form-data\<close> and
  whose body is no such form makes the parser, and the handler with it, throw.
\<close>

theorem parseRequestBody_multipart_throws:
  "parseRequestBody brokenMultipartRequest = Inl (JsError ''TypeError'' ''Failed to parse body as FormData.'')
   \<and> post_waitlist testRuntime testEnv brokenMultipartRequest noon emptyStore
       = (Inl (JsError ''TypeError'' ''Failed to parse body as FormData.''), emptyStore)"
  by (simp add: post_waitlist_def parseRequestBody_def brokenMultipartRequest_def startsWith_def)

subsection \<open>The email boundary\<close>

lemma emailBody_optional_valid:
  "optionalFieldsValid testRuntime (normalizePayload testRuntime (emailBody e))"
  by (simp add: optionalFieldsValid_def normalizePayload_def emailBody_def optString_def optNumber_def
        optBoolean_def toOptionalInteger_def zStringMax_def zUrlMax_def zEnum_def zBoolean_def
        zNumberRange_def zRecord_def Let_def)

text \<open>
  Claim C8. For every submission whose \<^verbatim>\<open>email\<close> field is a text: if the text is white
  space only, the normalizer makes the field absent and the handler answers 400; if the
  trimmed text has 321 characters the handler answers 400; if the trimmed text has 320
  characters and is an address, the schema accepts it as the payload's email, and the
  handler does not answer 400 unless another field fails its own check.
\<close>

theorem email_length_boundary:
  assumes "parseRequestBody request = Inr raw" and "getProp raw ''email'' = JStr s"
  shows "(trim s = [] \<longrightarrow>
            getProp (normalizePayload R raw) ''email'' = JUndefined
            \<and> post_waitlist R env request now db =
                (Inr (jsonResponse False (Some ''invalid_payload'') ''Please submit a valid email address.'' 400 []), db))
       \<and> (length (trim s) = 321 \<longrightarrow>
            post_waitlist R env request now db =
              (Inr (jsonResponse False (Some ''invalid_payload'') ''Please submit a valid email address.'' 400 []), db))
       \<and> (length (trim s) = 320 \<and> zodEmail R (trim s) \<and> optionalFieldsValid R (normalizePayload R raw) \<longrightarrow>
            (\<exists>payload. safeParse R (normalizePayload R raw) = Some payload \<and> email payload = trim s)
            \<and> (\<forall>resp db'. post_waitlist R env request now db = (Inr resp, db') \<longrightarrow> status resp \<noteq> 400))"
proof (intro conjI impI)
  assume e: "trim s = []"
  then show u: "getProp (normalizePayload R raw) ''email'' = JUndefined"
    using assms(2) by (simp add: normalized_email optString_def)
  then have "zEmailMax R (getProp (normalizePayload R raw) ''email'') = None"
    by (simp add: zEmailMax_def)
  then have "safeParse R (normalizePayload R raw) = None"
    using safeParse_iff [of R "normalizePayload R raw"] by simp
  with assms(1) show "post_waitlist R env request now db =
      (Inr (jsonResponse False (Some ''invalid_payload'') ''Please submit a valid email address.'' 400 []), db)"
    by (rule invalid_is_400)
next
  assume l: "length (trim s) = 321"
  then have "trim s \<noteq> []" by auto
  then have "getProp (normalizePayload R raw) ''email'' = JStr (trim s)"
    using assms(2) by (simp add: normalized_email optString_def)
  with l have "zEmailMax R (getProp (normalizePayload R raw) ''email'') = None"
    by (simp add: zEmailMax_def trim_idem Let_def)
  then have "safeParse R (normalizePayload R raw) = None"
    using safeParse_iff [of R "normalizePayload R raw"] by simp
  with assms(1) show "post_waitlist R env request now db =
      (Inr (jsonResponse False (Some ''invalid_payload'') ''Please submit a valid email address.'' 400 []), db)"
    by (rule invalid_is_400)
next
  assume a: "length (trim s) = 320 \<and> zodEmail R (trim s) \<and> optionalFieldsValid R (normalizePayload R raw)"
  then have "trim s \<noteq> []" by auto
  then have "getProp (normalizePayload R raw) ''email'' = JStr (trim s)"
    using assms(2) by (simp add: normalized_email optString_def)
  with a have z: "zEmailMax R (getProp (normalizePayload R raw) ''email'') = Some (trim s)"
    by (simp add: zEmailMax_def trim_idem Let_def)
  with a obtain payload where p: "safeParse R (normalizePayload R raw) = Some payload"
    using safeParse_iff [of R "normalizePayload R raw"] by auto
  with z safeParse_email [OF p] show "\<exists>payload. safeParse R (normalizePayload R raw) = Some payload \<and> email payload = trim s"
    by auto
  show "\<forall>resp db'. post_waitlist R env request now db = (Inr resp, db') \<longrightarrow> status resp \<noteq> 400"
    using valid_not_400 [OF assms(1) p] by fastforce
qed

theorem email_length_boundary_witness:
  "trim ''   '' = []
   \<and> post_waitlist testRuntime testEnv (jsonRequest (emailBody ''   '')) noon emptyStore =
       (Inr (jsonResponse False (Some ''invalid_payload'') ''Please submit a valid email address.'' 400 []), emptyStore)
   \<and> length (trim (CHR ''a'' # longestEmail)) = 321
   \<and> post_waitlist testRuntime testEnv (jsonRequest (emailBody (CHR ''a'' # longestEmail))) noon emptyStore =
       (Inr (jsonResponse False (Some ''invalid_payload'') ''Please submit a valid email address.'' 400 []), emptyStore)
   \<and> length (trim longestEmail) = 320
   \<and> zodEmail testRuntime (trim longestEmail)
   \<and> (\<exists>payload. safeParse testRuntime (normalizePayload testRuntime (emailBody longestEmail)) = Some payload
         \<and> email payload = longestEmail)"
proof -
  have p: "parseRequestBody (jsonRequest (emailBody e)) = Inr (emailBody e)" for e
    by (rule parse_jsonRequest) (simp add: emailBody_def)
  have g: "getProp (emailBody e) ''email'' = JStr e" for e
    by (simp add: emailBody_def)
  have t0: "trim ''   '' = []" by (simp add: trim_def isWhiteSpace_def)
  have t1: "trim longestEmail = longestEmail"
    by (rule trim_id) (simp add: longestEmail_def isWhiteSpace_def)
  have t2: "trim (CHR ''a'' # longestEmail) = CHR ''a'' # longestEmail"
    by (rule trim_id) (simp add: longestEmail_def isWhiteSpace_def)
  have l: "length longestEmail = 320" by (simp add: longestEmail_def)
  have z: "zodEmail testRuntime longestEmail" by (simp add: testRuntime_def longestEmail_def)
  show ?thesis
    using email_length_boundary [OF p g, of "''   ''" testRuntime testEnv noon emptyStore]
      email_length_boundary [OF p g, of "CHR ''a'' # longestEmail" testRuntime testEnv noon emptyStore]
      email_length_boundary [OF p g, of longestEmail testRuntime testEnv noon emptyStore]
      emailBody_optional_valid [of longestEmail] t0 t1 t2 l z
    by simp
qed

subsection \<open>The retry hint\<close>

text \<open>
  Claim C6. For every request that is answered 429, received at an instant \<open>now\<close> at or after
  the epoch, the \<^verbatim>\<open>Retry-After\<close> header is the decimal text of
  \<open>\<lceil>(nextUtcMidnight now - now) / 1000\<rceil>\<close>, and that number is at least 1; here
  \<open>nextUtcMidnight now\<close> is the first start of a UTC day after \<open>now\<close>. (A \<^verbatim>\<open>Date\<close>
  reads a year from 0 to 99 as 1900 + year, so the instants of those years are left out.)
\<close>

theorem retry_after_seconds:
  assumes "post_waitlist R env request now db = (Inr resp, db')"
    and "status resp = 429"
    and "0 \<le> now"
  shows "map_of (resp_headers resp) ''Retry-After'' =
           Some (digits10 (nat \<lceil>real_of_int (nextUtcMidnight now - now) / 1000\<rceil>))
         \<and> 1 \<le> \<lceil>real_of_int (nextUtcMidnight now - now) / 1000\<rceil>
         \<and> nextUtcMidnight now mod msPerDay = 0 \<and> now < nextUtcMidnight now
         \<and> (\<forall>m. m mod msPerDay = 0 \<and> now < m \<longrightarrow> nextUtcMidnight now \<le> m)"
proof -
  from rate_limited_cases [OF assms(1,2)] obtain dayEnd where
    e: "endOfUtcDayIso now = Inr dayEnd" and
    r: "resp = jsonResponse False (Some ''rate_limited'')
                    ''Rate limit reached. Please try again tomorrow.'' 429
                    [(''Retry-After'', String_ofSeconds (secondsUntilNextUtcDay now))]"
    by blast
  have d: "Day now < 100000000" by (rule endOfUtcDayIso_valid [OF assms(3) e])
  note s = secondsUntilNextUtcDay_eq [OF assms(3) d]
  have "String_ofSeconds (secondsUntilNextUtcDay now) = digits10 (nat (ceilDiv1000 (nextUtcMidnight now - now)))"
    using s by (simp add: String_ofSeconds_def)
  then show ?thesis
    using r s(2) nextUtcMidnight_least [of now]
    by (simp add: jsonResponse_def ceilDiv1000_ceiling)
qed

theorem retry_after_seconds_witness:
  "0 \<le> noon + 1
   \<and> (\<exists>resp db'. post_waitlist testRuntime limitOneEnv (jsonRequest (emailBody ''ada@example.com''))
                  (noon + 1) oneRowStore = (Inr resp, db')
        \<and> status resp = 429
        \<and> map_of (resp_headers resp) ''Retry-After'' = Some ''43200'')"
proof -
  have n: "0 \<le> noon + 1" by (simp add: noon_def)
  have d: "\<lceil>real_of_int (nextUtcMidnight (noon + 1) - (noon + 1)) / 1000\<rceil> = 43200"
    by (simp add: nextUtcMidnight_def noon_def msPerDay_def)
  have "digits10 (nat 43200) = ''43200''"
    by (simp add: digits10_small digits10_large digitChar_def)
  with d retry_after_seconds [OF limited_example _ n] n limited_example show ?thesis
    by (simp add: jsonResponse_def)
qed

subsection \<open>The rate limiter\<close>

text \<open>
  Claim C1, amended. Let \<open>N\<close> be the ceiling the handler reads from the configuration, \<open>ip\<close>
  the connecting IP and \<open>now\<close> the instant of receipt, from the epoch on. For a valid
  submission that is no bot and a store that raises no fault: while the number of rows whose
  \<^verbatim>\<open>ip_address\<close> is \<open>ip\<close> and whose \<^verbatim>\<open>created_at\<close> lies in the UTC day of \<open>now\<close> is below
  \<open>N\<close>, the submission succeeds with 201; when that number is at least \<open>N\<close>, it is rejected
  with 429 and no row changes; the email plays no part. \<open>N\<close> is at least 1. It is the default
  10 when the configured value is missing or empty, when it has no leading decimal integer
  \<open>k\<close> (after white space and a sign), when \<open>k\<close> is below 1, and when \<open>k\<close> is
  \<open>2 ^ 1024 - 2 ^ 970\<close> or more, which is infinite as a number. Otherwise \<open>N\<close> is the Number
  value of \<open>k\<close>, whatever follows the digits: the number nearest to \<open>k\<close>, that is a product
  of an integer below \<open>2 ^ 53\<close> and a power of two from which \<open>k\<close> is no farther than from any
  other such product, and of two nearest ones the one \<open>roundTiesToEven\<close> takes; it is \<open>k\<close>
  itself when \<open>k\<close> is at most \<open>2 ^ 53\<close>.
\<close>

theorem rate_limit_per_ip_and_day:
  assumes "parseRequestBody request = Inr raw"
    and "safeParse R (normalizePayload R raw) = Some payload"
    and "\<not> isBot payload"
    and "0 \<le> now" and "now < 8640000000000000"
    and "faults db = []"
    and "N = parsePositiveInt (WAITLIST_RATE_LIMIT_PER_DAY env) 10"
    and "ip = getConnectingIp (req_headers request)"
  shows "(int (submissionsOfDay db ip now) < N \<longrightarrow>
            fst (post_waitlist R env request now db) =
              Inr (jsonResponse True None ''You are on the waitlist.'' 201 []))
       \<and> (N \<le> int (submissionsOfDay db ip now) \<longrightarrow>
            fst (post_waitlist R env request now db) =
              Inr (jsonResponse False (Some ''rate_limited'')
                     ''Rate limit reached. Please try again tomorrow.'' 429
                     [(''Retry-After'', String_ofSeconds (secondsUntilNextUtcDay now))])
            \<and> rows (snd (post_waitlist R env request now db)) = rows db)
       \<and> 1 \<le> N
       \<and> (WAITLIST_RATE_LIMIT_PER_DAY env = None \<or> WAITLIST_RATE_LIMIT_PER_DAY env = Some [] \<longrightarrow> N = 10)
       \<and> (\<forall>v. WAITLIST_RATE_LIMIT_PER_DAY env = Some v \<and> parseInt10 v = None \<longrightarrow> N = 10)
       \<and> (\<forall>v k. WAITLIST_RATE_LIMIT_PER_DAY env = Some v \<and> parseInt10 v = Some k \<and> k < 1 \<longrightarrow> N = 10)
       \<and> (\<forall>v k. WAITLIST_RATE_LIMIT_PER_DAY env = Some v \<and> parseInt10 v = Some k
               \<and> 2 ^ 1024 - 2 ^ 970 \<le> k \<longrightarrow> N = 10)
       \<and> (\<forall>v k. WAITLIST_RATE_LIMIT_PER_DAY env = Some v \<and> v \<noteq> [] \<and> parseInt10 v = Some k
               \<and> 1 \<le> k \<and> k < 2 ^ 1024 - 2 ^ 970 \<longrightarrow> roundTiesToEven k = Some N)
       \<and> (\<forall>v k. WAITLIST_RATE_LIMIT_PER_DAY env = Some v \<and> v \<noteq> [] \<and> parseInt10 v = Some k
               \<and> 1 \<le> k \<and> k < 2 ^ 1024 - 2 ^ 970 \<longrightarrow>
               (\<exists>m e. \<bar>m\<bar> < 2 ^ 53 \<and> N = m * 2 ^ e)
             \<and> (\<forall>m e. \<bar>m\<bar> < 2 ^ 53 \<longrightarrow> \<bar>N - k\<bar> \<le> \<bar>m * 2 ^ e - k\<bar>))
       \<and> (\<forall>v k. WAITLIST_RATE_LIMIT_PER_DAY env = Some v \<and> v \<noteq> [] \<and> parseInt10 v = Some k
               \<and> 1 \<le> k \<and> k \<le> 2 ^ 53 \<longrightarrow> N = k)"
proof -
  let ?db1 = "received db (CountByIp ip (Day now * msPerDay) ((Day now + 1) * msPerDay - 1))"
  have c: "countByIp db (getConnectingIp (req_headers request)) (Day now * msPerDay) ((Day now + 1) * msPerDay - 1)
            = (Inr (submissionsOfDay db ip now), ?db1)"
    using countByIp_day [OF pendingFault_Nil [OF assms(6)]] assms(8) by simp
  note r = reaches_limiter [OF assms(1-3) startOfUtcDayIso_eq [OF assms(4,5)]
      endOfUtcDayIso_eq [OF assms(4,5)] c, of env, folded assms(7)]
  have f: "faults ?db1 = []" using assms(6) by simp
  from upsertEntry_healthy [OF f, of R request payload "getConnectingIp (req_headers request)" now]
  obtain db2 where u: "upsertEntry R ?db1
      (upsertValues R request payload (getConnectingIp (req_headers request)) now)
      (getConnectingIp (req_headers request)) = (Inr (), db2)" by blast
  have 1: "int (submissionsOfDay db ip now) < N \<longrightarrow>
            fst (post_waitlist R env request now db) =
              Inr (jsonResponse True None ''You are on the waitlist.'' 201 [])"
    using r u by simp
  have 2: "N \<le> int (submissionsOfDay db ip now) \<longrightarrow>
            fst (post_waitlist R env request now db) =
              Inr (jsonResponse False (Some ''rate_limited'')
                     ''Rate limit reached. Please try again tomorrow.'' 429
                     [(''Retry-After'', String_ofSeconds (secondsUntilNextUtcDay now))])
            \<and> rows (snd (post_waitlist R env request now db)) = rows db"
    using r by simp
  have 3: "1 \<le> N" unfolding assms(7) by (rule parsePositiveInt_ge_1) simp
  have 4: "WAITLIST_RATE_LIMIT_PER_DAY env = None \<or> WAITLIST_RATE_LIMIT_PER_DAY env = Some [] \<longrightarrow> N = 10"
    unfolding assms(7) by (auto simp: parsePositiveInt_def)
  have 5: "\<forall>v. WAITLIST_RATE_LIMIT_PER_DAY env = Some v \<and> parseInt10 v = None \<longrightarrow> N = 10"
    unfolding assms(7) by (auto simp: parsePositiveInt_def)
  have 6: "\<forall>v k. WAITLIST_RATE_LIMIT_PER_DAY env = Some v \<and> parseInt10 v = Some k \<and> k < 1 \<longrightarrow> N = 10"
  proof (intro allI impI)
    fix v k
    assume a: "WAITLIST_RATE_LIMIT_PER_DAY env = Some v \<and> parseInt10 v = Some k \<and> k < 1"
    then have "numberValue k = None \<or> (\<exists>d. numberValue k = Some d \<and> d < 1)"
      using numberValue_nonpositive [of k] by (cases "numberValue k") auto
    with a show "N = 10" unfolding assms(7) by (auto simp: parsePositiveInt_def)
  qed
  have 7: "\<forall>v k. WAITLIST_RATE_LIMIT_PER_DAY env = Some v \<and> parseInt10 v = Some k
               \<and> 2 ^ 1024 - 2 ^ 970 \<le> k \<longrightarrow> N = 10"
  proof (intro allI impI)
    fix v k
    assume a: "WAITLIST_RATE_LIMIT_PER_DAY env = Some v \<and> parseInt10 v = Some k
               \<and> 2 ^ 1024 - 2 ^ 970 \<le> k"
    have "(0::int) \<le> 2 ^ 1024 - 2 ^ 970" by simp
    with a have k0: "0 \<le> k" by linarith
    from a roundTiesToEven_overflow [OF k0] have "numberValue k = None"
      by (simp only: numberValue_positive [OF k0])
    with a show "N = 10" unfolding assms(7) by (simp add: parsePositiveInt_def)
  qed
  have fin: "\<exists>d. numberValue k = Some d \<and> N = d \<and> roundTiesToEven k = Some d"
    if a: "WAITLIST_RATE_LIMIT_PER_DAY env = Some v" "v \<noteq> []" "parseInt10 v = Some k"
      "1 \<le> k" "k < 2 ^ 1024 - 2 ^ 970" for v k
  proof -
    from a(4) have k0: "0 \<le> k" by simp
    from a(5) have "\<not> 2 ^ 1024 - 2 ^ 970 \<le> k" by simp
    with roundTiesToEven_overflow [OF k0] obtain d where d: "roundTiesToEven k = Some d"
      by (cases "roundTiesToEven k") (simp_all only: simp_thms option.simps)
    from roundTiesToEven_ge [OF d a(4)] have "\<not> d < 1" by simp
    with d a(1-3) show ?thesis
      unfolding assms(7) by (simp add: parsePositiveInt_def numberValue_positive [OF k0])
  qed
  have 8: "\<forall>v k. WAITLIST_RATE_LIMIT_PER_DAY env = Some v \<and> v \<noteq> [] \<and> parseInt10 v = Some k
               \<and> 1 \<le> k \<and> k < 2 ^ 1024 - 2 ^ 970 \<longrightarrow> roundTiesToEven k = Some N"
  proof (intro allI impI)
    fix v k
    assume a: "WAITLIST_RATE_LIMIT_PER_DAY env = Some v \<and> v \<noteq> [] \<and> parseInt10 v = Some k
               \<and> 1 \<le> k \<and> k < 2 ^ 1024 - 2 ^ 970"
    then have b: "WAITLIST_RATE_LIMIT_PER_DAY env = Some v" "v \<noteq> []" "parseInt10 v = Some k"
      "1 \<le> k" "k < 2 ^ 1024 - 2 ^ 970" by simp_all
    from fin [OF b] show "roundTiesToEven k = Some N" by blast
  qed
  have 10: "\<forall>v k. WAITLIST_RATE_LIMIT_PER_DAY env = Some v \<and> v \<noteq> [] \<and> parseInt10 v = Some k
               \<and> 1 \<le> k \<and> k < 2 ^ 1024 - 2 ^ 970 \<longrightarrow>
               (\<exists>m e. \<bar>m\<bar> < 2 ^ 53 \<and> N = m * 2 ^ e)
             \<and> (\<forall>m e. \<bar>m\<bar> < 2 ^ 53 \<longrightarrow> \<bar>N - k\<bar> \<le> \<bar>m * 2 ^ e - k\<bar>)"
  proof (intro allI impI)
    fix v k
    assume a: "WAITLIST_RATE_LIMIT_PER_DAY env = Some v \<and> v \<noteq> [] \<and> parseInt10 v = Some k
               \<and> 1 \<le> k \<and> k < 2 ^ 1024 - 2 ^ 970"
    then have b: "WAITLIST_RATE_LIMIT_PER_DAY env = Some v" "v \<noteq> []" "parseInt10 v = Some k"
      "1 \<le> k" "k < 2 ^ 1024 - 2 ^ 970" by simp_all
    from fin [OF b] obtain d where d: "N = d" "roundTiesToEven k = Some d" by blast
    from b(4) have k0: "0 \<le> k" by simp
    have "\<exists>m e. \<bar>m\<bar> < 2 ^ 53 \<and> N = m * 2 ^ e"
      unfolding d(1) by (rule roundTiesToEven_is_double [OF d(2) k0])
    moreover have "\<forall>m e. \<bar>m\<bar> < 2 ^ 53 \<longrightarrow> \<bar>N - k\<bar> \<le> \<bar>m * 2 ^ e - k\<bar>"
      unfolding d(1) by (intro allI impI) (rule roundTiesToEven_nearest [OF d(2)])
    ultimately show "(\<exists>m e. \<bar>m\<bar> < 2 ^ 53 \<and> N = m * 2 ^ e)
             \<and> (\<forall>m e. \<bar>m\<bar> < 2 ^ 53 \<longrightarrow> \<bar>N - k\<bar> \<le> \<bar>m * 2 ^ e - k\<bar>)" by (rule conjI)
  qed
  have 9: "\<forall>v k. WAITLIST_RATE_LIMIT_PER_DAY env = Some v \<and> v \<noteq> [] \<and> parseInt10 v = Some k
               \<and> 1 \<le> k \<and> k \<le> 2 ^ 53 \<longrightarrow> N = k"
  proof (intro allI impI)
    fix v k
    assume a: "WAITLIST_RATE_LIMIT_PER_DAY env = Some v \<and> v \<noteq> [] \<and> parseInt10 v = Some k
               \<and> 1 \<le> k \<and> k \<le> 2 ^ 53"
    have "(2::int) ^ 53 < 2 ^ 1024 - 2 ^ 970" by simp
    with a have b: "WAITLIST_RATE_LIMIT_PER_DAY env = Some v" "v \<noteq> []" "parseInt10 v = Some k"
      "1 \<le> k" "k < 2 ^ 1024 - 2 ^ 970" by simp_all
    from fin [OF b] obtain d where d: "N = d" "roundTiesToEven k = Some d" by blast
    show "N = k"
    proof (cases "k < 2 ^ 53")
      case True
      with d show ?thesis by (simp add: roundTiesToEven_small del: power_numeral)
    next
      case False
      with a have k: "k = 2 ^ 52 * 2 ^ 1" by simp
      have "\<bar>2 ^ 52 :: int\<bar> < 2 ^ 53" by simp
      from roundTiesToEven_exact [OF d(2) this k] d(1) show ?thesis by simp
    qed
  qed
  from 1 2 3 4 5 6 7 8 10 9 show ?thesis by (intro conjI)
qed

theorem rate_limit_per_ip_and_day_witness:
  "submissionsOfDay oneRowStore ''203.0.113.7'' (noon + 1) = 1
   \<and> fst (post_waitlist testRuntime testEnv (jsonRequest (emailBody ''ada@example.com'')) (noon + 1) oneRowStore)
       = Inr (jsonResponse True None ''You are on the waitlist.'' 201 [])
   \<and> fst (post_waitlist testRuntime limitOneEnv (jsonRequest (emailBody ''ada@example.com'')) (noon + 1) oneRowStore)
       = Inr (jsonResponse False (Some ''rate_limited'') ''Rate limit reached. Please try again tomorrow.'' 429
               [(''Retry-After'', ''43200'')])
   \<and> WAITLIST_RATE_LIMIT_PER_DAY roundedEnv = Some ''9007199254740993''
   \<and> parsePositiveInt (WAITLIST_RATE_LIMIT_PER_DAY roundedEnv) 10 = 9007199254740992
   \<and> fst (post_waitlist testRuntime roundedEnv (jsonRequest (emailBody ''ada@example.com'')) (noon + 1) oneRowStore)
       = Inr (jsonResponse True None ''You are on the waitlist.'' 201 [])"
proof -
  have n: "0 \<le> noon + 1" "noon + 1 < 8640000000000000" by (simp_all add: noon_def)
  have f: "faults oneRowStore = []" by (simp add: oneRowStore_def)
  note t = rate_limit_per_ip_and_day [OF parse_ada safeParse_ada not_bot_emailOnly n f refl refl]
  have e: "WAITLIST_RATE_LIMIT_PER_DAY roundedEnv = Some ''9007199254740993''"
    by (simp add: roundedEnv_def)
  have pk: "parseInt10 ''9007199254740993'' = Some 9007199254740993"
    by (simp add: parseInt10_def digitValue_def isWhiteSpace_def Let_def)
  from t [of roundedEnv]
  have "\<forall>v k. WAITLIST_RATE_LIMIT_PER_DAY roundedEnv = Some v \<and> v \<noteq> [] \<and> parseInt10 v = Some k
               \<and> 1 \<le> k \<and> k < 2 ^ 1024 - 2 ^ 970 \<longrightarrow>
               roundTiesToEven k = Some (parsePositiveInt (WAITLIST_RATE_LIMIT_PER_DAY roundedEnv) 10)"
    by (elim conjE)
  from this [rule_format, of "''9007199254740993''" 9007199254740993] e pk
  have "roundTiesToEven 9007199254740993 = Some (parsePositiveInt (WAITLIST_RATE_LIMIT_PER_DAY roundedEnv) 10)"
    by simp
  then have r: "parsePositiveInt (WAITLIST_RATE_LIMIT_PER_DAY roundedEnv) 10 = 9007199254740992"
    by (simp add: roundTiesToEven_example)
  from t [of testEnv] t [of limitOneEnv] t [of roundedEnv] e r show ?thesis
    by (simp add: limit_default limit_one ip_jsonRequest submissions_oneRowStore seconds_noon)
qed

text \<open>
  Claim C1 as stated replaces every configured value that is not a number by 10. The
  handler reads the value with \<^verbatim>\<open>Number.parseInt\<close>, which stops at the first character that
  is no digit: the value \<^verbatim>\<open>1/day\<close> is no number, the IP has one row today, which is below
  10, and the submission is rejected with 429.
\<close>

theorem rate_limit_config_counterexample:
  "WAITLIST_RATE_LIMIT_PER_DAY perDayEnv = Some ''1/day''
   \<and> submissionsOfDay oneRowStore ''203.0.113.7'' (noon + 1) = 1
   \<and> getConnectingIp (req_headers (jsonRequest (emailBody ''ada@example.com''))) = ''203.0.113.7''
   \<and> fst (post_waitlist testRuntime perDayEnv (jsonRequest (emailBody ''ada@example.com'')) (noon + 1) oneRowStore)
       = Inr (jsonResponse False (Some ''rate_limited'') ''Rate limit reached. Please try again tomorrow.'' 429
               [(''Retry-After'', ''43200'')])"
proof -
  have n: "0 \<le> noon + 1" "noon + 1 < 8640000000000000" by (simp_all add: noon_def)
  have "pendingFault oneRowStore = None" by (simp add: pendingFault_def oneRowStore_def)
  from countByIp_day [OF this, of "''203.0.113.7''" "noon + 1"]
  have c: "countByIp oneRowStore (getConnectingIp (req_headers (jsonRequest (emailBody ''ada@example.com''))))
       (Day (noon + 1) * msPerDay) ((Day (noon + 1) + 1) * msPerDay - 1) =
      (Inr 1, received oneRowStore (CountByIp ''203.0.113.7'' (Day (noon + 1) * msPerDay) ((Day (noon + 1) + 1) * msPerDay - 1)))"
    by (simp add: ip_jsonRequest submissions_oneRowStore)
  have e: "WAITLIST_RATE_LIMIT_PER_DAY perDayEnv = Some ''1/day''" by (simp add: perDayEnv_def)
  from reaches_limiter [OF parse_ada safeParse_ada not_bot_emailOnly startOfUtcDayIso_eq [OF n]
      endOfUtcDayIso_eq [OF n] c, of perDayEnv] e
  show ?thesis
    by (simp add: limit_per_day ip_jsonRequest submissions_oneRowStore seconds_noon)
qed

subsection \<open>The upsert writer and its one retry\<close>



subsection \<open>The defaults of the source and the landing path\<close>

text \<open>
  Claim C10. After a submission that is answered 201 (so valid, no bot and under the
  ceiling), the store has a row for the submission's email, in lower case, and in every such
  row \<^verbatim>\<open>source_url\<close> and \<^verbatim>\<open>landing_path\<close> are not NULL. When the submission has no source
  (neither \<^verbatim>\<open>source\<close> nor \<^verbatim>\<open>source_url\<close> holds a text that is not blank), \<^verbatim>\<open>source_url\<close>
  is the whole request URL, and so is \<^verbatim>\<open>request.source\<close> in the stored metadata; when it
  has no landing path, \<^verbatim>\<open>landing_path\<close> is the path of the request URL.
\<close>

theorem source_and_landing_defaults:
  assumes "post_waitlist R env request now db = (Inr resp, db')" and "status resp = 201"
    and "parseRequestBody request = Inr raw"
    and "safeParse R (normalizePayload R raw) = Some payload"
  shows "rowsOfEmail db' (toLowerCase (email payload)) \<noteq> []
       \<and> (\<forall>r \<in> set (rowsOfEmail db' (toLowerCase (email payload))).
            r ''source_url'' \<noteq> SNull \<and> r ''landing_path'' \<noteq> SNull
          \<and> (toOptionalString (orElse (getProp raw ''source'') (getProp raw ''source_url'')) = None \<longrightarrow>
               r ''source_url'' = SText (req_href request)
             \<and> (\<exists>m. r ''metadata_json'' = SJson m
                   \<and> getProp (getProp m ''request'') ''source'' = JStr (req_href request)))
          \<and> (toOptionalString (orElse (getProp raw ''landingPath'') (getProp raw ''landing_path'')) = None \<longrightarrow>
               r ''landing_path'' = SText (req_pathname request)))"
proof -
  let ?ip = "getConnectingIp (req_headers request)"
  let ?e = "toLowerCase (email payload)"
  let ?x = "excludedRow insertColumns (upsertValues R request payload ?ip now)"
  from accepted_written [OF assms refl] obtain ex u where
    rows: "rows db' = upserted (rows db) ex u (next_id db)" and
    ex: "\<forall>c \<in> set insertColumns. ex c = ?x c" and
    u: "set updateColumns \<subseteq> set u" "set u \<subseteq> insert ''ip_hash'' (set updateColumns)"
    by blast
  have e: "ex ''email'' = SText ?e"
    using ex updateColumns_members(9) by (simp add: excluded_upsertValues)
  have nu: "''email'' \<notin> set u" "''id'' \<notin> set u"
    using u(2) updateColumns_members(1,3) by auto
  note w = upserted_written [where ex = ex and e = ?e and u = u and rs = "rows db" and nid = "next_id db",
      OF e nu, folded rows]
  have src: "source payload = None"
    if "toOptionalString (orElse (getProp raw ''source'') (getProp raw ''source_url'')) = None"
    using safeParse_source [OF assms(4)] that
    by (simp add: normalized_source optString_def zUrlMax_def)
  have lp: "landingPath payload = None"
    if "toOptionalString (orElse (getProp raw ''landingPath'') (getProp raw ''landing_path'')) = None"
    using safeParse_landingPath [OF assms(4)] that
    by (simp add: normalized_landingPath optString_def zStringMax_def)
  have tr: "r c = ?x c" if "r \<in> set (rowsOfEmail db' ?e)" and "c \<in> set updateColumns" for r c
  proof -
    from that(1) w(2) have "\<forall>c \<in> set u. r c = ex c" by (simp add: rowsOfEmail_def)
    moreover from that(2) u(1) have "c \<in> set u" by (rule subsetD [rotated])
    moreover from that(2) updateColumns_members(8) have "c \<in> set insertColumns" by (rule subsetD [rotated])
    ultimately show ?thesis using ex by simp
  qed
  have cols: "r ''source_url'' = ?x ''source_url'' \<and> r ''landing_path'' = ?x ''landing_path''
              \<and> r ''metadata_json'' = ?x ''metadata_json''"
    if "r \<in> set (rowsOfEmail db' ?e)" for r
    using tr [OF that updateColumns_members(4)] tr [OF that updateColumns_members(5)]
      tr [OF that updateColumns_members(6)] by simp
  show ?thesis
  proof (intro conjI ballI impI)
    show "rowsOfEmail db' ?e \<noteq> []" using w(1) by (simp add: rowsOfEmail_def)
  next
    fix r assume r: "r \<in> set (rowsOfEmail db' ?e)"
    from cols [OF r] show "r ''source_url'' \<noteq> SNull" by (simp add: excluded_upsertValues)
  next
    fix r assume r: "r \<in> set (rowsOfEmail db' ?e)"
    from cols [OF r] show "r ''landing_path'' \<noteq> SNull" by (simp add: excluded_upsertValues)
  next
    fix r assume r: "r \<in> set (rowsOfEmail db' ?e)"
      and a: "toOptionalString (orElse (getProp raw ''source'') (getProp raw ''source_url'')) = None"
    from cols [OF r] src [OF a] show "r ''source_url'' = SText (req_href request)"
      by (simp add: excluded_upsertValues)
  next
    fix r assume r: "r \<in> set (rowsOfEmail db' ?e)"
      and a: "toOptionalString (orElse (getProp raw ''source'') (getProp raw ''source_url'')) = None"
    from cols [OF r] src [OF a] metadata_source [of R request payload]
    show "\<exists>m. r ''metadata_json'' = SJson m
                   \<and> getProp (getProp m ''request'') ''source'' = JStr (req_href request)"
      by (simp add: excluded_upsertValues)
  next
    fix r assume r: "r \<in> set (rowsOfEmail db' ?e)"
      and a: "toOptionalString (orElse (getProp raw ''landingPath'') (getProp raw ''landing_path'')) = None"
    from cols [OF r] lp [OF a] show "r ''landing_path'' = SText (req_pathname request)"
      by (simp add: excluded_upsertValues)
  qed
qed

theorem source_and_landing_defaults_witness:
  "toOptionalString (orElse (getProp (emailBody ''ada@example.com'') ''source'')
      (getProp (emailBody ''ada@example.com'') ''source_url'')) = None
   \<and> (\<exists>resp db'. post_waitlist testRuntime testEnv (jsonRequest (emailBody ''ada@example.com'')) noon emptyStore
                  = (Inr resp, db')
        \<and> status resp = 201
        \<and> rowsOfEmail db' ''ada@example.com'' \<noteq> []
        \<and> list_all (\<lambda>r. r ''source_url'' = SText ''https://example.com/api/waitlist''
                        \<and> r ''landing_path'' = SText ''/api/waitlist'')
             (rowsOfEmail db' ''ada@example.com''))"
proof -
  let ?req = "jsonRequest (emailBody ''ada@example.com'')"
  have n: "0 \<le> noon" "noon < 8640000000000000" by (simp_all add: noon_def)
  have l: "int (submissionsOfDay emptyStore (getConnectingIp (req_headers ?req)) noon)
        < parsePositiveInt (WAITLIST_RATE_LIMIT_PER_DAY testEnv) 10"
    by (simp add: emptyStore_facts limit_default)
  from accepts_below_ceiling [OF parse_ada safeParse_ada not_bot_emailOnly n emptyStore_facts(1) l]
  obtain db' where p: "post_waitlist testRuntime testEnv ?req noon emptyStore =
                 (Inr (jsonResponse True None ''You are on the waitlist.'' 201 []), db')" by blast
  have s: "status (jsonResponse True None ''You are on the waitlist.'' 201 []) = 201"
    by (simp add: jsonResponse_def)
  have a: "toOptionalString (orElse (getProp (emailBody ''ada@example.com'') ''source'')
      (getProp (emailBody ''ada@example.com'') ''source_url'')) = None"
    "toOptionalString (orElse (getProp (emailBody ''ada@example.com'') ''landingPath'')
      (getProp (emailBody ''ada@example.com'') ''landing_path'')) = None"
    by (simp_all add: emailBody_def)
  have h: "req_href ?req = ''https://example.com/api/waitlist''" "req_pathname ?req = ''/api/waitlist''"
    by (simp_all add: jsonRequest_def)
  have e: "toLowerCase (email (emailOnlyPayload ''ada@example.com'')) = ''ada@example.com''"
    by (simp add: emailOnlyPayload_def toLowerCase_ada)
  from source_and_landing_defaults [OF p s parse_ada safeParse_ada] a
  have "rowsOfEmail db' ''ada@example.com'' \<noteq> []
        \<and> list_all (\<lambda>r. r ''source_url'' = SText ''https://example.com/api/waitlist''
                        \<and> r ''landing_path'' = SText ''/api/waitlist'')
             (rowsOfEmail db' ''ada@example.com'')"
    unfolding e h by (simp add: list_all_iff)
  with p s a show ?thesis by blast
qed

subsection \<open>Submitting an email twice\<close>



subsection \<open>The sanitized additional fields\<close>

lemma parse_fieldsBody: "parseRequestBody (jsonRequest (fieldsBody fs)) = Inr (fieldsBody fs)"
  by (rule parse_jsonRequest) (simp add: fieldsBody_def)

lemma safeParse_fieldsBody:
  "safeParse testRuntime (normalizePayload testRuntime (fieldsBody fs))
     = Some ((emailOnlyPayload ''ada@example.com'')
               \<lparr>additionalFields := Some (filter (\<lambda>kv. fst kv \<noteq> ''__proto__'') fs)\<rparr>)"
  by (simp add: safeParse_def normalizePayload_def fieldsBody_def optString_def optNumber_def
        optBoolean_def toOptionalInteger_def zStringMax_def zUrlMax_def zEnum_def zBoolean_def
        zNumberRange_def zRecord_def zEmailMax_def testRuntime_def emailOnlyPayload_def trim_ada Let_def)

lemma accepted_fieldsBody:
  "\<exists>db'. post_waitlist testRuntime testEnv (jsonRequest (fieldsBody fs)) noon emptyStore =
           (Inr (jsonResponse True None ''You are on the waitlist.'' 201 []), db')"
proof -
  let ?req = "jsonRequest (fieldsBody fs)"
  have n: "0 \<le> noon" "noon < 8640000000000000" by (simp_all add: noon_def)
  have b: "\<not> isBot ((emailOnlyPayload ''ada@example.com'')
               \<lparr>additionalFields := Some (filter (\<lambda>kv. fst kv \<noteq> ''__proto__'') fs)\<rparr>)"
    by (simp add: isBot_def emailOnlyPayload_def)
  have l: "int (submissionsOfDay emptyStore (getConnectingIp (req_headers ?req)) noon)
        < parsePositiveInt (WAITLIST_RATE_LIMIT_PER_DAY testEnv) 10"
    by (simp add: emptyStore_facts limit_default)
  from accepts_below_ceiling [OF parse_fieldsBody safeParse_fieldsBody b n emptyStore_facts(1) l]
  show ?thesis by blast
qed

text \<open>
  Claim C7 as stated stringifies every value and drops an entry only when its key is empty
  after trimming or its value is unstringifiable or empty. The sanitizer reads a text from
  strings and numbers only: the record \<^verbatim>\<open>{flag: true}\<close> has a key that is not empty and a
  value that \<^verbatim>\<open>String\<close> prints as \<^verbatim>\<open>true\<close>, the submission is accepted, and the section
  \<^verbatim>\<open>additionalFields\<close> of the stored metadata is empty.
\<close>

theorem additional_fields_boolean_counterexample:
  "getProp (fieldsBody [(''flag'', JBool True)]) ''additionalFields'' = JObj [(''flag'', JBool True)]
   \<and> trim ''flag'' = ''flag''
   \<and> jsString testRuntime (JBool True) = ''true''
   \<and> (\<exists>db'. post_waitlist testRuntime testEnv (jsonRequest (fieldsBody [(''flag'', JBool True)])) noon emptyStore =
               (Inr (jsonResponse True None ''You are on the waitlist.'' 201 []), db')
          \<and> rowsOfEmail db' ''ada@example.com'' \<noteq> []
          \<and> list_all (\<lambda>r. \<exists>m. r ''metadata_json'' = SJson m \<and> getProp m ''additionalFields'' = JObj [])
               (rowsOfEmail db' ''ada@example.com''))"
proof -
  let ?fs = "[(''flag'', JBool True)] :: (string \<times> int jsval) list"
  let ?payload = "(emailOnlyPayload ''ada@example.com'')
               \<lparr>additionalFields := Some (filter (\<lambda>kv. fst kv \<noteq> ''__proto__'') ?fs)\<rparr>"
  let ?req = "jsonRequest (fieldsBody ?fs)"
  from accepted_fieldsBody [of ?fs] obtain db' where
    p: "post_waitlist testRuntime testEnv ?req noon emptyStore =
           (Inr (jsonResponse True None ''You are on the waitlist.'' 201 []), db')" ..
  have s: "status (jsonResponse True None ''You are on the waitlist.'' 201 []) = 201"
    by (simp add: jsonResponse_def)
  have e: "toLowerCase (email ?payload) = ''ada@example.com''"
    by (simp add: emailOnlyPayload_def toLowerCase_ada)
  note m = accepted_metadata [OF p s parse_fieldsBody safeParse_fieldsBody, unfolded e]
  have "sanitizedAdditionalFields testRuntime ?payload = []"
    by (simp add: sanitizedAdditionalFields_def sanitizeLooseRecord_def sanitizeLoop_step
          stringOfLoose_def deleteProp_def)
  then have a: "getProp (requestMetadata testRuntime ?req ?payload) ''additionalFields'' = JObj []"
    by (simp add: requestMetadata_def)
  have "list_all (\<lambda>r. \<exists>m. r ''metadata_json'' = SJson m \<and> getProp m ''additionalFields'' = JObj [])
               (rowsOfEmail db' ''ada@example.com'')"
    unfolding list_all_iff
  proof
    fix r assume "r \<in> set (rowsOfEmail db' ''ada@example.com'')"
    with m(2) have "r ''metadata_json'' = SJson (requestMetadata testRuntime ?req ?payload)" by simp
    with a show "\<exists>m. r ''metadata_json'' = SJson m \<and> getProp m ''additionalFields'' = JObj []"
      by blast
  qed
  moreover have "getProp (fieldsBody ?fs) ''additionalFields'' = JObj ?fs" by (simp add: fieldsBody_def)
  moreover have "trim ''flag'' = ''flag''" by (rule trim_id) (simp add: isWhiteSpace_def)
  moreover have "jsString testRuntime (JBool True) = ''true''" by simp
  ultimately show ?thesis using p m(1) by blast
qed

text \<open>
  Claim C7, amended. After a submission that is answered 201 and whose field
  \<^verbatim>\<open>additionalFields\<close> is a record, every row of the submission's email holds, in the section
  \<^verbatim>\<open>additionalFields\<close> of \<^verbatim>\<open>metadata_json\<close>, one object \<open>S\<close> of texts, the sanitized copy of the
  record. It has at most 24 entries, with distinct keys, none of them \<^verbatim>\<open>useCase\<close>. Each entry
  comes from an entry of the record: its key is that entry's key, trimmed and cut to 64
  characters, and is not empty; its value is the text of that entry's value, trimmed, not
  empty, and cut to 1200 characters, where a string gives itself, a number the text that
  \<^verbatim>\<open>String\<close> prints, and no other value gives a text. As a map, \<open>S\<close> is what the record
  determines: of the entries that are not dropped (the key empty after trimming, the value
  neither a string nor a number, the text empty after trimming) the first 24 in their
  sanitized form, a later one overwriting an earlier one of the same key, without the key
  \<^verbatim>\<open>useCase\<close>; an entry with the key \<^verbatim>\<open>__proto__\<close> is ignored, and one whose key is
  \<^verbatim>\<open>__proto__\<close> after trimming takes one of the 24 places and is not stored. The record
  \<^verbatim>\<open>{teamSize: "3-10"}\<close> is stored as it is.
\<close>

theorem additional_fields_sanitized:
  assumes "post_waitlist R env request now db = (Inr resp, db')" and "status resp = 201"
    and "parseRequestBody request = Inr raw"
    and "safeParse R (normalizePayload R raw) = Some payload"
    and "getProp raw ''additionalFields'' = JObj entries"
  shows "\<exists>S. length S \<le> 24
          \<and> distinct (map fst S)
          \<and> ''useCase'' \<notin> fst ` set S
          \<and> (\<forall>kv \<in> set S.
                length (fst kv) \<le> 64 \<and> length (snd kv) \<le> 1200 \<and> fst kv \<noteq> [] \<and> snd kv \<noteq> []
              \<and> sanitizedFrom R entries kv)
          \<and> map_of S = sanitizedFields R entries
          \<and> (entries = [(''teamSize'', JStr ''3-10'')] \<longrightarrow> S = [(''teamSize'', ''3-10'')])
          \<and> rowsOfEmail db' (toLowerCase (email payload)) \<noteq> []
          \<and> (\<forall>r \<in> set (rowsOfEmail db' (toLowerCase (email payload))).
                \<exists>m. r ''metadata_json'' = SJson m
                  \<and> getProp m ''additionalFields'' = JObj (map (\<lambda>(k, v). (k, JStr v)) S))"
proof -
  let ?out = "sanitizedAdditionalFields R payload"
  let ?entries = "filter (\<lambda>kv. fst kv \<noteq> ''__proto__'') entries"
  let ?loop = "sanitizeLoop R ?entries [] 0"
  have af: "additionalFields payload = Some ?entries"
    by (rule additionalFields_of_record [OF assms(4,5)])
  have out: "?out = filter (\<lambda>kv. fst kv \<noteq> ''useCase'') ?loop"
    by (simp add: sanitizedAdditionalFields_def sanitizeLooseRecord_def deleteProp_def af)
  have len: "length ?loop \<le> 24"
    using sanitizeLoop_length [of "[]" 0 R ?entries] by simp
  have dis: "distinct (map fst ?loop)"
    using sanitizeLoop_distinct [of "[]" R ?entries 0] by simp
  have 1: "length ?out \<le> 24"
    unfolding out using len length_filter_le [of "\<lambda>kv. fst kv \<noteq> ''useCase''" ?loop] by linarith
  have 2: "distinct (map fst ?out)"
    unfolding out using dis by (simp add: distinct_map_filter)
  have 3: "''useCase'' \<notin> fst ` set ?out"
    unfolding out by auto
  have 4: "\<forall>kv \<in> set ?out.
         length (fst kv) \<le> 64 \<and> length (snd kv) \<le> 1200 \<and> fst kv \<noteq> [] \<and> snd kv \<noteq> []
       \<and> sanitizedFrom R entries kv"
  proof
    fix kv assume "kv \<in> set ?out"
    then have "kv \<in> set ?loop" unfolding out by simp
    from sanitizeLoop_from [OF this] have "sanitizedFrom R ?entries kv" by simp
    then have f: "sanitizedFrom R entries kv" by (rule sanitizedFrom_filter)
    from sanitizedFrom_bounds [OF f] f
    show "length (fst kv) \<le> 64 \<and> length (snd kv) \<le> 1200 \<and> fst kv \<noteq> [] \<and> snd kv \<noteq> []
       \<and> sanitizedFrom R entries kv"
      by simp
  qed
  have 5: "map_of ?out = sanitizedFields R entries"
    by (rule sanitizedAdditionalFields_map [OF af])
  have t: "trim ''teamSize'' = ''teamSize''" "trim ''3-10'' = ''3-10''"
    by (rule trim_id, simp add: isWhiteSpace_def)+
  have 6: "entries = [(''teamSize'', JStr ''3-10'')] \<longrightarrow> ?out = [(''teamSize'', ''3-10'')]"
    unfolding out
    by (simp add: sanitizeLoop_step stringOfLoose_def t assignProp_def)
  note m = accepted_metadata [OF assms(1-4)]
  have 7: "\<forall>r \<in> set (rowsOfEmail db' (toLowerCase (email payload))).
                \<exists>m. r ''metadata_json'' = SJson m
                  \<and> getProp m ''additionalFields'' = JObj (map (\<lambda>(k, v). (k, JStr v)) ?out)"
  proof
    fix r assume "r \<in> set (rowsOfEmail db' (toLowerCase (email payload)))"
    with m(2) have "r ''metadata_json'' = SJson (requestMetadata R request payload)" by simp
    moreover have "getProp (requestMetadata R request payload) ''additionalFields''
        = JObj (map (\<lambda>(k, v). (k, JStr v)) ?out)"
      by (simp add: requestMetadata_def)
    ultimately show "\<exists>m. r ''metadata_json'' = SJson m
                  \<and> getProp m ''additionalFields'' = JObj (map (\<lambda>(k, v). (k, JStr v)) ?out)"
      by blast
  qed
  from 1 2 3 4 5 6 m(1) 7 show ?thesis by (intro exI [of _ ?out] conjI)
qed

theorem additional_fields_sanitized_witness:
  "\<exists>db'. post_waitlist testRuntime testEnv
            (jsonRequest (fieldsBody [(''teamSize'', JStr ''3-10''), (''seats'', JNum 42),
               (''flag'', JBool True), ('' note '', JStr '' soon ''), (''useCase'', JStr ''billing'')]))
            noon emptyStore =
          (Inr (jsonResponse True None ''You are on the waitlist.'' 201 []), db')
     \<and> rowsOfEmail db' ''ada@example.com'' \<noteq> []
     \<and> list_all (\<lambda>r. \<exists>m. r ''metadata_json'' = SJson m
            \<and> getProp (getProp m ''additionalFields'') ''teamSize'' = JStr ''3-10''
            \<and> getProp (getProp m ''additionalFields'') ''seats'' = JStr ''42''
            \<and> getProp (getProp m ''additionalFields'') ''note'' = JStr ''soon''
            \<and> getProp (getProp m ''additionalFields'') ''flag'' = JUndefined
            \<and> getProp (getProp m ''additionalFields'') ''useCase'' = JUndefined)
          (rowsOfEmail db' ''ada@example.com'')"
proof -
  let ?fs = "[(''teamSize'', JStr ''3-10''), (''seats'', JNum 42),
               (''flag'', JBool True), ('' note '', JStr '' soon ''), (''useCase'', JStr ''billing'')]
             :: (string \<times> int jsval) list"
  let ?payload = "(emailOnlyPayload ''ada@example.com'')
               \<lparr>additionalFields := Some (filter (\<lambda>kv. fst kv \<noteq> ''__proto__'') ?fs)\<rparr>"
  let ?req = "jsonRequest (fieldsBody ?fs)"
  from accepted_fieldsBody [of ?fs] obtain db' where
    p: "post_waitlist testRuntime testEnv ?req noon emptyStore =
           (Inr (jsonResponse True None ''You are on the waitlist.'' 201 []), db')" ..
  have s: "status (jsonResponse True None ''You are on the waitlist.'' 201 []) = 201"
    by (simp add: jsonResponse_def)
  have e: "toLowerCase (email ?payload) = ''ada@example.com''"
    by (simp add: emailOnlyPayload_def toLowerCase_ada)
  have g: "getProp (fieldsBody ?fs) ''additionalFields'' = JObj ?fs" by (simp add: fieldsBody_def)
  from additional_fields_sanitized [OF p s parse_fieldsBody safeParse_fieldsBody g, unfolded e]
  obtain S where ms: "map_of S = sanitizedFields testRuntime ?fs"
    and ne: "rowsOfEmail db' ''ada@example.com'' \<noteq> []"
    and rs: "\<forall>r \<in> set (rowsOfEmail db' ''ada@example.com'').
                \<exists>m. r ''metadata_json'' = SJson m
                  \<and> getProp m ''additionalFields'' = JObj (map (\<lambda>(k, v). (k, JStr v)) S)"
    by (elim exE conjE)
  have t: "trim ''teamSize'' = ''teamSize''" "trim ''3-10'' = ''3-10''" "trim ''seats'' = ''seats''"
    "trim ''42'' = ''42''" "trim ''flag'' = ''flag''" "trim ''useCase'' = ''useCase''"
    "trim ''billing'' = ''billing''"
    by (rule trim_id, simp add: isWhiteSpace_def)+
  have t2: "trim '' note '' = ''note''" "trim '' soon '' = ''soon''"
    by (simp_all add: trim_def isWhiteSpace_def)
  have n: "String_ofNumber testRuntime 42 = ''42''"
    by (simp add: testRuntime_def String_ofSeconds_def digits10_small digits10_large digitChar_def)
  have v: "sanitizedFields testRuntime ?fs ''teamSize'' = Some ''3-10''"
    "sanitizedFields testRuntime ?fs ''seats'' = Some ''42''"
    "sanitizedFields testRuntime ?fs ''note'' = Some ''soon''"
    "sanitizedFields testRuntime ?fs ''flag'' = None"
    "sanitizedFields testRuntime ?fs ''useCase'' = None"
    by (simp_all add: sanitizedFields_def looseEntry_def stringOfLoose_def map_filter_simps t t2 n)
  have "list_all (\<lambda>r. \<exists>m. r ''metadata_json'' = SJson m
            \<and> getProp (getProp m ''additionalFields'') ''teamSize'' = JStr ''3-10''
            \<and> getProp (getProp m ''additionalFields'') ''seats'' = JStr ''42''
            \<and> getProp (getProp m ''additionalFields'') ''note'' = JStr ''soon''
            \<and> getProp (getProp m ''additionalFields'') ''flag'' = JUndefined
            \<and> getProp (getProp m ''additionalFields'') ''useCase'' = JUndefined)
          (rowsOfEmail db' ''ada@example.com'')"
    unfolding list_all_iff
  proof
    fix r assume "r \<in> set (rowsOfEmail db' ''ada@example.com'')"
    with rs obtain m where m: "r ''metadata_json'' = SJson m"
      "getProp m ''additionalFields'' = JObj (map (\<lambda>(k, v). (k, JStr v)) S)" by blast
    have "getProp (getProp m ''additionalFields'') k =
        (case sanitizedFields testRuntime ?fs k of None \<Rightarrow> JUndefined | Some v \<Rightarrow> JStr v)" for k
      unfolding m(2) getProp_sanitized ms ..
    with m(1) v show "\<exists>m. r ''metadata_json'' = SJson m
            \<and> getProp (getProp m ''additionalFields'') ''teamSize'' = JStr ''3-10''
            \<and> getProp (getProp m ''additionalFields'') ''seats'' = JStr ''42''
            \<and> getProp (getProp m ''additionalFields'') ''note'' = JStr ''soon''
            \<and> getProp (getProp m ''additionalFields'') ''flag'' = JUndefined
            \<and> getProp (getProp m ''additionalFields'') ''useCase'' = JUndefined"
      by simp
  qed
  with p ne show ?thesis by blast
qed

end
